(* ===== verification/Go_Prelude.thy ===== *)
theory Go_Prelude
  imports Main "HOL-Library.AList" "HOL-Library.Multiset"
begin

text \<open>
  The part of Go and of its standard library that every component of the adapter uses:
  \<^item> errors as values (\<open>go_error\<close>) and the three ways a call can end (\<open>result\<close>);
  \<^item> maps as association lists without repeated keys (\<open>go_map\<close>): the list order is one order in
    which \<open>range\<close> may visit the map;
  \<^item> the functions of \<open>strings\<close> and \<open>path\<close> the code calls, on byte strings.
  The collection \<open>go_defs\<close> (definitions worth unfolding in a component proof) is filled by the
  components.
\<close>

named_theorems go_defs "definitions of small operations, unfolded by the component proofs"

section \<open>Errors and results\<close>

text \<open>
  A \<open>metav1.Status\<close> carried by a \<open>*StatusError\<close>, with the fields this repository sets.
\<close>

record api_status =
  status_Status :: string
  status_Code :: int
  status_Reason :: string
  status_Message :: string

text \<open>
  An \<open>error\<close> value is a \<open>*StatusError\<close>, the aggregate of several errors, an error made by
  \<open>fmt.Errorf\<close> (its format, its string operands and its error operands, which \<open>%v\<close> turns into
  text, so nothing but text remains of them), an error of a REST mapper that knows no match, or an
  error of another package.
\<close>

datatype go_error =
    StatusError api_status
  | Aggregate "go_error list"
  | Errorf string "string list" "go_error list"
  | NoMatchError string
  | OtherError string

text \<open>
  \<open>err.Error()\<close>. A verb of a format takes the next operand (strings, then errors: no format of the
  adapter has an error before a string); \<open>%q\<close> puts it in quotes (its escapes are not modelled).
\<close>

fun sprintf :: "string \<Rightarrow> string list \<Rightarrow> string" where
  "sprintf [] as = []"
| "sprintf [c] as = [c]"
| "sprintf (c # d # cs) [] = c # sprintf (d # cs) []"
| "sprintf (c # d # cs) (a # as) =
     (if c = CHR ''%'' then
        (if d = CHR ''q'' then [CHR 0x22] @ a @ [CHR 0x22] else a) @ sprintf cs as
      else c # sprintf (d # cs) (a # as))"

fun error_text :: "go_error \<Rightarrow> string" where
  "error_text (StatusError st) = status_Message st"
| "error_text (NoMatchError m) = m"
| "error_text (OtherError m) = m"
| "error_text (Errorf f ss es) = sprintf f (ss @ map error_text es)"
| "error_text (Aggregate es) =
     (case map error_text es of
        [] \<Rightarrow> []
      | [m] \<Rightarrow> m
      | m # ms \<Rightarrow> ''['' @ m @ concat (map (\<lambda>t. '', '' @ t) ms) @ '']'')"

text \<open>
  A call returns (\<open>Ok\<close>), returns a non-nil error (\<open>Err\<close>), or does not return at all: it panics
  or ends the process (\<open>Abort\<close>, with what happened).
\<close>

datatype 'a result = Ok 'a | Err go_error | Abort string

fun bind_result :: "'a result \<Rightarrow> ('a \<Rightarrow> 'b result) \<Rightarrow> 'b result" where
  "bind_result (Ok x) f = f x"
| "bind_result (Err e) f = Err e"
| "bind_result (Abort p) f = Abort p"

fun is_ok :: "'a result \<Rightarrow> bool" where
  "is_ok (Ok x) = True"
| "is_ok (Err e) = False"
| "is_ok (Abort p) = False"

fun aborts :: "'a result \<Rightarrow> bool" where
  "aborts (Abort p) = True"
| "aborts (Ok x) = False"
| "aborts (Err e) = False"

lemma bind_result_Ok_iff [simp]:
  "bind_result m f = Ok y \<longleftrightarrow> (\<exists>x. m = Ok x \<and> f x = Ok y)"
  by (cases m) auto

lemma bind_result_cong [fundef_cong]:
  "m = m' \<Longrightarrow> (\<And>x. m' = Ok x \<Longrightarrow> f x = g x) \<Longrightarrow> bind_result m f = bind_result m' g"
  by (cases m') auto

lemma is_ok_iff: "is_ok r \<longleftrightarrow> (\<exists>x. r = Ok x)"
  by (cases r) auto

text \<open>Reading element \<open>i\<close> of a slice: out of range panics.\<close>

definition index_slice :: "'a list \<Rightarrow> nat \<Rightarrow> 'a result" where
  "index_slice xs i = (if i < length xs then Ok (xs ! i) else Abort ''index out of range'')"

text \<open>Dereferencing a pointer: \<open>None\<close> is \<open>nil\<close> and panics.\<close>

definition deref :: "'a option \<Rightarrow> 'a result" where
  "deref p = (case p of None \<Rightarrow> Abort ''nil pointer dereference'' | Some x \<Rightarrow> Ok x)"

lemma index_slice_Cons [simp]: "index_slice (x # xs) 0 = Ok x"
  by (simp add: index_slice_def)

lemma index_slice_Nil [simp]: "index_slice [] i = Abort ''index out of range''"
  by (simp add: index_slice_def)

lemma deref_simps [simp]: "deref (Some x) = Ok x" "deref None = Abort ''nil pointer dereference''"
  by (simp_all add: deref_def)

section \<open>Maps\<close>

type_synonym ('k, 'v) go_map = "('k \<times> 'v) list"

definition go_keys :: "('k, 'v) go_map \<Rightarrow> 'k list" where
  "go_keys m = map fst m"

abbreviation go_get :: "('k, 'v) go_map \<Rightarrow> 'k \<Rightarrow> 'v option" where
  "go_get m \<equiv> map_of m"

text \<open>A Go map never holds a key twice.\<close>

definition go_map_wf :: "('k, 'v) go_map \<Rightarrow> bool" where
  "go_map_wf m \<longleftrightarrow> distinct (go_keys m)"

definition go_put :: "'k \<Rightarrow> 'v \<Rightarrow> ('k, 'v) go_map \<Rightarrow> ('k, 'v) go_map" where
  "go_put k v m = AList.update k v m"

definition go_delete :: "'k \<Rightarrow> ('k, 'v) go_map \<Rightarrow> ('k, 'v) go_map" where
  "go_delete k m = AList.delete k m"

lemma go_get_put [simp]: "go_get (go_put k v m) k' = (if k' = k then Some v else go_get m k')"
  by (simp add: go_put_def update_conv')

lemma go_get_delete [simp]: "go_get (go_delete k m) k' = (if k' = k then None else go_get m k')"
  by (auto simp: go_delete_def delete_conv')

lemma go_map_wf_Nil [simp]: "go_map_wf []"
  by (simp add: go_map_wf_def go_keys_def)

lemma go_map_wf_put [simp]: "go_map_wf m \<Longrightarrow> go_map_wf (go_put k v m)"
  by (simp add: go_map_wf_def go_put_def go_keys_def distinct_update)

lemma go_map_wf_delete [simp]: "go_map_wf m \<Longrightarrow> go_map_wf (go_delete k m)"
  by (simp add: go_map_wf_def go_delete_def go_keys_def distinct_delete)

lemma set_go_keys: "set (go_keys m) = dom (go_get m)"
  by (simp add: go_keys_def dom_map_of_conv_image_fst)

lemma set_go_keys_put [simp]: "set (go_keys (go_put k v m)) = insert k (set (go_keys m))"
  by (auto simp: set_go_keys go_put_def update_conv')

lemma go_keys_Nil [simp]: "go_keys [] = []"
  by (simp add: go_keys_def)

text \<open>
  Ranging over a slice or a map and inserting into a map, appending to a slice, appending what passes
  a test.
\<close>

lemma set_go_keys_foldl_put:
  "set (go_keys (foldl (\<lambda>m r. go_put (f r) (g r) m) acc rs)) = f ` set rs \<union> set (go_keys acc)"
  by (induction rs arbitrary: acc) auto

lemma go_map_wf_foldl_put:
  "go_map_wf acc \<Longrightarrow> go_map_wf (foldl (\<lambda>m r. go_put (f r) (g r) m) acc rs)"
  by (induction rs arbitrary: acc) auto

lemma foldl_snoc: "foldl (\<lambda>acc x. acc @ [f x]) acc xs = acc @ map f xs"
  by (induction xs arbitrary: acc) auto

lemma set_order: "(\<And>xs. mset (order xs) = mset xs) \<Longrightarrow> set (order xs) = set xs"
  by (metis set_mset_mset)

lemma distinct_order: "(\<And>xs. mset (order xs) = mset xs) \<Longrightarrow> distinct (order xs) = distinct xs"
  by (metis mset_eq_imp_distinct_iff)

section \<open>Strings\<close>

text \<open>\<open>strings.Index(s, c)\<close> for a one-byte separator: the first position, \<open>None\<close> for \<open>-1\<close>.\<close>

fun index_byte :: "char \<Rightarrow> string \<Rightarrow> nat option" where
  "index_byte c [] = None"
| "index_byte c (x # xs) = (if x = c then Some 0 else map_option Suc (index_byte c xs))"

text \<open>\<open>strings.Split(s, sep)\<close> for a one-byte separator.\<close>

fun split_byte :: "char \<Rightarrow> string \<Rightarrow> string list" where
  "split_byte c [] = [[]]"
| "split_byte c (x # xs) =
     (if x = c then [] # split_byte c xs
      else (case split_byte c xs of [] \<Rightarrow> [[x]] | w # ws \<Rightarrow> (x # w) # ws))"

text \<open>\<open>strings.Join(elems, sep)\<close> for a one-byte separator.\<close>

fun join_byte :: "char \<Rightarrow> string list \<Rightarrow> string" where
  "join_byte c [] = []"
| "join_byte c [w] = w"
| "join_byte c (w # v # ws) = w @ c # join_byte c (v # ws)"

text \<open>\<open>strings.Count(s, c)\<close>, \<open>strings.Trim(s, c)\<close>, \<open>strings.HasPrefix\<close>, \<open>strings.TrimPrefix\<close>,
  and \<open>strings.ToLower\<close> on ASCII bytes.\<close>

definition count_byte :: "char \<Rightarrow> string \<Rightarrow> nat" where
  "count_byte c s = count_list s c"

definition trim_left_byte :: "char \<Rightarrow> string \<Rightarrow> string" where
  "trim_left_byte c s = dropWhile (\<lambda>x. x = c) s"

definition trim_right_byte :: "char \<Rightarrow> string \<Rightarrow> string" where
  "trim_right_byte c s = rev (dropWhile (\<lambda>x. x = c) (rev s))"

definition trim_byte :: "char \<Rightarrow> string \<Rightarrow> string" where
  "trim_byte c s = trim_right_byte c (trim_left_byte c s)"

definition has_prefix :: "string \<Rightarrow> string \<Rightarrow> bool" where
  "has_prefix s p \<longleftrightarrow> take (length p) s = p"

definition trim_prefix :: "string \<Rightarrow> string \<Rightarrow> string" where
  "trim_prefix s p = (if has_prefix s p then drop (length p) s else s)"

definition ascii_lower :: "char \<Rightarrow> char" where
  "ascii_lower c =
     (let n = (of_char c :: nat) in if 65 \<le> n \<and> n \<le> 90 then char_of (n + 32) else c)"

definition to_lower :: "string \<Rightarrow> string" where
  "to_lower s = map ascii_lower s"

lemma has_prefix_append [simp]: "has_prefix (p @ s) p"
  by (simp add: has_prefix_def)

lemma index_byte_None [simp]: "index_byte c s = None \<longleftrightarrow> c \<notin> set s"
  by (induction s) auto

lemma index_byte_notin [simp]: "c \<notin> set s \<Longrightarrow> index_byte c s = None"
  by simp

lemma index_byte_append [simp]: "c \<notin> set s \<Longrightarrow> index_byte c (s @ c # t) = Some (length s)"
  by (induction s) auto

lemma count_byte_notin [simp]: "c \<notin> set s \<Longrightarrow> count_byte c s = 0"
  by (simp add: count_byte_def count_list_0_iff)

lemma count_byte_append [simp]: "count_byte c (s @ t) = count_byte c s + count_byte c t"
  by (simp add: count_byte_def)

lemma count_byte_Cons [simp]: "count_byte c (x # s) = (if x = c then 1 else 0) + count_byte c s"
  by (simp add: count_byte_def)

lemma index_byte_SomeD:
  "index_byte c s = Some i \<Longrightarrow> s = take i s @ c # drop (Suc i) s \<and> c \<notin> set (take i s)"
  by (induction s arbitrary: i) (auto split: if_splits)

lemma split_byte_nonempty [simp]: "split_byte c s \<noteq> []"
  by (induction s) (auto split: list.splits)

lemma split_byte_no_sep [simp]: "c \<notin> set s \<Longrightarrow> split_byte c s = [s]"
  by (induction s) auto

lemma split_byte_append [simp]:
  "c \<notin> set s \<Longrightarrow> split_byte c (s @ c # t) = s # split_byte c t"
  by (induction s) auto

lemma join_split: "join_byte c (split_byte c s) = s"
proof (induction s)
  case Nil
  then show ?case by simp
next
  case (Cons x s)
  obtain w ws where split: "split_byte c s = w # ws"
    by (cases "split_byte c s") auto
  with Cons show ?case by (cases ws) auto
qed

lemma split_join:
  "ws \<noteq> [] \<Longrightarrow> \<forall>w \<in> set ws. c \<notin> set w \<Longrightarrow> split_byte c (join_byte c ws) = ws"
  by (induction c ws rule: join_byte.induct) auto

lemma split_byte_no_sep_in: "w \<in> set (split_byte c s) \<Longrightarrow> c \<notin> set w"
  by (induction s arbitrary: w) (auto split: list.splits if_splits)

section \<open>Paths\<close>

text \<open>
  \<open>path.Clean\<close>: the elements between slashes are read from left to right onto a stack (kept
  reversed); empty elements and \<open>.\<close> are dropped, \<open>..\<close> removes the element before it, or is kept
  at the front of a relative path and dropped at the root of an absolute one.
\<close>

fun clean_step :: "bool \<Rightarrow> string list \<Rightarrow> string \<Rightarrow> string list" where
  "clean_step rooted st w =
     (if w = [] \<or> w = ''.'' then st
      else if w = ''..'' then
        (case st of
           [] \<Rightarrow> if rooted then [] else [''..'']
         | t # ts \<Rightarrow> if t = ''..'' then ''..'' # st else ts)
      else w # st)"

definition path_clean :: "string \<Rightarrow> string" where
  "path_clean p =
     (if p = [] then ''.''
      else
        let rooted = has_prefix p ''/'';
            out = join_byte (CHR ''/'') (rev (foldl (clean_step rooted) [] (split_byte (CHR ''/'') p)))
        in if rooted then ''/'' @ out else if out = [] then ''.'' else out)"

text \<open>\<open>path.Join\<close> skips the empty elements at the front and cleans the rest.\<close>

definition path_join :: "string list \<Rightarrow> string" where
  "path_join elems =
     (case dropWhile (\<lambda>e. e = []) elems of
        [] \<Rightarrow> []
      | es \<Rightarrow> path_clean (join_byte (CHR ''/'') es))"

text \<open>An element that \<open>path.Clean\<close> leaves as it is.\<close>

definition plain_element :: "string \<Rightarrow> bool" where
  "plain_element w \<longleftrightarrow> w \<noteq> [] \<and> w \<noteq> ''.'' \<and> w \<noteq> ''..'' \<and> CHR ''/'' \<notin> set w"

lemma foldl_clean_plain:
  "\<forall>w \<in> set ws. plain_element w \<Longrightarrow> foldl (clean_step b) st ws = rev ws @ st"
  by (induction ws arbitrary: st) (auto simp: plain_element_def)

lemma has_prefix_slash: "has_prefix s ''/'' \<longleftrightarrow> (\<exists>t. s = CHR ''/'' # t)"
  by (cases s) (auto simp: has_prefix_def)

lemma plain_element_head: "plain_element w \<Longrightarrow> \<exists>x xs. w = x # xs \<and> x \<noteq> CHR ''/''"
  by (cases w) (auto simp: plain_element_def)

lemma path_clean_plain:
  assumes "ws \<noteq> []" and plain: "\<forall>v \<in> set ws. plain_element v"
  shows "path_clean (CHR ''/'' # join_byte (CHR ''/'') ws) = CHR ''/'' # join_byte (CHR ''/'') ws"
proof -
  have "\<forall>v \<in> set ws. CHR ''/'' \<notin> set v"
    using plain by (auto simp: plain_element_def)
  then have "split_byte (CHR ''/'') (CHR ''/'' # join_byte (CHR ''/'') ws) = [] # ws"
    using assms(1) by (simp add: split_join)
  moreover have "foldl (clean_step True) [] ([] # ws) = rev ws"
    using foldl_clean_plain [OF plain] by simp
  ultimately show ?thesis
    by (simp add: path_clean_def has_prefix_slash del: split_byte.simps)
qed

lemma path_join_plain:
  assumes plain: "\<forall>v \<in> set (w # ws). plain_element v"
  shows "path_join ((CHR ''/'' # w) # ws) = CHR ''/'' # join_byte (CHR ''/'') (w # ws)"
proof -
  have "join_byte (CHR ''/'') ((CHR ''/'' # w) # ws) = CHR ''/'' # join_byte (CHR ''/'') (w # ws)"
    by (cases ws) auto
  then show ?thesis
    using path_clean_plain [OF _ plain] by (simp add: path_join_def)
qed

end
