(* ===== verification/Schema.thy ===== *)
theory Schema
  imports Go_Prelude
begin

text \<open>
  The identifiers of the Kubernetes API that pass between the components:
  \<open>k8s.io/apimachinery/pkg/runtime/schema/group_version.go\<close> (vendored), the label and field
  selectors as far as the adapter uses them, and the status errors of
  \<open>pkg/provider/errors.go\<close>. The lemmas are the round trips of the textual forms: a resource name
  published in discovery is read back as the same group-resource.
\<close>

section \<open>Groups, versions, resources and kinds\<close>

record group_resource =
  gr_Group :: string
  gr_Resource :: string

record group_version_resource =
  gvr_Group :: string
  gvr_Version :: string
  gvr_Resource :: string

record group_version_kind =
  gvk_Group :: string
  gvk_Version :: string
  gvk_Kind :: string

record group_version =
  gv_Group :: string
  gv_Version :: string

definition WithVersion :: "group_resource \<Rightarrow> string \<Rightarrow> group_version_resource" where
  "WithVersion gr v =
     \<lparr>gvr_Group = gr_Group gr, gvr_Version = v, gvr_Resource = gr_Resource gr\<rparr>"

definition gr_String :: "group_resource \<Rightarrow> string" where
  "gr_String gr =
     (if gr_Group gr = [] then gr_Resource gr else gr_Resource gr @ ''.'' @ gr_Group gr)"

definition ParseGroupResource :: "string \<Rightarrow> group_resource" where
  "ParseGroupResource gr =
     (case index_byte (CHR ''.'') gr of
        Some i \<Rightarrow> \<lparr>gr_Group = drop (Suc i) gr, gr_Resource = take i gr\<rparr>
      | None \<Rightarrow> \<lparr>gr_Group = [], gr_Resource = gr\<rparr>)"

definition gvr_GroupResource :: "group_version_resource \<Rightarrow> group_resource" where
  "gvr_GroupResource gvr = \<lparr>gr_Group = gvr_Group gvr, gr_Resource = gvr_Resource gvr\<rparr>"

definition gvk_Empty :: "group_version_kind \<Rightarrow> bool" where
  "gvk_Empty gvk \<longleftrightarrow> gvk_Group gvk = [] \<and> gvk_Version gvk = [] \<and> gvk_Kind gvk = []"

definition gv_Empty :: "group_version \<Rightarrow> bool" where
  "gv_Empty gv \<longleftrightarrow> gv_Group gv = [] \<and> gv_Version gv = []"

definition gv_String :: "group_version \<Rightarrow> string" where
  "gv_String gv =
     (if gv_Empty gv then []
      else if gv_Group gv = [] \<and> gv_Version gv = ''v1'' then gv_Version gv
      else if gv_Group gv \<noteq> [] then gv_Group gv @ ''/'' @ gv_Version gv
      else gv_Version gv)"

definition ParseGroupVersion :: "string \<Rightarrow> group_version result" where
  "ParseGroupVersion gv =
     (if gv = [] \<or> gv = ''/'' then Ok \<lparr>gv_Group = [], gv_Version = []\<rparr>
      else if count_byte (CHR ''/'') gv = 0 then Ok \<lparr>gv_Group = [], gv_Version = gv\<rparr>
      else if count_byte (CHR ''/'') gv = 1 then
        (case index_byte (CHR ''/'') gv of
           Some i \<Rightarrow> Ok \<lparr>gv_Group = take i gv, gv_Version = drop (Suc i) gv\<rparr>
         | None \<Rightarrow> Abort ''slice bounds out of range'')
      else Err (Errorf ''unexpected GroupVersion string: %v'' [gv] []))"

definition WithKind :: "group_version \<Rightarrow> string \<Rightarrow> group_version_kind" where
  "WithKind gv kind =
     \<lparr>gvk_Group = gv_Group gv, gvk_Version = gv_Version gv, gvk_Kind = kind\<rparr>"

definition WithResource :: "group_version \<Rightarrow> string \<Rightarrow> group_version_resource" where
  "WithResource gv res =
     \<lparr>gvr_Group = gv_Group gv, gvr_Version = gv_Version gv, gvr_Resource = res\<rparr>"

lemma WithVersion_simps [simp]:
  "gvr_Group (WithVersion gr v) = gr_Group gr"
  "gvr_Version (WithVersion gr v) = v"
  "gvr_Resource (WithVersion gr v) = gr_Resource gr"
  by (simp_all add: WithVersion_def)

lemma WithKind_simps [simp]:
  "gvk_Group (WithKind gv k) = gv_Group gv"
  "gvk_Version (WithKind gv k) = gv_Version gv"
  "gvk_Kind (WithKind gv k) = k"
  by (simp_all add: WithKind_def)

lemma gvr_GroupResource_WithVersion [simp]: "gvr_GroupResource (WithVersion gr v) = gr"
  by (simp add: gvr_GroupResource_def)

lemma ParseGroupResource_simple [simp]:
  "CHR ''.'' \<notin> set r \<Longrightarrow> ParseGroupResource r = \<lparr>gr_Group = [], gr_Resource = r\<rparr>"
  by (simp add: ParseGroupResource_def)

lemma ParseGroupResource_dotted [simp]:
  "CHR ''.'' \<notin> set r \<Longrightarrow> ParseGroupResource (r @ CHR ''.'' # g) = \<lparr>gr_Group = g, gr_Resource = r\<rparr>"
  by (simp add: ParseGroupResource_def)

lemma gr_String_roundtrip:
  assumes "CHR ''.'' \<notin> set (gr_Resource gr)"
  shows "ParseGroupResource (gr_String gr) = gr"
  using assms by (simp add: gr_String_def)

lemma ParseGroupResource_no_dot: "CHR ''.'' \<notin> set (gr_Resource (ParseGroupResource s))"
  by (auto simp: ParseGroupResource_def dest: index_byte_SomeD split: option.splits)

lemma gr_String_Parse:
  assumes "gr_Group (ParseGroupResource s) \<noteq> [] \<or> CHR ''.'' \<notin> set s"
  shows "gr_String (ParseGroupResource s) = s"
proof (cases "CHR ''.'' \<in> set s")
  case True
  then obtain r g where s: "s = r @ CHR ''.'' # g" and "CHR ''.'' \<notin> set r"
    by (meson split_list_first)
  with assms show ?thesis by (simp add: gr_String_def)
next
  case False
  then show ?thesis by (simp add: gr_String_def)
qed

lemma ParseGroupVersion_no_slash:
  "CHR ''/'' \<notin> set v \<Longrightarrow> ParseGroupVersion v = Ok \<lparr>gv_Group = [], gv_Version = v\<rparr>"
  by (auto simp: ParseGroupVersion_def)

lemma ParseGroupVersion_slash:
  assumes "CHR ''/'' \<notin> set g" and "CHR ''/'' \<notin> set v"
  shows "ParseGroupVersion (g @ CHR ''/'' # v) = Ok \<lparr>gv_Group = g, gv_Version = v\<rparr>"
  using assms by (cases g) (auto simp: ParseGroupVersion_def)

text \<open>The index in \<open>ParseGroupVersion\<close> is found whenever it is looked for.\<close>

lemma ParseGroupVersion_no_abort: "\<not> aborts (ParseGroupVersion s)"
proof (cases "CHR ''/'' \<in> set s")
  case True
  then obtain g v where s: "s = g @ CHR ''/'' # v" and "CHR ''/'' \<notin> set g"
    by (meson split_list_first)
  then show ?thesis by (simp add: ParseGroupVersion_def)
next
  case False
  then show ?thesis by (simp add: ParseGroupVersion_no_slash)
qed

lemma gv_String_roundtrip:
  assumes "CHR ''/'' \<notin> set (gv_Group gv)" and "CHR ''/'' \<notin> set (gv_Version gv)"
  shows "ParseGroupVersion (gv_String gv) = Ok gv"
proof (cases "gv_Group gv = []")
  case True
  with assms show ?thesis
    by (cases gv) (simp add: gv_String_def gv_Empty_def ParseGroupVersion_no_slash)
next
  case False
  with assms show ?thesis
    by (cases gv) (simp add: gv_String_def gv_Empty_def ParseGroupVersion_slash)
qed

section \<open>Names and selectors\<close>

text \<open>\<open>types.NamespacedName\<close>.\<close>

record namespaced_name =
  nn_Namespace :: string
  nn_Name :: string

text \<open>
  \<open>labels.Selector\<close> and \<open>fields.Selector\<close> are interfaces; a value is what its methods answer. The
  adapter calls \<open>Matches\<close> and \<open>String\<close> of a label selector, and \<open>RequiresExactMatch\<close> of a field
  selector.
\<close>

type_synonym label_set = "string \<rightharpoonup> string"

record label_selector =
  sel_Matches :: "label_set \<Rightarrow> bool"
  sel_String :: string

text \<open>\<open>labels.Everything()\<close>: no requirement, so it matches all labels and prints as nothing.\<close>

definition labels_Everything :: label_selector where
  "labels_Everything = \<lparr>sel_Matches = (\<lambda>_. True), sel_String = []\<rparr>"

text \<open>
  A selector of one \<open>key=value\<close> requirement (\<open>internalSelector\<close> with one \<open>Equals\<close> requirement):
  what \<open>?labelSelector=foo%3Dbar\<close> is parsed to.
\<close>

definition labels_equals :: "string \<Rightarrow> string \<Rightarrow> label_selector" where
  "labels_equals k v = \<lparr>sel_Matches = (\<lambda>ls. ls k = Some v), sel_String = k @ ''='' @ v\<rparr>"

datatype field_selector =
    NothingFields
  | HasTerm string string
  | NotHasTerm string string
  | AndTerm "field_selector list"

fun RequiresExactMatch :: "field_selector \<Rightarrow> string \<Rightarrow> string option"
  and RequiresExactMatch_all :: "field_selector list \<Rightarrow> string \<Rightarrow> string option" where
  "RequiresExactMatch NothingFields f = None"
| "RequiresExactMatch (HasTerm field value) f = (if field = f then Some value else None)"
| "RequiresExactMatch (NotHasTerm field value) f = None"
| "RequiresExactMatch (AndTerm ts) f = RequiresExactMatch_all ts f"
| "RequiresExactMatch_all [] f = None"
| "RequiresExactMatch_all (t # ts) f =
     (case RequiresExactMatch t f of Some v \<Rightarrow> Some v | None \<Rightarrow> RequiresExactMatch_all ts f)"

fun fields_Empty :: "field_selector \<Rightarrow> bool"
  and fields_Empty_all :: "field_selector list \<Rightarrow> bool" where
  "fields_Empty NothingFields = False"
| "fields_Empty (HasTerm field value) = False"
| "fields_Empty (NotHasTerm field value) = False"
| "fields_Empty (AndTerm ts) = fields_Empty_all ts"
| "fields_Empty_all [] = True"
| "fields_Empty_all (t # ts) = (fields_Empty t \<and> fields_Empty_all ts)"

lemma fields_Empty_no_match:
  "fields_Empty s \<Longrightarrow> RequiresExactMatch s f = None"
  "fields_Empty_all ts \<Longrightarrow> RequiresExactMatch_all ts f = None"
  by (induction s and ts rule: fields_Empty_fields_Empty_all.induct) auto

section \<open>Not-found errors\<close>

definition NewMetricNotFoundError :: "group_resource \<Rightarrow> string \<Rightarrow> go_error" where
  "NewMetricNotFoundError res metricName =
     StatusError \<lparr>status_Status = ''Failure'', status_Code = 404, status_Reason = ''NotFound'',
       status_Message = ''the server could not find the metric '' @ metricName @ '' for ''
         @ gr_String res\<rparr>"

definition NewMetricNotFoundForError :: "group_resource \<Rightarrow> string \<Rightarrow> string \<Rightarrow> go_error" where
  "NewMetricNotFoundForError res metricName resourceName =
     StatusError \<lparr>status_Status = ''Failure'', status_Code = 404, status_Reason = ''NotFound'',
       status_Message = ''the server could not find the metric '' @ metricName @ '' for ''
         @ gr_String res @ '' '' @ resourceName\<rparr>"

text \<open>\<open>apierr.ReasonForError\<close> and \<open>apierr.IsNotFound\<close>: only a status error has a reason.\<close>

fun ReasonForError :: "go_error \<Rightarrow> string" where
  "ReasonForError (StatusError st) = status_Reason st"
| "ReasonForError (Aggregate es) = []"
| "ReasonForError (Errorf f ss es) = []"
| "ReasonForError (NoMatchError m) = []"
| "ReasonForError (OtherError m) = []"

definition IsNotFound :: "go_error \<Rightarrow> bool" where
  "IsNotFound e \<longleftrightarrow> ReasonForError e = ''NotFound''"

lemma IsNotFound_simps [simp]:
  "IsNotFound (NewMetricNotFoundError res m)"
  "IsNotFound (NewMetricNotFoundForError res m n)"
  "\<not> IsNotFound (Errorf f ss es)"
  "\<not> IsNotFound (Aggregate es')"
  "\<not> IsNotFound (NoMatchError msg)"
  "\<not> IsNotFound (OtherError msg)"
  by (simp_all add: IsNotFound_def NewMetricNotFoundError_def NewMetricNotFoundForError_def)

end
