(* ===== verification/Provider_Api.thy ===== *)
theory Provider_Api
  imports Schema
begin

text \<open>
  \<open>pkg/provider\<close>: what a metrics provider is (\<open>interfaces.go\<close>) and how its metrics are published
  in discovery (\<open>resource_lister.go\<close>), with the API objects the providers return
  (\<open>k8s.io/metrics/pkg/apis\<close>). An interface is a record of its methods, closed over the state of the
  object behind it; the \<open>TypeMeta\<close> and \<open>ListMeta\<close> of the objects, which this repository never
  sets, are left out.

  The locales \<open>custom_provider\<close> and \<open>external_provider\<close> state what the API server may rely on
  when it serves a provider's answer; \<open>Testing_Correct\<close> interprets both.
\<close>

section \<open>API objects\<close>

text \<open>A \<open>resource.Quantity\<close>: the amount, its power of ten, and the format; nothing here looks inside.\<close>

record quantity =
  q_Value :: int
  q_Scale :: int
  q_Format :: string

definition NewQuantity :: "int \<Rightarrow> string \<Rightarrow> quantity" where
  "NewQuantity v f = \<lparr>q_Value = v, q_Scale = 0, q_Format = f\<rparr>"

text \<open>A \<open>metav1.LabelSelector\<close>: match labels, and match expressions (key, operator, values).\<close>

record meta_label_selector =
  mls_MatchLabels :: "(string, string) go_map"
  mls_MatchExpressions :: "(string \<times> string \<times> string list) list"

record object_reference =
  or_Kind :: string
  or_Namespace :: string
  or_Name :: string
  or_UID :: string
  or_APIVersion :: string
  or_ResourceVersion :: string
  or_FieldPath :: string

definition zero_object_reference :: object_reference where
  "zero_object_reference =
     \<lparr>or_Kind = [], or_Namespace = [], or_Name = [], or_UID = [], or_APIVersion = [],
      or_ResourceVersion = [], or_FieldPath = []\<rparr>"

record metric_identifier =
  mi_Name :: string
  mi_Selector :: "meta_label_selector option"

record metric_value =
  mv_DescribedObject :: object_reference
  mv_Metric :: metric_identifier
  mv_Timestamp :: int
  mv_WindowSeconds :: "int option"
  mv_Value :: quantity

record metric_value_list =
  mvl_Items :: "metric_value list"

record external_metric_value =
  emv_MetricName :: string
  emv_MetricLabels :: "(string, string) go_map"
  emv_Timestamp :: int
  emv_WindowSeconds :: "int option"
  emv_Value :: quantity

record external_metric_value_list =
  emvl_Items :: "external_metric_value list"

section \<open>Metric identities\<close>

record custom_metric_info =
  cmi_GroupResource :: group_resource
  cmi_Namespaced :: bool
  cmi_Metric :: string

record external_metric_info =
  emi_Metric :: string

definition cmi_String :: "custom_metric_info \<Rightarrow> string" where
  "cmi_String i =
     (if cmi_Namespaced i
      then gr_String (cmi_GroupResource i) @ ''/'' @ cmi_Metric i @ ''(namespaced)''
      else gr_String (cmi_GroupResource i) @ ''/'' @ cmi_Metric i)"

section \<open>The REST mapper interface and normalisation\<close>

text \<open>
  \<open>meta.RESTMapper\<close>. Its callers look at the value only when the error is nil, so a method
  returns one or the other. A nil interface value is the mapper whose methods all panic.
\<close>

record rest_mapping =
  map_Resource :: group_version_resource
  map_GroupVersionKind :: group_version_kind
  map_ScopeName :: string

record rest_mapper =
  rm_KindFor :: "group_version_resource \<Rightarrow> group_version_kind result"
  rm_KindsFor :: "group_version_resource \<Rightarrow> group_version_kind list result"
  rm_ResourceFor :: "group_version_resource \<Rightarrow> group_version_resource result"
  rm_ResourcesFor :: "group_version_resource \<Rightarrow> group_version_resource list result"
  rm_RESTMapping :: "string \<times> string \<Rightarrow> string list \<Rightarrow> rest_mapping result"
  rm_RESTMappings :: "string \<times> string \<Rightarrow> string list \<Rightarrow> rest_mapping list result"
  rm_ResourceSingularizer :: "string \<Rightarrow> string result"

definition nil_rest_mapper :: rest_mapper where
  "nil_rest_mapper =
     \<lparr>rm_KindFor = (\<lambda>_. Abort ''nil pointer dereference''),
      rm_KindsFor = (\<lambda>_. Abort ''nil pointer dereference''),
      rm_ResourceFor = (\<lambda>_. Abort ''nil pointer dereference''),
      rm_ResourcesFor = (\<lambda>_. Abort ''nil pointer dereference''),
      rm_RESTMapping = (\<lambda>_ _. Abort ''nil pointer dereference''),
      rm_RESTMappings = (\<lambda>_ _. Abort ''nil pointer dereference''),
      rm_ResourceSingularizer = (\<lambda>_. Abort ''nil pointer dereference'')\<rparr>"

text \<open>
  \<open>Normalized\<close> returns the info beside the singular form and the error: on an error of the first
  lookup the info is unchanged, on an error of the second one its group-resource is already
  replaced.
\<close>

definition Normalized :: "custom_metric_info \<Rightarrow> rest_mapper \<Rightarrow> custom_metric_info \<times> string result" where
  "Normalized i mapper =
     (case rm_ResourceFor mapper (WithVersion (cmi_GroupResource i) []) of
        Err e \<Rightarrow> (i, Err e)
      | Abort p \<Rightarrow> (i, Abort p)
      | Ok normalizedGroupRes \<Rightarrow>
          let i' = i\<lparr>cmi_GroupResource := gvr_GroupResource normalizedGroupRes\<rparr>
          in (i', rm_ResourceSingularizer mapper (gr_Resource (cmi_GroupResource i'))))"

lemma Normalized_keeps [simp]:
  "cmi_Metric (fst (Normalized i m)) = cmi_Metric i"
  "cmi_Namespaced (fst (Normalized i m)) = cmi_Namespaced i"
  by (auto simp: Normalized_def Let_def split: result.splits)

lemma Normalized_ResourceFor_fails:
  "rm_ResourceFor m (WithVersion (cmi_GroupResource i) []) = Err e \<Longrightarrow> Normalized i m = (i, Err e)"
  by (simp add: Normalized_def)

lemma Normalized_Ok:
  "rm_ResourceFor m (WithVersion (cmi_GroupResource i) []) = Ok gvr \<Longrightarrow>
   rm_ResourceSingularizer m (gvr_Resource gvr) = r \<Longrightarrow>
   Normalized i m = (i\<lparr>cmi_GroupResource := gvr_GroupResource gvr\<rparr>, r)"
  by (simp add: Normalized_def gvr_GroupResource_def)

section \<open>The provider interfaces\<close>

text \<open>
  The results are pointers: a provider may return a nil one beside a nil error.
\<close>

record custom_metrics_provider =
  GetMetricByName :: "namespaced_name \<Rightarrow> custom_metric_info \<Rightarrow> metric_value option result"
  GetMetricBySelector ::
    "string \<Rightarrow> label_selector \<Rightarrow> custom_metric_info \<Rightarrow> metric_value_list option result"
  ListAllMetrics :: "custom_metric_info list"

record external_metrics_provider =
  GetExternalMetric ::
    "string \<Rightarrow> label_selector \<Rightarrow> external_metric_info \<Rightarrow> external_metric_value_list option result"
  ListAllExternalMetrics :: "external_metric_info list"

text \<open>
  What the custom metrics API relies on: a value fetched by name is not nil, is for the metric asked
  for and describes the object asked for; the values fetched by selector are for that metric and
  describe objects of that namespace.
\<close>

definition describes :: "metric_value \<Rightarrow> namespaced_name \<Rightarrow> string \<Rightarrow> bool" where
  "describes v nn metric \<longleftrightarrow>
     mi_Name (mv_Metric v) = metric \<and>
     or_Name (mv_DescribedObject v) = nn_Name nn \<and>
     or_Namespace (mv_DescribedObject v) = nn_Namespace nn"

locale custom_provider =
  fixes prov :: custom_metrics_provider
  assumes by_name:
    "GetMetricByName prov nn info = Ok p \<Longrightarrow> \<exists>v. p = Some v \<and> describes v nn (cmi_Metric info)"
  assumes by_selector:
    "GetMetricBySelector prov ns sel info = Ok q \<Longrightarrow>
     \<exists>l. q = Some l \<and>
       (\<forall>v \<in> set (mvl_Items l). \<exists>n. describes v \<lparr>nn_Namespace = ns, nn_Name = n\<rparr> (cmi_Metric info))"

locale external_provider =
  fixes prov :: external_metrics_provider
  assumes total: "\<exists>l. GetExternalMetric prov ns sel info = Ok (Some l)"
  assumes named:
    "GetExternalMetric prov ns sel info = Ok (Some l) \<Longrightarrow>
     v \<in> set (emvl_Items l) \<Longrightarrow> emv_MetricName v = emi_Metric info"
  assumes selected:
    "GetExternalMetric prov ns sel info = Ok (Some l) \<Longrightarrow>
     v \<in> set (emvl_Items l) \<Longrightarrow> sel_Matches sel (map_of (emv_MetricLabels v))"
  assumes listed:
    "GetExternalMetric prov ns sel info = Ok (Some l) \<Longrightarrow>
     emvl_Items l \<noteq> [] \<Longrightarrow> info \<in> set (ListAllExternalMetrics prov)"

section \<open>Discovery\<close>

record api_resource =
  res_Name :: string
  res_SingularName :: string
  res_Namespaced :: bool
  res_Kind :: string
  res_Verbs :: "string list"

text \<open>\<open>metav1.GroupVersionForDiscovery\<close> and \<open>metav1.APIGroup\<close>.\<close>

record group_version_for_discovery =
  gvd_GroupVersion :: string
  gvd_Version :: string

record api_group =
  ag_Name :: string
  ag_Versions :: "group_version_for_discovery list"
  ag_PreferredVersion :: group_version_for_discovery

definition customMetrics_ListAPIResources :: "custom_metrics_provider \<Rightarrow> api_resource list" where
  "customMetrics_ListAPIResources prov =
     map (\<lambda>metric. \<lparr>res_Name = gr_String (cmi_GroupResource metric) @ ''/'' @ cmi_Metric metric,
                    res_SingularName = [], res_Namespaced = cmi_Namespaced metric,
                    res_Kind = ''MetricValueList'',
                    res_Verbs = [''get'']\<rparr>)
         (ListAllMetrics prov)"

definition externalMetrics_ListAPIResources :: "external_metrics_provider \<Rightarrow> api_resource list" where
  "externalMetrics_ListAPIResources prov =
     map (\<lambda>metric. \<lparr>res_Name = emi_Metric metric,
                    res_SingularName = [], res_Namespaced = True,
                    res_Kind = ''ExternalMetricValueList'',
                    res_Verbs = [''get'']\<rparr>)
         (ListAllExternalMetrics prov)"

text \<open>
  Reading a published name back: the part before the first slash is a group-resource, the rest the
  metric. \<open>publishable\<close> says which identities survive: the resource has no dot, and neither it nor
  its group has a slash.
\<close>

definition publishable :: "custom_metric_info \<Rightarrow> bool" where
  "publishable i \<longleftrightarrow>
     CHR ''.'' \<notin> set (gr_Resource (cmi_GroupResource i)) \<and>
     CHR ''/'' \<notin> set (gr_Resource (cmi_GroupResource i)) \<and>
     CHR ''/'' \<notin> set (gr_Group (cmi_GroupResource i))"

definition info_of_api_resource :: "api_resource \<Rightarrow> custom_metric_info option" where
  "info_of_api_resource r =
     (case index_byte (CHR ''/'') (res_Name r) of
        None \<Rightarrow> None
      | Some i \<Rightarrow> Some \<lparr>cmi_GroupResource = ParseGroupResource (take i (res_Name r)),
                         cmi_Namespaced = res_Namespaced r,
                         cmi_Metric = drop (Suc i) (res_Name r)\<rparr>)"

lemma gr_String_no_slash:
  "CHR ''/'' \<notin> set (gr_Resource gr) \<Longrightarrow> CHR ''/'' \<notin> set (gr_Group gr) \<Longrightarrow>
   CHR ''/'' \<notin> set (gr_String gr)"
  by (simp add: gr_String_def)

lemma info_of_published:
  assumes "publishable i"
  shows "info_of_api_resource
      \<lparr>res_Name = gr_String (cmi_GroupResource i) @ CHR ''/'' # cmi_Metric i,
       res_SingularName = [], res_Namespaced = cmi_Namespaced i, res_Kind = k, res_Verbs = vs\<rparr> = Some i"
  using assms gr_String_no_slash [of "cmi_GroupResource i"]
    gr_String_roundtrip [of "cmi_GroupResource i"]
  by (simp add: info_of_api_resource_def publishable_def)

text \<open>
  Discovery loses nothing. For a provider whose metrics have resource names without dots and
  resource and group names without slashes, reading the published resource names back (group-resource
  before the first slash, metric after it, scope from the flag) gives exactly the provider's list, in
  its order.
\<close>

lemma custom_discovery_roundtrip:
  assumes "\<forall>i \<in> set (ListAllMetrics prov). publishable i"
  shows "map info_of_api_resource (customMetrics_ListAPIResources prov)
         = map Some (ListAllMetrics prov)"
  using assms by (simp add: customMetrics_ListAPIResources_def info_of_published)

definition example_info :: "string \<Rightarrow> bool \<Rightarrow> string \<Rightarrow> custom_metric_info" where
  "example_info r b m =
     \<lparr>cmi_GroupResource = ParseGroupResource r, cmi_Namespaced = b, cmi_Metric = m\<rparr>"

definition example_provider :: custom_metrics_provider where
  "example_provider =
     \<lparr>GetMetricByName = (\<lambda>nn info. Err (OtherError ''none'')),
      GetMetricBySelector = (\<lambda>ns sel info. Ok (Some \<lparr>mvl_Items = []\<rparr>)),
      ListAllMetrics = [example_info ''pods'' True ''packets/s'',
                        example_info ''deployments.apps'' True ''replicas'',
                        example_info ''namespaces'' False ''queue'']\<rparr>"

lemma custom_discovery_roundtrip_example:
  "map res_Name (customMetrics_ListAPIResources example_provider)
     = [''pods/packets/s'', ''deployments.apps/replicas'', ''namespaces/queue'']
   \<and> map info_of_api_resource (customMetrics_ListAPIResources example_provider)
     = map Some (ListAllMetrics example_provider)"
proof -
  have wf: "\<forall>i \<in> set (ListAllMetrics example_provider). publishable i"
    by (simp add: example_provider_def example_info_def publishable_def ParseGroupResource_def)
  have names: "map res_Name (customMetrics_ListAPIResources example_provider)
     = [''pods/packets/s'', ''deployments.apps/replicas'', ''namespaces/queue'']"
    by (simp add: example_provider_def example_info_def customMetrics_ListAPIResources_def
        ParseGroupResource_def gr_String_def)
  show ?thesis
    using names custom_discovery_roundtrip [OF wf] by simp
qed

end
