(* ===== verification/Helpers.thy ===== *)
theory Helpers
  imports Provider_Api
begin

text \<open>
  \<open>pkg/provider/helpers/helpers.go\<close>: resolving the resource and the kind a metric describes, and
  listing the names of the described objects. The dynamic client is the interface
  \<open>dynamic.Interface\<close>: it answers a resource, the namespace (\<open>None\<close> for the resource client itself,
  \<open>Some ns\<close> for its \<open>Namespace(ns)\<close>) and the text of a label selector with a pointer to an
  \<open>UnstructuredList\<close>. Of an item only the name is read; \<open>GetName\<close> of an item without one is empty.
\<close>

record unstructured =
  un_Name :: string

record unstructured_list =
  ul_Items :: "unstructured list"

type_synonym dynamic_client =
  "group_version_resource \<Rightarrow> string option \<Rightarrow> string \<Rightarrow> unstructured_list option result"

section \<open>Resources and references\<close>

text \<open>\<open>%v\<close> of a \<open>GroupResource\<close> value, whose \<open>String\<close> method needs a pointer.\<close>

definition group_resource_v :: "group_resource \<Rightarrow> string" where
  "group_resource_v gr = ''{'' @ gr_Group gr @ '' '' @ gr_Resource gr @ ''}''"

definition ResourceFor :: "rest_mapper \<Rightarrow> custom_metric_info \<Rightarrow> group_version_resource result" where
  "ResourceFor mapper info =
     (case rm_ResourcesFor mapper (WithVersion (cmi_GroupResource info) []) of
        Abort p \<Rightarrow> Abort p
      | Err err \<Rightarrow>
          Err (Errorf ''unable to find preferred version to list matching resource names: %v'' [] [err])
      | Ok fullResources \<Rightarrow>
          if length fullResources = 0
          then Err (Errorf ''unable to find preferred version to list matching resource names: %v'' []
                 [Errorf ''no fully versioned resources known for group-resource %v''
                    [group_resource_v (cmi_GroupResource info)] []])
          else index_slice fullResources 0)"

definition ReferenceFor ::
  "rest_mapper \<Rightarrow> namespaced_name \<Rightarrow> custom_metric_info \<Rightarrow> object_reference result" where
  "ReferenceFor mapper name info =
     (case rm_KindFor mapper (WithVersion (cmi_GroupResource info) []) of
        Abort p \<Rightarrow> Abort p
      | Err err \<Rightarrow> Err err
      | Ok kind \<Rightarrow>
          Ok (zero_object_reference
                \<lparr>or_APIVersion := gvk_Group kind @ ''/'' @ gvk_Version kind,
                 or_Kind := gvk_Kind kind,
                 or_Name := nn_Name name,
                 or_Namespace := nn_Namespace name\<rparr>))"

lemma ResourceFor_cases:
  assumes "ResourceFor mapper info = Ok res"
  obtains rs where "rm_ResourcesFor mapper (WithVersion (cmi_GroupResource info) []) = Ok (res # rs)"
proof -
  from assms obtain rs where
    rs: "rm_ResourcesFor mapper (WithVersion (cmi_GroupResource info) []) = Ok rs"
    "rs \<noteq> []" "index_slice rs 0 = Ok res"
    by (auto simp: ResourceFor_def split: result.splits if_splits)
  then have "rs = res # tl rs" by (cases rs) auto
  with rs(1) that show thesis by metis
qed

lemma ResourceFor_first [simp]:
  "rm_ResourcesFor mapper (WithVersion (cmi_GroupResource info) []) = Ok (res # rs) \<Longrightarrow>
   ResourceFor mapper info = Ok res"
  by (simp add: ResourceFor_def)

lemma ResourceFor_no_new_abort:
  "aborts (ResourceFor mapper info) \<Longrightarrow>
   aborts (rm_ResourcesFor mapper (WithVersion (cmi_GroupResource info) []))"
  by (auto simp: ResourceFor_def index_slice_def split: result.splits if_splits)

lemma ResourceFor_err_not_found: "ResourceFor mapper info = Err e \<Longrightarrow> \<not> IsNotFound e"
  by (auto simp: ResourceFor_def index_slice_def split: result.splits if_splits)

lemma ReferenceFor_fields:
  assumes "ReferenceFor mapper name info = Ok ref"
  shows "or_Name ref = nn_Name name" "or_Namespace ref = nn_Namespace name"
  using assms by (auto simp: ReferenceFor_def split: result.splits)

text \<open>
  C28: A reference names the kind it was made from. Parsing the \<open>APIVersion\<close> that \<open>ReferenceFor\<close>
  writes gives back the group and version of the kind the REST mapper answered, and kind, name and
  namespace are copied; this also holds for the core group, whose \<open>APIVersion\<close> is written with a
  leading slash.
\<close>

theorem ReferenceFor_roundtrip:
  assumes kind: "rm_KindFor mapper (WithVersion (cmi_GroupResource info) []) = Ok kind"
    and "CHR ''/'' \<notin> set (gvk_Group kind)" and "CHR ''/'' \<notin> set (gvk_Version kind)"
  shows "\<exists>ref. ReferenceFor mapper name info = Ok ref \<and>
           ParseGroupVersion (or_APIVersion ref)
             = Ok \<lparr>gv_Group = gvk_Group kind, gv_Version = gvk_Version kind\<rparr> \<and>
           or_Kind ref = gvk_Kind kind \<and>
           or_Name ref = nn_Name name \<and> or_Namespace ref = nn_Namespace name"
  using assms by (simp add: ReferenceFor_def ParseGroupVersion_slash)

text \<open>A mapper that knows pods (core group) and deployments (group apps), in both forms.\<close>

definition known_resources :: "(string \<times> string \<times> string \<times> string \<times> string) list" where
  "known_resources =
     [(''pods'', ''pod'', [], ''v1'', ''Pod''),
      (''services'', ''service'', [], ''v1'', ''Service''),
      (''namespaces'', ''namespace'', [], ''v1'', ''Namespace''),
      (''nodes'', ''node'', [], ''v1'', ''Node''),
      (''deployments'', ''deployment'', ''apps'', ''v1'', ''Deployment'')]"

definition find_known ::
  "group_version_resource \<Rightarrow> (string \<times> string \<times> string \<times> string \<times> string) result" where
  "find_known r =
     (case find (\<lambda>(pl, sg, g, v, k). (gvr_Resource r = pl \<or> gvr_Resource r = sg) \<and> gvr_Group r = g)
        known_resources of
        Some x \<Rightarrow> Ok x
      | None \<Rightarrow> Err (OtherError ''no matches for resource''))"

definition example_mapper :: rest_mapper where
  "example_mapper = nil_rest_mapper
     \<lparr>rm_KindFor := (\<lambda>r. bind_result (find_known r)
        (\<lambda>(pl, sg, g, v, k). Ok \<lparr>gvk_Group = g, gvk_Version = v, gvk_Kind = k\<rparr>)),
      rm_ResourceFor := (\<lambda>r. bind_result (find_known r)
        (\<lambda>(pl, sg, g, v, k). Ok \<lparr>gvr_Group = g, gvr_Version = v, gvr_Resource = pl\<rparr>)),
      rm_ResourcesFor := (\<lambda>r. bind_result (find_known r)
        (\<lambda>(pl, sg, g, v, k). Ok [\<lparr>gvr_Group = g, gvr_Version = v, gvr_Resource = pl\<rparr>])),
      rm_ResourceSingularizer := (\<lambda>s. bind_result
          (case find (\<lambda>(pl, sg, g, v, k). s = pl \<or> s = sg) known_resources of
             Some x \<Rightarrow> Ok x | None \<Rightarrow> Err (OtherError ''no matches for resource''))
        (\<lambda>(pl, sg, g, v, k). Ok sg))\<rparr>"

lemmas example_mapper_simps =
  example_mapper_def nil_rest_mapper_def find_known_def known_resources_def example_info_def
  WithVersion_def

theorem ReferenceFor_roundtrip_witness:
  "\<exists>ref. ReferenceFor example_mapper \<lparr>nn_Namespace = ''ns'', nn_Name = ''web''\<rparr>
           (example_info ''pods'' True ''m'') = Ok ref \<and>
         ParseGroupVersion (or_APIVersion ref) = Ok \<lparr>gv_Group = [], gv_Version = ''v1''\<rparr> \<and>
         or_Kind ref = ''Pod'' \<and> or_Name ref = ''web'' \<and> or_Namespace ref = ''ns''"
proof -
  have k: "rm_KindFor example_mapper (WithVersion (cmi_GroupResource (example_info ''pods'' True ''m'')) [])
      = Ok \<lparr>gvk_Group = [], gvk_Version = ''v1'', gvk_Kind = ''Pod''\<rparr>"
    by (simp add: example_mapper_simps)
  show ?thesis
    using ReferenceFor_roundtrip [OF k, of "\<lparr>nn_Namespace = ''ns'', nn_Name = ''web''\<rparr>"] by simp
qed

text \<open>
  For a kind of the core group the \<open>APIVersion\<close> written is not the canonical text of its
  group-version: it has a leading slash (for example \<open>/v1\<close> where the API convention is \<open>v1\<close>). For a
  kind of a named group it is the canonical text.
\<close>

lemma ReferenceFor_api_version_canonical:
  assumes "ReferenceFor mapper name info = Ok ref"
    and "rm_KindFor mapper (WithVersion (cmi_GroupResource info) []) = Ok kind"
  shows "(or_APIVersion ref
            = gv_String \<lparr>gv_Group = gvk_Group kind, gv_Version = gvk_Version kind\<rparr>)
         \<longleftrightarrow> gvk_Group kind \<noteq> []"
  using assms by (auto simp: ReferenceFor_def gv_String_def gv_Empty_def)

section \<open>Listing the described objects\<close>

text \<open>\<open>meta.IsListType\<close> and \<open>meta.EachListItem\<close> of an \<open>UnstructuredList\<close>.\<close>

definition IsListType :: "unstructured_list option \<Rightarrow> bool" where
  "IsListType raw = True"

fun each_item ::
  "('i \<Rightarrow> 's \<Rightarrow> 's \<times> go_error option) \<Rightarrow> 'i list \<Rightarrow> 's \<Rightarrow> 's \<times> go_error option" where
  "each_item fn [] s = (s, None)"
| "each_item fn (x # xs) s =
     (case fn x s of
        (s', Some err) \<Rightarrow> (s', Some err)
      | (s', None) \<Rightarrow> each_item fn xs s')"

definition ListObjectNames ::
  "rest_mapper \<Rightarrow> dynamic_client \<Rightarrow> string \<Rightarrow> label_selector \<Rightarrow> custom_metric_info \<Rightarrow>
   string list result" where
  "ListObjectNames mapper client namespace selector info =
     (case ResourceFor mapper info of
        Abort p \<Rightarrow> Abort p
      | Err err \<Rightarrow> Err err
      | Ok res \<Rightarrow>
          let resClient = (if cmi_Namespaced info then client res (Some namespace)
                           else client res None)
          in (case resClient (sel_String selector) of
                Abort p \<Rightarrow> Abort p
              | Err err \<Rightarrow> Err err
              | Ok matchingObjectsRaw \<Rightarrow>
                  if \<not> IsListType matchingObjectsRaw
                  then Err (Errorf ''result of label selector list operation was not a list'' [] [])
                  else
                    (case deref matchingObjectsRaw of
                       Abort p \<Rightarrow> Abort p
                     | Err err \<Rightarrow> Err err
                     | Ok l \<Rightarrow>
                         (case each_item (\<lambda>item names. (names @ [un_Name item], None)) (ul_Items l) [] of
                            (names, Some err) \<Rightarrow> Err err
                          | (names, None) \<Rightarrow> Ok names))))"

lemma each_item_append:
  "each_item (\<lambda>x acc. (acc @ [f x], None)) xs acc = (acc @ map f xs, None)"
  by (induction xs arbitrary: acc) auto

lemma ListObjectNames_Ok:
  assumes "rm_ResourcesFor mapper (WithVersion (cmi_GroupResource info) []) = Ok (res # rs)"
    and "client res (if cmi_Namespaced info then Some ns else None) (sel_String sel) = Ok (Some l)"
  shows "ListObjectNames mapper client ns sel info = Ok (map un_Name (ul_Items l))"
  using assms by (cases "cmi_Namespaced info")
    (simp_all add: ListObjectNames_def Let_def each_item_append IsListType_def)

lemma ListObjectNames_err_not_found:
  assumes "ListObjectNames mapper client ns sel info = Err e"
  shows "\<not> IsNotFound e \<or>
    (\<exists>res. ResourceFor mapper info = Ok res \<and>
       client res (if cmi_Namespaced info then Some ns else None) (sel_String sel) = Err e)"
  using assms
  by (auto simp: ListObjectNames_def Let_def IsListType_def each_item_append deref_def
      dest: ResourceFor_err_not_found split: result.splits if_splits option.splits)

text \<open>
  C29: \<open>ListObjectNames\<close> asks the client for the first (preferred) versioned resource, in the namespace
  given exactly when the metric is namespaced, passes the selector's text on, and on success returns
  the names of the answered objects in their order. It panics only if the mapper or the client
  panics, or the client answers a nil list.
\<close>

theorem ListObjectNames_spec:
  "(case rm_ResourcesFor mapper (WithVersion (cmi_GroupResource info) []) of
      Ok (res # _) \<Rightarrow>
        (case client res (if cmi_Namespaced info then Some ns else None) (sel_String sel) of
           Ok (Some l) \<Rightarrow> ListObjectNames mapper client ns sel info = Ok (map un_Name (ul_Items l))
         | Ok None \<Rightarrow> aborts (ListObjectNames mapper client ns sel info)
         | Err e \<Rightarrow> ListObjectNames mapper client ns sel info = Err e
         | Abort p \<Rightarrow> ListObjectNames mapper client ns sel info = Abort p)
    | Abort p \<Rightarrow> ListObjectNames mapper client ns sel info = Abort p
    | _ \<Rightarrow> \<exists>e. ListObjectNames mapper client ns sel info = Err e \<and> \<not> IsNotFound e)"
proof (cases "rm_ResourcesFor mapper (WithVersion (cmi_GroupResource info) [])")
  case (Ok rs)
  then show ?thesis
    by (cases rs) (auto simp: ListObjectNames_def ResourceFor_def Let_def each_item_append
        IsListType_def deref_def split: result.splits option.splits)
qed (simp_all add: ListObjectNames_def ResourceFor_def)

end
