(* ===== verification/Restful.thy ===== *)
theory Restful
  imports Go_Prelude "HOL-Library.Char_ord" "HOL-Library.List_Lexorder" "HOL-Library.Product_Lexorder"
begin

text \<open>
  The part of \<open>github.com/emicklei/go-restful\<close> (vendored) the adapter builds its HTTP services with:
  parameters, route builders, web services, containers, and the curly router that picks the route
  of a request. A handler has type \<open>'h\<close>, a sample object of the API documentation type \<open>'s\<close>. Of the
  builder's fields those the adapter sets are kept.
\<close>

section \<open>Parameters\<close>

datatype param_kind = PathKind | QueryKind | BodyKind

record parameter =
  param_Name :: string
  param_Description :: string
  param_Required :: bool
  param_DataType :: string
  param_DefaultValue :: string
  param_Kind :: param_kind

definition PathParameter :: "string \<Rightarrow> string \<Rightarrow> parameter" where
  "PathParameter name description =
     \<lparr>param_Name = name, param_Description = description, param_Required = True,
      param_DataType = ''string'', param_DefaultValue = [], param_Kind = PathKind\<rparr>"

definition QueryParameter :: "string \<Rightarrow> string \<Rightarrow> parameter" where
  "QueryParameter name description =
     \<lparr>param_Name = name, param_Description = description, param_Required = False,
      param_DataType = ''string'', param_DefaultValue = [], param_Kind = QueryKind\<rparr>"

definition BodyParameter :: "string \<Rightarrow> string \<Rightarrow> parameter" where
  "BodyParameter name description =
     \<lparr>param_Name = name, param_Description = description, param_Required = True,
      param_DataType = [], param_DefaultValue = [], param_Kind = BodyKind\<rparr>"

definition DataType :: "string \<Rightarrow> parameter \<Rightarrow> parameter" where
  "DataType typeName p = p\<lparr>param_DataType := typeName\<rparr>"

definition DefaultValue :: "string \<Rightarrow> parameter \<Rightarrow> parameter" where
  "DefaultValue v p = p\<lparr>param_DefaultValue := v\<rparr>"

section \<open>Routes and web services\<close>

record ('h, 's) route_builder =
  b_rootPath :: string
  b_currentPath :: string
  b_produces :: "string list"
  b_consumes :: "string list"
  b_httpMethod :: string
  b_function :: "'h option"
  b_doc :: string
  b_operation :: string
  b_writeSample :: "'s option"
  b_parameters :: "parameter list"
  b_errorMap :: "(int, string \<times> 's) go_map"

record ('h, 's) route =
  r_Method :: string
  r_Path :: string
  r_Produces :: "string list"
  r_Consumes :: "string list"
  r_Function :: 'h
  r_Doc :: string
  r_Operation :: string
  r_WriteSample :: "'s option"
  r_ParameterDocs :: "parameter list"
  r_ResponseErrors :: "(int, string \<times> 's) go_map"
  r_pathParts :: "string list"

record ('h, 's) web_service =
  ws_rootPath :: string
  ws_routes :: "('h, 's) route list"
  ws_produces :: "string list"
  ws_consumes :: "string list"
  ws_documentation :: string
  ws_apiVersion :: string

definition new_web_service :: "('h, 's) web_service" where
  "new_web_service =
     \<lparr>ws_rootPath = [], ws_routes = [], ws_produces = [], ws_consumes = [],
      ws_documentation = [], ws_apiVersion = []\<rparr>"

definition ws_Path :: "string \<Rightarrow> ('h, 's) web_service \<Rightarrow> ('h, 's) web_service" where
  "ws_Path root w = w\<lparr>ws_rootPath := (if length root = 0 then ''/'' else root)\<rparr>"

text \<open>\<open>ws.GET(path)\<close> and \<open>ws.POST(path)\<close>: a new builder under the root path of the service.\<close>

definition ws_method ::
  "string \<Rightarrow> ('h, 's) web_service \<Rightarrow> string \<Rightarrow> ('h, 's) route_builder" where
  "ws_method httpMethod w subPath =
     \<lparr>b_rootPath = ws_rootPath w, b_currentPath = subPath, b_produces = [], b_consumes = [],
      b_httpMethod = httpMethod, b_function = None, b_doc = [], b_operation = [],
      b_writeSample = None, b_parameters = [], b_errorMap = []\<rparr>"

definition To :: "'h \<Rightarrow> ('h, 's) route_builder \<Rightarrow> ('h, 's) route_builder" where
  "To f b = b\<lparr>b_function := Some f\<rparr>"

definition Doc :: "string \<Rightarrow> ('h, 's) route_builder \<Rightarrow> ('h, 's) route_builder" where
  "Doc d b = b\<lparr>b_doc := d\<rparr>"

definition Param :: "parameter \<Rightarrow> ('h, 's) route_builder \<Rightarrow> ('h, 's) route_builder" where
  "Param p b = b\<lparr>b_parameters := b_parameters b @ [p]\<rparr>"

definition Operation :: "string \<Rightarrow> ('h, 's) route_builder \<Rightarrow> ('h, 's) route_builder" where
  "Operation n b = b\<lparr>b_operation := n\<rparr>"

definition Produces :: "string list \<Rightarrow> ('h, 's) route_builder \<Rightarrow> ('h, 's) route_builder" where
  "Produces ms b = b\<lparr>b_produces := ms\<rparr>"

definition Consumes :: "string list \<Rightarrow> ('h, 's) route_builder \<Rightarrow> ('h, 's) route_builder" where
  "Consumes ms b = b\<lparr>b_consumes := ms\<rparr>"

definition Returns ::
  "int \<Rightarrow> string \<Rightarrow> 's \<Rightarrow> ('h, 's) route_builder \<Rightarrow> ('h, 's) route_builder" where
  "Returns code message model b =
     b\<lparr>b_errorMap := go_put code (message, model) (b_errorMap b)\<rparr>"

definition Writes :: "'s \<Rightarrow> ('h, 's) route_builder \<Rightarrow> ('h, 's) route_builder" where
  "Writes sample b = b\<lparr>b_writeSample := Some sample\<rparr>"

definition concatPath :: "string \<Rightarrow> string \<Rightarrow> string" where
  "concatPath path1 path2 =
     trim_right_byte (CHR ''/'') path1 @ ''/'' @ trim_left_byte (CHR ''/'') path2"

definition tokenizePath :: "string \<Rightarrow> string list" where
  "tokenizePath path =
     (if path = ''/'' then [] else split_byte (CHR ''/'') (trim_byte (CHR ''/'') path))"

text \<open>
  \<open>ws.Route(builder)\<close>: the service's media types are the builder's defaults; a builder without a
  function ends the process. An unset operation, which \<open>Build\<close> takes from the symbol name of the
  handler, stays empty here; the path expression compiles, since no route of the adapter holds a
  regular expression.
\<close>

definition Build :: "('h, 's) route_builder \<Rightarrow> ('h, 's) route result" where
  "Build b =
     (case b_function b of
        None \<Rightarrow> Abort ''no function specified for route''
      | Some f \<Rightarrow>
          let path = concatPath (b_rootPath b) (b_currentPath b)
          in Ok \<lparr>r_Method = b_httpMethod b, r_Path = path, r_Produces = b_produces b,
                 r_Consumes = b_consumes b, r_Function = f, r_Doc = b_doc b,
                 r_Operation = b_operation b, r_WriteSample = b_writeSample b,
                 r_ParameterDocs = b_parameters b, r_ResponseErrors = b_errorMap b,
                 r_pathParts = tokenizePath path\<rparr>)"

definition copyDefaults ::
  "string list \<Rightarrow> string list \<Rightarrow> ('h, 's) route_builder \<Rightarrow> ('h, 's) route_builder" where
  "copyDefaults rootProduces rootConsumes b =
     (let b1 = (if length (b_produces b) = 0 then b\<lparr>b_produces := rootProduces\<rparr> else b)
      in if length (b_consumes b1) = 0 then b1\<lparr>b_consumes := rootConsumes\<rparr> else b1)"

definition ws_Route ::
  "('h, 's) web_service \<Rightarrow> ('h, 's) route_builder \<Rightarrow> ('h, 's) web_service result" where
  "ws_Route w b =
     bind_result (Build (copyDefaults (ws_produces w) (ws_consumes w) b))
       (\<lambda>r. Ok (w\<lparr>ws_routes := ws_routes w @ [r]\<rparr>))"

text \<open>\<open>container.Add\<close>: a second service with the same root path ends the process.\<close>

definition container_Add ::
  "('h, 's) web_service list \<Rightarrow> ('h, 's) web_service \<Rightarrow> ('h, 's) web_service list result" where
  "container_Add services service =
     (let service' = (if length (ws_rootPath service) = 0 then ws_Path ''/'' service else service)
      in if \<exists>each \<in> set services. ws_rootPath each = ws_rootPath service'
         then Abort ''duplicate root path'' else Ok (services @ [service']))"

lemmas builder_defs =
  ws_method_def To_def Doc_def Param_def Operation_def Produces_def Consumes_def Returns_def
  Writes_def

lemma copyDefaults_simps [simp]:
  "b_rootPath (copyDefaults ps cs b) = b_rootPath b"
  "b_currentPath (copyDefaults ps cs b) = b_currentPath b"
  "b_httpMethod (copyDefaults ps cs b) = b_httpMethod b"
  "b_function (copyDefaults ps cs b) = b_function b"
  "b_doc (copyDefaults ps cs b) = b_doc b"
  "b_operation (copyDefaults ps cs b) = b_operation b"
  "b_writeSample (copyDefaults ps cs b) = b_writeSample b"
  "b_parameters (copyDefaults ps cs b) = b_parameters b"
  "b_errorMap (copyDefaults ps cs b) = b_errorMap b"
  by (auto simp: copyDefaults_def Let_def)

lemma container_Add_Ok:
  "ws_rootPath s \<noteq> [] \<Longrightarrow> \<forall>e \<in> set ss. ws_rootPath e \<noteq> ws_rootPath s \<Longrightarrow>
   container_Add ss s = Ok (ss @ [s])"
  by (auto simp: container_Add_def Let_def)

section \<open>The curly router\<close>

text \<open>
  \<open>matchesRouteByPathTokens\<close>; \<open>rx\<close> is \<open>regexp.MatchString\<close>, asked only by a token with a colon.
  The result is the pair of parameter and static counts, \<open>None\<close> when the route does not match.
\<close>

definition regularMatchesPathToken ::
  "(string \<Rightarrow> string \<Rightarrow> bool) \<Rightarrow> string \<Rightarrow> nat \<Rightarrow> string \<Rightarrow> bool \<times> bool" where
  "regularMatchesPathToken rx routeToken colon requestToken =
     (let regPart = butlast (drop (Suc colon) routeToken)
      in if regPart = ''*'' then (True, True) else (rx regPart requestToken, False))"

fun match_tokens ::
  "(string \<Rightarrow> string \<Rightarrow> bool) \<Rightarrow> string list \<Rightarrow> string list \<Rightarrow> nat \<Rightarrow> nat \<Rightarrow> (nat \<times> nat) option" where
  "match_tokens rx [] reqs paramCount staticCount = Some (paramCount, staticCount)"
| "match_tokens rx (t # ts) [] paramCount staticCount = None"
| "match_tokens rx (t # ts) (q # qs) paramCount staticCount =
     (if has_prefix t ''{'' then
        (case index_byte (CHR '':'') t of
           None \<Rightarrow> match_tokens rx ts qs (Suc paramCount) staticCount
         | Some colon \<Rightarrow>
             (let (matchesToken, matchesRemainder) = regularMatchesPathToken rx t colon q
              in if \<not> matchesToken then None
                 else if matchesRemainder then Some (Suc paramCount, staticCount)
                 else match_tokens rx ts qs (Suc paramCount) staticCount))
      else if q \<noteq> t then None
      else match_tokens rx ts qs paramCount (Suc staticCount))"

definition has_suffix :: "string \<Rightarrow> string \<Rightarrow> bool" where
  "has_suffix s p \<longleftrightarrow> has_prefix (rev s) (rev p)"

definition matchesRouteByPathTokens ::
  "(string \<Rightarrow> string \<Rightarrow> bool) \<Rightarrow> string list \<Rightarrow> string list \<Rightarrow> (nat \<times> nat) option" where
  "matchesRouteByPathTokens rx routeTokens requestTokens =
     (if length routeTokens < length requestTokens \<and>
         (routeTokens = [] \<or> \<not> has_suffix (last routeTokens) ''*}'')
      then None
      else match_tokens rx routeTokens requestTokens 0 0)"

text \<open>
  The candidate routes, best first: more static tokens, then more parameters, then the greater path.
  (\<open>sort.Sort\<close> is not stable, so the order of two routes with one path is not determined; no service
  of the adapter has two.)
\<close>

definition selectRoutes ::
  "(string \<Rightarrow> string \<Rightarrow> bool) \<Rightarrow> ('h, 's) web_service \<Rightarrow> string list \<Rightarrow> ('h, 's) route list" where
  "selectRoutes rx w requestTokens =
     map snd (rev (sort_key (\<lambda>((pc, sc), r). (sc, pc, r_Path r))
       (List.map_filter
          (\<lambda>r. map_option (\<lambda>c. (c, r)) (matchesRouteByPathTokens rx (r_pathParts r) requestTokens))
          (ws_routes w))))"

text \<open>
  What the router answers: a route, or a status. Its whole choice, by method, content type and accepted types, is
  \<open>SelectRoute\<close> in \<open>Container_Dispatch\<close>. Here is what the lemmas compare it with, the choice for a request whose headers play no
  part: the first candidate with the request's method; \<open>404\<close> when no path matches, \<open>405\<close> when no method does.
\<close>

datatype ('h, 's) selected = NoRoute int | Selected "('h, 's) route"

definition route_by_method ::
  "(string \<Rightarrow> string \<Rightarrow> bool) \<Rightarrow> ('h, 's) web_service \<Rightarrow> string \<Rightarrow> string \<Rightarrow> ('h, 's) selected" where
  "route_by_method rx w httpMethod path =
     (case selectRoutes rx w (tokenizePath path) of
        [] \<Rightarrow> NoRoute 404
      | rs \<Rightarrow> (case filter (\<lambda>r. r_Method r = httpMethod) rs of
                  [] \<Rightarrow> NoRoute 405
                | r # _ \<Rightarrow> Selected r))"

text \<open>\<open>extractParameters\<close>: the path parameters of the selected route.\<close>

fun extract_params :: "string list \<Rightarrow> string list \<Rightarrow> (string, string) go_map \<Rightarrow> (string, string) go_map" where
  "extract_params [] urlParts m = m"
| "extract_params (key # keys) urlParts m =
     (let value = (case urlParts of [] \<Rightarrow> [] | v # vs \<Rightarrow> v)
      in if has_prefix key ''{'' then
           (case index_byte (CHR '':'') key of
              None \<Rightarrow> extract_params keys (tl urlParts)
                        (go_put (butlast (tl key)) value m)
            | Some colon \<Rightarrow>
                (let regPart = butlast (drop (Suc colon) key);
                     keyPart = drop 1 (take colon key)
                 in if regPart = ''*'' then go_put keyPart (join_byte (CHR ''/'') urlParts) m
                    else extract_params keys (tl urlParts) (go_put keyPart value m)))
         else extract_params keys (tl urlParts) m)"

definition extractParameters :: "('h, 's) route \<Rightarrow> string \<Rightarrow> (string, string) go_map" where
  "extractParameters r urlPath = extract_params (r_pathParts r) (tokenizePath urlPath) []"

definition path_parameter :: "(string, string) go_map \<Rightarrow> string \<Rightarrow> string" where
  "path_parameter m k = (case go_get m k of None \<Rightarrow> [] | Some v \<Rightarrow> v)"

lemma match_tokens_length:
  "match_tokens rx ts qs pc sc = Some r \<Longrightarrow> \<forall>t \<in> set ts. CHR '':'' \<notin> set t \<Longrightarrow> length ts \<le> length qs"
  by (induction rx ts qs pc sc rule: match_tokens.induct) (auto split: if_splits)

text \<open>A request path made of non-empty segments without slashes is tokenised into them.\<close>

definition segment :: "string \<Rightarrow> bool" where
  "segment s \<longleftrightarrow> s \<noteq> [] \<and> CHR ''/'' \<notin> set s"

lemma segmentE: "segment s \<Longrightarrow> (\<And>x xs. s = x # xs \<Longrightarrow> x \<noteq> CHR ''/'' \<Longrightarrow> thesis) \<Longrightarrow> thesis"
  by (cases s) (auto simp: segment_def)

lemma segment_rev_head: "segment s \<Longrightarrow> \<exists>x xs. rev s = x # xs \<and> x \<noteq> CHR ''/''"
  by (cases s rule: rev_cases) (auto simp: segment_def)

lemma dropWhile_join:
  assumes "ws \<noteq> []" and "\<forall>w \<in> set ws. segment w"
  shows "dropWhile (\<lambda>x. x = CHR ''/'') (join_byte (CHR ''/'') ws) = join_byte (CHR ''/'') ws"
  using assms by (induction "CHR ''/''" ws rule: join_byte.induct) (auto elim!: segmentE)

lemma rev_join_head:
  assumes "ws \<noteq> []" and "\<forall>w \<in> set ws. segment w"
  shows "\<exists>x xs. rev (join_byte (CHR ''/'') ws) = x # xs \<and> x \<noteq> CHR ''/''"
  using assms
proof (induction ws)
  case Nil
  then show ?case by simp
next
  case (Cons w ws)
  show ?case
  proof (cases ws)
    case Nil
    with Cons.prems show ?thesis using segment_rev_head by simp
  next
    case (Cons v vs)
    with Cons.IH Cons.prems obtain x xs where
      "rev (join_byte (CHR ''/'') ws) = x # xs" "x \<noteq> CHR ''/''" by auto
    with Cons show ?thesis by simp
  qed
qed

lemma trim_path:
  assumes "ws \<noteq> []" and "\<forall>w \<in> set ws. segment w"
  shows "trim_byte (CHR ''/'') (CHR ''/'' # join_byte (CHR ''/'') ws) = join_byte (CHR ''/'') ws"
proof -
  obtain x xs where "rev (join_byte (CHR ''/'') ws) = x # xs" "x \<noteq> CHR ''/''"
    using rev_join_head [OF assms] by blast
  then have "dropWhile (\<lambda>x. x = CHR ''/'') (rev (join_byte (CHR ''/'') ws))
      = rev (join_byte (CHR ''/'') ws)" by simp
  then show ?thesis
    using dropWhile_join [OF assms] by (simp add: trim_byte_def trim_left_byte_def trim_right_byte_def)
qed

lemma join_byte_nonempty: "ws \<noteq> [] \<Longrightarrow> \<forall>w \<in> set ws. segment w \<Longrightarrow> join_byte c ws \<noteq> []"
  by (induction c ws rule: join_byte.induct) (auto simp: segment_def)

lemma tokenizePath_segments:
  assumes "ws \<noteq> []" and "\<forall>w \<in> set ws. segment w"
  shows "tokenizePath (CHR ''/'' # join_byte (CHR ''/'') ws) = ws"
  using trim_path [OF assms] join_byte_nonempty [OF assms] assms
  by (simp add: tokenizePath_def split_join segment_def)

section \<open>Routing by templates\<close>

text \<open>
  For a template without regular expressions a request matches exactly when it has as many tokens and
  agrees with every token that is not a parameter.
\<close>

definition token_matches :: "string \<Rightarrow> string \<Rightarrow> bool" where
  "token_matches t q \<longleftrightarrow> has_prefix t ''{'' \<or> q = t"

definition template :: "string list \<Rightarrow> bool" where
  "template ts \<longleftrightarrow> (\<forall>t \<in> set ts. CHR '':'' \<notin> set t \<and> \<not> has_suffix t ''*}'')"

lemma match_tokens_template:
  "template ts \<Longrightarrow> length qs \<le> length ts \<Longrightarrow>
   (match_tokens rx ts qs pc sc \<noteq> None \<longleftrightarrow> list_all2 token_matches ts qs)"
proof (induction rx ts qs pc sc rule: match_tokens.induct)
  case (3 rx t ts q qs pc sc)
  then have "CHR '':'' \<notin> set t" and "template ts" by (simp_all add: template_def)
  with 3 show ?case by (simp add: token_matches_def)
qed simp_all

lemma matches_template:
  assumes "template ts"
  shows "matchesRouteByPathTokens rx ts qs \<noteq> None \<longleftrightarrow> list_all2 token_matches ts qs"
proof (cases "length ts < length qs")
  case True
  have "ts = [] \<or> \<not> has_suffix (last ts) ''*}''"
    using assms by (cases ts rule: rev_cases) (auto simp: template_def)
  with True show ?thesis
    by (auto simp: matchesRouteByPathTokens_def dest: list_all2_lengthD)
next
  case False
  then show ?thesis
    using match_tokens_template [OF assms] by (simp add: matchesRouteByPathTokens_def)
qed

text \<open>When at most one route of a service matches, the router takes it.\<close>

lemma map_filter_filter:
  "map snd (List.map_filter (\<lambda>r. map_option (\<lambda>c. (c, r)) (f r)) rs) = filter (\<lambda>r. f r \<noteq> None) rs"
  by (induction rs) (auto simp: List.map_filter_def)

lemma selectRoutes_unique:
  assumes "\<forall>r \<in> set (ws_routes w). template (r_pathParts r)"
    and "filter (\<lambda>r. list_all2 token_matches (r_pathParts r) qs) (ws_routes w) = rs"
    and "length rs \<le> 1"
  shows "selectRoutes rx w qs = rs"
proof -
  let ?f = "\<lambda>r. matchesRouteByPathTokens rx (r_pathParts r) qs"
  define cs where "cs = List.map_filter (\<lambda>r. map_option (\<lambda>c. (c, r)) (?f r)) (ws_routes w)"
  have "map snd cs = filter (\<lambda>r. ?f r \<noteq> None) (ws_routes w)"
    unfolding cs_def by (rule map_filter_filter)
  also have "\<dots> = rs"
    using assms(1) unfolding assms(2) [symmetric] by (intro filter_cong refl matches_template) simp
  finally have c: "map snd cs = rs" .
  then have "length cs \<le> 1" using assms(3) by auto
  then have "cs = [] \<or> (\<exists>x. cs = [x])"
    by (cases cs) auto
  moreover have "selectRoutes rx w qs = map snd (rev (sort_key (\<lambda>((pc, sc), r). (sc, pc, r_Path r)) cs))"
    unfolding selectRoutes_def cs_def ..
  ultimately show ?thesis using c by auto
qed

lemma route_by_method_cases:
  assumes "\<forall>r \<in> set (ws_routes w). template (r_pathParts r)"
    and "filter (\<lambda>r. list_all2 token_matches (r_pathParts r) (tokenizePath path)) (ws_routes w) = rs"
    and "length rs \<le> 1"
  shows "route_by_method rx w m path =
    (case rs of [] \<Rightarrow> NoRoute 404 | r # _ \<Rightarrow> if r_Method r = m then Selected r else NoRoute 405)"
  using selectRoutes_unique [OF assms] assms(3)
  by (cases rs) (simp_all add: route_by_method_def)

section \<open>Paths under a root\<close>

lemma join_byte_append:
  "ws \<noteq> [] \<Longrightarrow> ts \<noteq> [] \<Longrightarrow> join_byte c (ws @ ts) = join_byte c ws @ c # join_byte c ts"
proof (induction c ws rule: join_byte.induct)
  case (2 c w)
  then show ?case by (cases ts) auto
qed auto

lemma trim_right_path:
  assumes "ws \<noteq> []" and "\<forall>w \<in> set ws. segment w"
  shows "trim_right_byte (CHR ''/'') (CHR ''/'' # join_byte (CHR ''/'') ws) = CHR ''/'' # join_byte (CHR ''/'') ws"
    and "trim_right_byte (CHR ''/'') (CHR ''/'' # join_byte (CHR ''/'') ws @ ''/'') = CHR ''/'' # join_byte (CHR ''/'') ws"
proof -
  obtain x xs where rev: "rev (join_byte (CHR ''/'') ws) = x # xs" and x: "x \<noteq> CHR ''/''"
    using rev_join_head [OF assms] by blast
  have j: "join_byte (CHR ''/'') ws = rev (x # xs)" using rev by (metis rev_rev_ident)
  show "trim_right_byte (CHR ''/'') (CHR ''/'' # join_byte (CHR ''/'') ws) = CHR ''/'' # join_byte (CHR ''/'') ws"
    and "trim_right_byte (CHR ''/'') (CHR ''/'' # join_byte (CHR ''/'') ws @ ''/'') = CHR ''/'' # join_byte (CHR ''/'') ws"
    using x unfolding j by (simp_all add: trim_right_byte_def)
qed

text \<open>A route path under a root, and its tokens; the path \<open>/\<close> is the root itself.\<close>

lemma concat_tokens:
  assumes "ws \<noteq> []" and "\<forall>w \<in> set ws. segment w" and "ts \<noteq> []" and "\<forall>t \<in> set ts. segment t"
  shows "tokenizePath (concatPath (CHR ''/'' # join_byte (CHR ''/'') ws) (join_byte (CHR ''/'') ts)) = ws @ ts"
proof -
  have "trim_left_byte (CHR ''/'') (join_byte (CHR ''/'') ts) = join_byte (CHR ''/'') ts"
    using dropWhile_join [OF assms(3,4)] by (simp add: trim_left_byte_def)
  then have "concatPath (CHR ''/'' # join_byte (CHR ''/'') ws) (join_byte (CHR ''/'') ts)
      = CHR ''/'' # join_byte (CHR ''/'') (ws @ ts)"
    using assms(1,3) by (simp add: concatPath_def trim_right_path [OF assms(1,2)] join_byte_append)
  then show ?thesis using assms by (simp only:) (rule tokenizePath_segments, auto)
qed

lemma concat_root_tokens:
  assumes "ws \<noteq> []" and "\<forall>w \<in> set ws. segment w"
  shows "tokenizePath (concatPath (CHR ''/'' # join_byte (CHR ''/'') ws) ''/'') = ws"
proof -
  have "concatPath (CHR ''/'' # join_byte (CHR ''/'') ws) ''/'' = CHR ''/'' # join_byte (CHR ''/'') ws @ ''/''"
    by (simp add: concatPath_def trim_right_path [OF assms] trim_left_byte_def)
  moreover have "trim_left_byte (CHR ''/'') (CHR ''/'' # join_byte (CHR ''/'') ws @ ''/'') = join_byte (CHR ''/'') ws @ ''/''"
    using assms by (induction "CHR ''/''" ws rule: join_byte.induct)
      (auto simp: trim_left_byte_def elim!: segmentE)
  moreover have "trim_right_byte (CHR ''/'') (join_byte (CHR ''/'') ws @ ''/'') = join_byte (CHR ''/'') ws"
  proof -
    obtain x xs where rev: "rev (join_byte (CHR ''/'') ws) = x # xs" and x: "x \<noteq> CHR ''/''"
      using rev_join_head [OF assms] by blast
    have j: "join_byte (CHR ''/'') ws = rev (x # xs)" using rev by (metis rev_rev_ident)
    show ?thesis using x unfolding j by (simp add: trim_right_byte_def)
  qed
  moreover have "join_byte (CHR ''/'') ws \<noteq> []" using join_byte_nonempty [OF assms] .
  ultimately show ?thesis
    using assms by (simp add: tokenizePath_def trim_byte_def split_join segment_def)
qed

section \<open>Summaries\<close>

text \<open>What routing looks at: method, tokens of the path, handler.\<close>

definition route_summary :: "('h, 's) route \<Rightarrow> string \<times> string list \<times> 'h" where
  "route_summary r = (r_Method r, r_pathParts r, r_Function r)"

lemma ws_Route_Ok:
  assumes "b_function b = Some h"
  shows "\<exists>r. ws_Route ws b = Ok (ws\<lparr>ws_routes := ws_routes ws @ [r]\<rparr>) \<and>
    route_summary r = (b_httpMethod b, tokenizePath (concatPath (b_rootPath b) (b_currentPath b)), h)"
proof -
  obtain r where "Build (copyDefaults (ws_produces ws) (ws_consumes ws) b) = Ok r"
    "route_summary r = (b_httpMethod b, tokenizePath (concatPath (b_rootPath b) (b_currentPath b)), h)"
    using assms by (simp add: Build_def route_summary_def Let_def)
  then show ?thesis by (intro exI [of _ r]) (simp add: ws_Route_def)
qed

lemma template_of_tokens:
  assumes "\<forall>t \<in> set ts. CHR '':'' \<notin> set t \<and> CHR ''*'' \<notin> set t"
  shows "template ts"
proof -
  have "\<not> has_suffix t ''*}''" if "t \<in> set ts" for t
  proof
    assume "has_suffix t ''*}''"
    then have "CHR ''*'' \<in> set (take 2 (rev t))"
      by (simp add: has_suffix_def has_prefix_def numeral_2_eq_2)
    then show False using assms that by (metis in_set_takeD set_rev)
  qed
  then show ?thesis using assms by (simp add: template_def)
qed

lemma token_matches_refl [simp]: "token_matches s s"
  by (simp add: token_matches_def)

text \<open>A route with a given summary, as the router sees it.\<close>

lemma filter_summaries:
  assumes "map route_summary rs = ss"
  shows "map route_summary (filter (\<lambda>r. list_all2 token_matches (r_pathParts r) qs) rs)
    = filter (\<lambda>s. list_all2 token_matches (fst (snd s)) qs) ss"
  using assms by (induction rs arbitrary: ss) (auto simp: route_summary_def)

text \<open>What the router answers: a status, or the summary of a route, or only its handler.\<close>

fun selected_summary :: "('h, 's) selected \<Rightarrow> int + (string \<times> string list \<times> 'h)" where
  "selected_summary (NoRoute code) = Inl code"
| "selected_summary (Selected r) = Inr (route_summary r)"

fun selected_handler :: "('h, 's) selected \<Rightarrow> int + 'h" where
  "selected_handler (NoRoute code) = Inl code"
| "selected_handler (Selected r) = Inr (r_Function r)"

lemma selected_summary_hits:
  assumes "map route_summary (ws_routes w) = ss"
    and "\<forall>s \<in> set ss. template (fst (snd s))"
    and "filter (\<lambda>s. list_all2 token_matches (fst (snd s)) (tokenizePath path)) ss = hits"
    and "length hits \<le> 1"
  shows "selected_summary (route_by_method rx w m path) =
    (case hits of [] \<Rightarrow> Inl 404 | s # _ \<Rightarrow> if fst s = m then Inr s else Inl 405)"
proof -
  let ?rs = "filter (\<lambda>r. list_all2 token_matches (r_pathParts r) (tokenizePath path)) (ws_routes w)"
  have hits: "map route_summary ?rs = hits"
    using filter_summaries [OF assms(1)] assms(3) by simp
  then have "length ?rs \<le> 1" using assms(4) by (metis length_map)
  moreover have "\<forall>r \<in> set (ws_routes w). template (r_pathParts r)"
    using assms(1,2) by (auto simp: route_summary_def)
  ultimately have "route_by_method rx w m path =
      (case ?rs of [] \<Rightarrow> NoRoute 404 | r # _ \<Rightarrow> if r_Method r = m then Selected r else NoRoute 405)"
    by (intro route_by_method_cases) simp_all
  then show ?thesis
    using hits by (cases ?rs) (auto simp: route_summary_def)
qed

lemma selected_handler_summary:
  "selected_handler x = (case selected_summary x of Inl c \<Rightarrow> Inl c | Inr (m, ts, h) \<Rightarrow> Inr h)"
  by (cases x) (simp_all add: route_summary_def)

lemma selected_by_summary:
  assumes "map route_summary (ws_routes w) = ss"
    and "\<forall>s \<in> set ss. template (fst (snd s))"
    and "filter (\<lambda>s. list_all2 token_matches (fst (snd s)) (tokenizePath path)) ss = hits"
    and "length hits \<le> 1"
  shows "selected_handler (route_by_method rx w m path) =
    (case hits of [] \<Rightarrow> Inl 404 | (m', _, h) # _ \<Rightarrow> if m' = m then Inr h else Inl 405)"
  unfolding selected_handler_summary selected_summary_hits [OF assms]
  by (cases hits) (auto split: prod.splits)

end
