(* ===== verification/Testing_Provider.thy ===== *)
theory Testing_Provider
  imports Helpers Restful
begin

text \<open>
  \<open>test-adapter/provider/provider.go\<close>: the sample provider, which keeps the metric values posted to
  it in a map and serves them, with a fixed table of external metrics.

  Every method takes the provider's lock for its whole body (writers \<open>Lock\<close>, readers \<open>RLock\<close>, both
  released by \<open>defer\<close>), so a method is one step on the state; \<open>Rw_Mutex\<close> justifies this. What the
  methods get from outside is an environment: the clock, read once per value made (\<open>env_now k\<close> is the
  reading for the \<open>k\<close>-th value of a request), and \<open>metav1.ParseToLabelSelector\<close>.
\<close>

section \<open>State\<close>

record custom_metric_resource =
  cmr_CustomMetricInfo :: custom_metric_info
  cmr_NamespacedName :: namespaced_name

record external_metric =
  em_info :: external_metric_info
  em_labels :: "(string, string) go_map"
  em_value :: external_metric_value

definition testingExternalMetrics :: "external_metric list" where
  "testingExternalMetrics =
     [\<lparr>em_info = \<lparr>emi_Metric = ''my-external-metric''\<rparr>,
       em_labels = [(''foo'', ''bar'')],
       em_value = \<lparr>emv_MetricName = ''my-external-metric'', emv_MetricLabels = [(''foo'', ''bar'')],
         emv_Timestamp = 0, emv_WindowSeconds = None, emv_Value = NewQuantity 42 ''DecimalSI''\<rparr>\<rparr>,
      \<lparr>em_info = \<lparr>emi_Metric = ''my-external-metric''\<rparr>,
       em_labels = [(''foo'', ''baz'')],
       em_value = \<lparr>emv_MetricName = ''my-external-metric'', emv_MetricLabels = [(''foo'', ''baz'')],
         emv_Timestamp = 0, emv_WindowSeconds = None, emv_Value = NewQuantity 43 ''DecimalSI''\<rparr>\<rparr>,
      \<lparr>em_info = \<lparr>emi_Metric = ''other-external-metric''\<rparr>,
       em_labels = [],
       em_value = \<lparr>emv_MetricName = ''other-external-metric'', emv_MetricLabels = [],
         emv_Timestamp = 0, emv_WindowSeconds = None, emv_Value = NewQuantity 44 ''DecimalSI''\<rparr>\<rparr>]"

record testing_provider =
  tp_client :: dynamic_client
  tp_mapper :: rest_mapper
  tp_values :: "(custom_metric_resource, quantity) go_map"
  tp_externalMetrics :: "external_metric list"

record request_env =
  env_now :: "nat \<Rightarrow> int"
  env_ParseToLabelSelector :: "string \<Rightarrow> meta_label_selector result"

section \<open>The write service\<close>

datatype write_handler = UpdateMetric

definition value_param :: parameter where
  "value_param =
     DefaultValue ''0'' (DataType ''integer'' (BodyParameter ''value'' ''value to set metric''))"

definition webService :: "(write_handler, unit) web_service result" where
  "webService =
     (let ws = ws_Path ''/write-metrics'' new_web_service in
      bind_result (ws_Route ws (Param value_param (To UpdateMetric
          (ws_method ''POST'' ws ''/namespaces/{namespace}/{resourceType}/{name}/{metric}''))))
      (\<lambda>ws. bind_result (ws_Route ws (Param value_param (To UpdateMetric
          (ws_method ''POST'' ws ''/{resourceType}/{name}/{metric}''))))
      (\<lambda>ws. ws_Route ws (Param value_param (To UpdateMetric
          (ws_method ''POST'' ws ''/{resourceType}/{name}/metrics/{metric}''))))))"

definition NewFakeProvider ::
  "dynamic_client \<Rightarrow> rest_mapper \<Rightarrow> testing_provider \<times> (write_handler, unit) web_service result" where
  "NewFakeProvider client mapper =
     (\<lparr>tp_client = client, tp_mapper = mapper, tp_values = [],
       tp_externalMetrics = testingExternalMetrics\<rparr>, webService)"

text \<open>
  How a write request ends: with nothing written to the response (status 200), with an error string
  and its status, or by a panic.
\<close>

datatype write_response = Accepted | ErrorString int go_error | Panicked string

definition write_info :: "(string, string) go_map \<Rightarrow> custom_metric_info" where
  "write_info params =
     (let namespace = path_parameter params ''namespace'';
          resourceType = path_parameter params ''resourceType'';
          namespaced = (length namespace > 0 \<or> resourceType = ''namespaces'')
      in \<lparr>cmi_GroupResource = ParseGroupResource resourceType,
          cmi_Namespaced = namespaced,
          cmi_Metric = path_parameter params ''metric''\<rparr>)"

definition write_name :: "(string, string) go_map \<Rightarrow> namespaced_name" where
  "write_name params =
     \<lparr>nn_Namespace = path_parameter params ''namespace'', nn_Name = path_parameter params ''name''\<rparr>"

text \<open>
  \<open>updateMetric\<close>: \<open>entity\<close> is what \<open>request.ReadEntity\<close> makes of the body. An error of the
  normalisation is logged and the value stored under the info \<open>Normalized\<close> returned beside it.
\<close>

definition updateMetric ::
  "(string, string) go_map \<Rightarrow> quantity result \<Rightarrow> testing_provider \<Rightarrow>
   testing_provider \<times> write_response" where
  "updateMetric params entity p =
     (case entity of
        Abort e \<Rightarrow> (p, Panicked e)
      | Err err \<Rightarrow> (p, ErrorString 400 err)
      | Ok value \<Rightarrow>
          (case Normalized (write_info params) (tp_mapper p) of
             (info, Abort e) \<Rightarrow> (p, Panicked e)
           | (info, _) \<Rightarrow>
               let metricInfo = \<lparr>cmr_CustomMetricInfo = info, cmr_NamespacedName = write_name params\<rparr>
               in (p\<lparr>tp_values := go_put metricInfo value (tp_values p)\<rparr>, Accepted)))"

section \<open>Reading values\<close>

definition valueFor ::
  "testing_provider \<Rightarrow> custom_metric_info \<Rightarrow> namespaced_name \<Rightarrow> quantity result" where
  "valueFor p info name =
     (case Normalized info (tp_mapper p) of
        (info', Abort e) \<Rightarrow> Abort e
      | (info', Err err) \<Rightarrow> Err err
      | (info', Ok singular) \<Rightarrow>
          let metricInfo = \<lparr>cmr_CustomMetricInfo = info', cmr_NamespacedName = name\<rparr>
          in (case go_get (tp_values p) metricInfo of
                None \<Rightarrow> Err (NewMetricNotFoundForError (cmi_GroupResource info') (cmi_Metric info')
                                (nn_Name name))
              | Some value \<Rightarrow> Ok value))"

definition metricFor ::
  "request_env \<Rightarrow> testing_provider \<Rightarrow> nat \<Rightarrow> quantity \<Rightarrow> namespaced_name \<Rightarrow> label_selector \<Rightarrow>
   custom_metric_info \<Rightarrow> metric_value option result" where
  "metricFor env p k value name selector info =
     (case ReferenceFor (tp_mapper p) name info of
        Abort e \<Rightarrow> Abort e
      | Err err \<Rightarrow> Err err
      | Ok objRef \<Rightarrow>
          let metric = \<lparr>mv_DescribedObject = objRef,
                        mv_Metric = \<lparr>mi_Name = cmi_Metric info, mi_Selector = None\<rparr>,
                        mv_Timestamp = env_now env k,
                        mv_WindowSeconds = None,
                        mv_Value = value\<rparr>
          in if length (sel_String selector) > 0 then
               (case env_ParseToLabelSelector env (sel_String selector) of
                  Abort e \<Rightarrow> Abort e
                | Err err \<Rightarrow> Err err
                | Ok labelSelector \<Rightarrow>
                    Ok (Some (metric\<lparr>mv_Metric := (mv_Metric metric)\<lparr>mi_Selector := Some labelSelector\<rparr>\<rparr>)))
             else Ok (Some metric))"

text \<open>The loop of \<open>metricsFor\<close>: objects without a value are skipped, any other error ends it.\<close>

fun metrics_loop ::
  "request_env \<Rightarrow> testing_provider \<Rightarrow> string \<Rightarrow> label_selector \<Rightarrow> custom_metric_info \<Rightarrow>
   string list \<Rightarrow> metric_value list \<Rightarrow> metric_value list result" where
  "metrics_loop env p namespace selector info [] res = Ok res"
| "metrics_loop env p namespace selector info (name # names) res =
     (let namespacedName = \<lparr>nn_Namespace = namespace, nn_Name = name\<rparr> in
      case valueFor p info namespacedName of
        Abort e \<Rightarrow> Abort e
      | Err err \<Rightarrow>
          if IsNotFound err then metrics_loop env p namespace selector info names res else Err err
      | Ok value \<Rightarrow>
          (case metricFor env p (length res) value namespacedName selector info of
             Abort e \<Rightarrow> Abort e
           | Err err \<Rightarrow> Err err
           | Ok metric \<Rightarrow>
               (case deref metric of
                  Abort e \<Rightarrow> Abort e
                | Err err \<Rightarrow> Err err
                | Ok v \<Rightarrow> metrics_loop env p namespace selector info names (res @ [v]))))"

definition metricsFor ::
  "request_env \<Rightarrow> testing_provider \<Rightarrow> string \<Rightarrow> label_selector \<Rightarrow> custom_metric_info \<Rightarrow>
   metric_value_list option result" where
  "metricsFor env p namespace selector info =
     (case ListObjectNames (tp_mapper p) (tp_client p) namespace selector info of
        Abort e \<Rightarrow> Abort e
      | Err err \<Rightarrow> Err err
      | Ok names \<Rightarrow>
          (case metrics_loop env p namespace selector info names [] of
             Abort e \<Rightarrow> Abort e
           | Err err \<Rightarrow> Err err
           | Ok res \<Rightarrow> Ok (Some \<lparr>mvl_Items = res\<rparr>)))"

definition testing_GetMetricByName ::
  "request_env \<Rightarrow> testing_provider \<Rightarrow> namespaced_name \<Rightarrow> custom_metric_info \<Rightarrow>
   metric_value option result" where
  "testing_GetMetricByName env p name info =
     (case valueFor p info name of
        Abort e \<Rightarrow> Abort e
      | Err err \<Rightarrow> Err err
      | Ok value \<Rightarrow> metricFor env p 0 value name labels_Everything info)"

definition testing_GetMetricBySelector ::
  "request_env \<Rightarrow> testing_provider \<Rightarrow> string \<Rightarrow> label_selector \<Rightarrow> custom_metric_info \<Rightarrow>
   metric_value_list option result" where
  "testing_GetMetricBySelector env p namespace selector info =
     metricsFor env p namespace selector info"

text \<open>
  \<open>ListAllMetrics\<close> collects the infos of the keys in a map and ranges over it; \<open>order\<close> is the order
  in which the runtime visits that map, an arbitrary rearrangement of its keys.
\<close>

definition testing_ListAllMetrics ::
  "(custom_metric_info list \<Rightarrow> custom_metric_info list) \<Rightarrow> testing_provider \<Rightarrow>
   custom_metric_info list" where
  "testing_ListAllMetrics order p =
     (let infos = foldl (\<lambda>infos resource. go_put (cmr_CustomMetricInfo resource) () infos) []
                    (go_keys (tp_values p))
      in foldl (\<lambda>metrics info. metrics @ [info]) [] (order (go_keys infos)))"

fun external_loop ::
  "request_env \<Rightarrow> label_selector \<Rightarrow> external_metric_info \<Rightarrow> external_metric list \<Rightarrow>
   external_metric_value list \<Rightarrow> external_metric_value list" where
  "external_loop env metricSelector info [] matchingMetrics = matchingMetrics"
| "external_loop env metricSelector info (metric # metrics) matchingMetrics =
     (if emi_Metric (em_info metric) = emi_Metric info \<and>
         sel_Matches metricSelector (map_of (em_labels metric))
      then external_loop env metricSelector info metrics
             (matchingMetrics @ [em_value metric\<lparr>emv_Timestamp := env_now env (length matchingMetrics)\<rparr>])
      else external_loop env metricSelector info metrics matchingMetrics)"

definition testing_GetExternalMetric ::
  "request_env \<Rightarrow> testing_provider \<Rightarrow> string \<Rightarrow> label_selector \<Rightarrow> external_metric_info \<Rightarrow>
   external_metric_value_list option result" where
  "testing_GetExternalMetric env p namespace metricSelector info =
     Ok (Some \<lparr>emvl_Items = external_loop env metricSelector info (tp_externalMetrics p) []\<rparr>)"

definition testing_ListAllExternalMetrics :: "testing_provider \<Rightarrow> external_metric_info list" where
  "testing_ListAllExternalMetrics p =
     foldl (\<lambda>infos metric. infos @ [em_info metric]) [] (tp_externalMetrics p)"

text \<open>The provider as the API server sees it, at one state.\<close>

definition as_custom_provider ::
  "request_env \<Rightarrow> (custom_metric_info list \<Rightarrow> custom_metric_info list) \<Rightarrow> testing_provider \<Rightarrow>
   custom_metrics_provider" where
  "as_custom_provider env order p =
     \<lparr>GetMetricByName = testing_GetMetricByName env p,
      GetMetricBySelector = testing_GetMetricBySelector env p,
      ListAllMetrics = testing_ListAllMetrics order p\<rparr>"

definition as_external_provider :: "request_env \<Rightarrow> testing_provider \<Rightarrow> external_metrics_provider" where
  "as_external_provider env p =
     \<lparr>GetExternalMetric = testing_GetExternalMetric env p,
      ListAllExternalMetrics = testing_ListAllExternalMetrics p\<rparr>"

end
