(* ===== verification/Request_Info.thy ===== *)
theory Request_Info
  imports Restful Schema
begin

text \<open>
  How a request reaches the storage: \<open>RequestInfoFactory.NewRequestInfo\<close> reads namespace, resource,
  name and subresource off the path, and \<open>handlers.ListResource\<close> turns them into the context and the
  options it hands to \<open>rest.Lister.List\<close> (\<open>k8s.io/apiserver\<close>, vendored). The decoded query options are
  part of the request here. After the list comes back, the handler sets self links and encodes the
  object; that is not modelled.
\<close>

section \<open>Requests\<close>

record list_options =
  lo_LabelSelector :: "label_selector option"
  lo_FieldSelector :: "field_selector option"
  lo_Watch :: bool
  lo_TimeoutSeconds :: "int option"

definition no_options :: list_options where
  "no_options = \<lparr>lo_LabelSelector = None, lo_FieldSelector = None, lo_Watch = False,
                 lo_TimeoutSeconds = None\<rparr>"

text \<open>
  \<open>req_options\<close> is the outcome of decoding the query as list options, \<open>req_watch\<close> the values of the
  query parameter \<open>watch\<close>.
\<close>

record http_request =
  req_Method :: string
  req_Path :: string
  req_RawPath :: string
  req_options :: "list_options result"
  req_watch :: "string list"

record request_info =
  ri_IsResourceRequest :: bool
  ri_Path :: string
  ri_Verb :: string
  ri_APIPrefix :: string
  ri_APIGroup :: string
  ri_APIVersion :: string
  ri_Namespace :: string
  ri_Resource :: string
  ri_Subresource :: string
  ri_Name :: string
  ri_Parts :: "string list"

record request_info_factory =
  APIPrefixes :: "string list"
  GrouplessAPIPrefixes :: "string list"

definition specialVerbs :: "string list" where
  "specialVerbs = [''proxy'', ''watch'']"

definition specialVerbsNoSubresources :: "string list" where
  "specialVerbsNoSubresources = [''proxy'']"

definition namespaceSubresources :: "string list" where
  "namespaceSubresources = [''status'', ''finalize'']"

definition splitPath :: "string \<Rightarrow> string list" where
  "splitPath path =
     (let path = trim_byte (CHR ''/'') path
      in if path = [] then [] else split_byte (CHR ''/'') path)"

section \<open>Request info\<close>

definition method_verb :: "string \<Rightarrow> string" where
  "method_verb m =
     (if m = ''POST'' then ''create''
      else if m = ''GET'' \<or> m = ''HEAD'' then ''get''
      else if m = ''PUT'' then ''update''
      else if m = ''PATCH'' then ''patch''
      else if m = ''DELETE'' then ''delete''
      else [])"

definition valid_segment_name :: "string \<Rightarrow> bool" where
  "valid_segment_name n \<longleftrightarrow>
     n \<noteq> ''.'' \<and> n \<noteq> ''..'' \<and> CHR ''/'' \<notin> set n \<and> CHR ''%'' \<notin> set n"

text \<open>The end of \<open>NewRequestInfo\<close>: a get without a name is a list or a watch, a delete a delete of all.\<close>

definition ri_without_name :: "http_request \<Rightarrow> request_info \<Rightarrow> request_info" where
  "ri_without_name req ri =
     (let ri1 =
        (if ri_Name ri = [] \<and> ri_Verb ri = ''get'' then
           let opts = (case req_options req of
                         Ok opts \<Rightarrow> opts
                       | _ \<Rightarrow> no_options
                           \<lparr>lo_Watch := (case req_watch req of
                                           [] \<Rightarrow> False
                                         | v # _ \<Rightarrow> to_lower v \<notin> {''false'', ''0''})\<rparr>);
               ri' = ri\<lparr>ri_Verb := (if lo_Watch opts then ''watch'' else ''list'')\<rparr>
           in (case lo_FieldSelector opts of
                 None \<Rightarrow> ri'
               | Some fs \<Rightarrow>
                   (case RequiresExactMatch fs ''metadata.name'' of
                      None \<Rightarrow> ri'
                    | Some name \<Rightarrow> if valid_segment_name name then ri'\<lparr>ri_Name := name\<rparr> else ri'))
         else ri)
      in if ri_Name ri1 = [] \<and> ri_Verb ri1 = ''delete''
         then ri1\<lparr>ri_Verb := ''deletecollection''\<rparr> else ri1)"

text \<open>\<open>/namespaces/{namespace}/{kind}/*\<close>, then the parts, then resource, name and subresource.\<close>

definition ri_parts :: "request_info \<Rightarrow> string list \<Rightarrow> request_info" where
  "ri_parts ri currentParts =
     (let (ri1, parts) =
        (if hd currentParts = ''namespaces'' then
           (if length currentParts > 1 then
              (ri\<lparr>ri_Namespace := currentParts ! 1\<rparr>,
               if length currentParts > 2 \<and> currentParts ! 2 \<notin> set namespaceSubresources
               then drop 2 currentParts else currentParts)
            else (ri, currentParts))
         else (ri\<lparr>ri_Namespace := []\<rparr>, currentParts));
          ri2 = ri1\<lparr>ri_Parts := parts\<rparr>
      in if length parts \<ge> 3 \<and> ri_Verb ri2 \<notin> set specialVerbsNoSubresources
         then ri2\<lparr>ri_Subresource := parts ! 2, ri_Name := parts ! 1, ri_Resource := parts ! 0\<rparr>
         else if length parts \<ge> 2 then ri2\<lparr>ri_Name := parts ! 1, ri_Resource := parts ! 0\<rparr>
         else if length parts \<ge> 1 then ri2\<lparr>ri_Resource := parts ! 0\<rparr>
         else ri2)"

text \<open>From the version on; \<open>currentParts\<close> holds at least the version and one more part.\<close>

definition ri_resource ::
  "http_request \<Rightarrow> request_info \<Rightarrow> string list \<Rightarrow> request_info \<times> go_error option" where
  "ri_resource req ri currentParts =
     (let ri1 = ri\<lparr>ri_IsResourceRequest := True, ri_APIVersion := hd currentParts\<rparr>;
          rest = tl currentParts
      in if hd rest \<in> set specialVerbs then
           (if length rest < 2
            then (ri1, Some (Errorf ''unable to determine kind and namespace from url, %v'' [req_Path req] []))
            else (ri_without_name req (ri_parts (ri1\<lparr>ri_Verb := hd rest\<rparr>) (tl rest)), None))
         else (ri_without_name req (ri_parts (ri1\<lparr>ri_Verb := method_verb (req_Method req)\<rparr>) rest), None))"

definition NewRequestInfo ::
  "request_info_factory \<Rightarrow> http_request \<Rightarrow> request_info \<times> go_error option" where
  "NewRequestInfo r req =
     (let ri = \<lparr>ri_IsResourceRequest = False, ri_Path = req_Path req,
                ri_Verb = to_lower (req_Method req), ri_APIPrefix = [], ri_APIGroup = [],
                ri_APIVersion = [], ri_Namespace = [], ri_Resource = [], ri_Subresource = [],
                ri_Name = [], ri_Parts = []\<rparr>;
          parts = splitPath (req_Path req)
      in if length parts < 3 then (ri, None)
         else if hd parts \<notin> set (APIPrefixes r) then (ri, None)
         else
           let ri1 = ri\<lparr>ri_APIPrefix := hd parts\<rparr>; parts1 = tl parts
           in if hd parts \<notin> set (GrouplessAPIPrefixes r) then
                (if length parts1 < 3 then (ri1, None)
                 else ri_resource req (ri1\<lparr>ri_APIGroup := hd parts1\<rparr>) (tl parts1))
              else ri_resource req ri1 parts1)"

section \<open>Contexts\<close>

record request_context =
  ctx_Namespace :: "string option"
  ctx_RequestInfo :: "request_info option"

definition NamespaceValue :: "request_context \<Rightarrow> string" where
  "NamespaceValue ctx = (case ctx_Namespace ctx of None \<Rightarrow> [] | Some ns \<Rightarrow> ns)"

section \<open>Self links\<close>

text \<open>\<open>url.QueryEscape\<close> on bytes.\<close>

definition hex_digit :: "nat \<Rightarrow> char" where
  "hex_digit n = char_of (if n < 10 then 48 + n else 55 + n)"

definition unreserved :: "nat \<Rightarrow> bool" where
  "unreserved n \<longleftrightarrow>
     (48 \<le> n \<and> n \<le> 57) \<or> (65 \<le> n \<and> n \<le> 90) \<or> (97 \<le> n \<and> n \<le> 122) \<or>
     n = 45 \<or> n = 95 \<or> n = 46 \<or> n = 126"

definition escape_byte :: "char \<Rightarrow> string" where
  "escape_byte c =
     (let n = (of_char c :: nat)
      in if unreserved n then [c]
         else if n = 32 then ''+''
         else [CHR ''%'', hex_digit (n div 16), hex_digit (n mod 16)])"

definition QueryEscape :: "string \<Rightarrow> string" where
  "QueryEscape s = concat (map escape_byte s)"

definition NewBadRequest :: "string \<Rightarrow> go_error" where
  "NewBadRequest reason =
     StatusError \<lparr>status_Status = ''Failure'', status_Code = 400, status_Reason = ''BadRequest'',
       status_Message = reason\<rparr>"

definition errEmptyName :: go_error where
  "errEmptyName = NewBadRequest ''name must be provided''"

text \<open>
  \<open>runtime.SelfLinker\<close>, as far as the handler uses it; objects have type \<open>'o\<close>. Of \<open>SetSelfLink\<close> only the
  outcome is seen: the links set on an object are kept beside it.
\<close>

record 'o self_linker =
  sl_Name :: "'o \<Rightarrow> string result"
  sl_Namespace :: "'o \<Rightarrow> string result"
  sl_SetSelfLink :: "'o \<Rightarrow> string \<Rightarrow> unit result"

record 'o context_based_naming =
  cbn_SelfLinker :: "'o self_linker"
  cbn_ClusterScoped :: bool
  cbn_SelfLinkPathPrefix :: string
  cbn_SelfLinkPathSuffix :: string

definition ObjectName :: "'o context_based_naming \<Rightarrow> 'o \<Rightarrow> (string \<times> string) result" where
  "ObjectName n obj =
     bind_result (sl_Name (cbn_SelfLinker n) obj) (\<lambda>name.
       if length name = 0 then Err errEmptyName
       else bind_result (sl_Namespace (cbn_SelfLinker n) obj) (\<lambda>namespace. Ok (namespace, name)))"

text \<open>
  The comparison with \<open>errEmptyName\<close> is by pointer in the code; a self linker that answers an error
  with the same content is not told apart here.
\<close>

definition GenerateLink :: "'o context_based_naming \<Rightarrow> request_info \<Rightarrow> 'o \<Rightarrow> string result" where
  "GenerateLink n requestInfo obj =
     (let found = (case ObjectName n obj of
                     Ok (namespace, name) \<Rightarrow> Ok (namespace, name)
                   | Err err \<Rightarrow> if err = errEmptyName \<and> length (ri_Name requestInfo) > 0
                                then Ok ([], ri_Name requestInfo) else Err err
                   | Abort p \<Rightarrow> Abort p)
      in bind_result found (\<lambda>(namespace, name).
           let namespace' = (if length namespace = 0 \<and> length (ri_Namespace requestInfo) > 0
                             then ri_Namespace requestInfo else namespace)
           in if cbn_ClusterScoped n
              then Ok (cbn_SelfLinkPathPrefix n @ QueryEscape name @ cbn_SelfLinkPathSuffix n)
              else Ok (cbn_SelfLinkPathPrefix n @ QueryEscape namespace' @ ''/'' @
                       QueryEscape (ri_Resource requestInfo) @ ''/'' @ QueryEscape name @
                       cbn_SelfLinkPathSuffix n)))"

section \<open>The list handler\<close>

text \<open>\<open>ContextBasedNaming.Namespace\<close> and \<open>Name\<close>: from the request info of the context.\<close>

definition cbn_Namespace :: "request_context \<Rightarrow> string result" where
  "cbn_Namespace ctx =
     (case ctx_RequestInfo ctx of
        None \<Rightarrow> Err (Errorf ''missing requestInfo'' [] [])
      | Some ri \<Rightarrow> Ok (ri_Namespace ri))"

definition cbn_Name :: "request_context \<Rightarrow> (string \<times> string) result" where
  "cbn_Name ctx =
     (case ctx_RequestInfo ctx of
        None \<Rightarrow> Err (Errorf ''missing requestInfo'' [] [])
      | Some ri \<Rightarrow>
          bind_result (cbn_Namespace ctx) (\<lambda>ns.
            if length (ri_Name ri) = 0 then Err errEmptyName else Ok (ns, ri_Name ri)))"

text \<open>\<open>fields.Selector.Transform\<close>.\<close>

fun fields_Transform ::
  "(string \<Rightarrow> string \<Rightarrow> (string \<times> string) result) \<Rightarrow> field_selector \<Rightarrow> field_selector result"
  and fields_Transform_all ::
  "(string \<Rightarrow> string \<Rightarrow> (string \<times> string) result) \<Rightarrow> field_selector list \<Rightarrow> field_selector list result" where
  "fields_Transform fn NothingFields = Ok NothingFields"
| "fields_Transform fn (HasTerm f v) =
     bind_result (fn f v) (\<lambda>(f', v').
       if length f' = 0 \<and> length v' = 0 then Ok (AndTerm []) else Ok (HasTerm f' v'))"
| "fields_Transform fn (NotHasTerm f v) =
     bind_result (fn f v) (\<lambda>(f', v').
       if length f' = 0 \<and> length v' = 0 then Ok (AndTerm []) else Ok (NotHasTerm f' v'))"
| "fields_Transform fn (AndTerm ts) =
     bind_result (fields_Transform_all fn ts) (\<lambda>ts'. Ok (AndTerm ts'))"
| "fields_Transform_all fn [] = Ok []"
| "fields_Transform_all fn (s # ss) =
     bind_result (fields_Transform fn s) (\<lambda>n.
       bind_result (fields_Transform_all fn ss) (\<lambda>next.
         Ok (if \<not> fields_Empty n then n # next else next)))"

text \<open>The message quotes the resource, whose name has nothing to escape.\<close>

definition NewMethodNotSupported :: "group_resource \<Rightarrow> string \<Rightarrow> go_error" where
  "NewMethodNotSupported qualifiedResource action =
     StatusError \<lparr>status_Status = ''Failure'', status_Code = 405, status_Reason = ''MethodNotAllowed'',
       status_Message = action @ '' is not supported on resources of kind '' @
         [CHR 0x22] @ gr_String qualifiedResource @ [CHR 0x22]\<rparr>"

text \<open>What \<open>ListResource\<close> reads of its \<open>RequestScope\<close>.\<close>

record list_scope =
  ls_Resource :: group_version_resource
  ls_ConvertFieldLabel :: "string \<Rightarrow> string \<Rightarrow> (string \<times> string) result"

text \<open>
  \<open>ListResource\<close> for a storage that cannot be watched (\<open>rw\<close> nil, \<open>forceWatch\<close> false): \<open>list\<close> is
  \<open>r.List\<close>.
\<close>

definition ListResource ::
  "list_scope \<Rightarrow> (request_context \<Rightarrow> list_options option \<Rightarrow> 'l result) \<Rightarrow> http_request \<Rightarrow> request_context \<Rightarrow>
   'l result" where
  "ListResource scope list req ctx0 =
     bind_result (cbn_Namespace ctx0) (\<lambda>namespace.
       let hasName = (case cbn_Name ctx0 of Ok (_, name) \<Rightarrow> Some name | _ \<Rightarrow> None);
           ctx = ctx0\<lparr>ctx_Namespace := Some namespace\<rparr>
       in (case req_options req of
             Abort p \<Rightarrow> Abort p
           | Err err \<Rightarrow> Err (NewBadRequest (error_text err))
           | Ok opts0 \<Rightarrow>
               let transformed = (case lo_FieldSelector opts0 of
                     None \<Rightarrow> Ok opts0
                   | Some fs \<Rightarrow>
                       (case fields_Transform (ls_ConvertFieldLabel scope) fs of
                          Abort p \<Rightarrow> Abort p
                        | Err err \<Rightarrow> Err (NewBadRequest (error_text err))
                        | Ok fs' \<Rightarrow> Ok (opts0\<lparr>lo_FieldSelector := Some fs'\<rparr>)))
               in bind_result transformed (\<lambda>opts.
                  let named = (case hasName of
                        None \<Rightarrow> Ok opts
                      | Some name \<Rightarrow>
                          (case lo_FieldSelector opts of
                             Some fs \<Rightarrow>
                               if fields_Empty fs
                               then Ok (opts\<lparr>lo_FieldSelector := Some (HasTerm ''metadata.name'' name)\<rparr>)
                               else if RequiresExactMatch fs ''metadata.name'' = Some name then Ok opts
                               else Err (NewBadRequest
                                      ''fieldSelector metadata.name doesn't match requested name'')
                           | None \<Rightarrow>
                               Ok (opts\<lparr>lo_FieldSelector := Some (HasTerm ''metadata.name'' name)\<rparr>)))
                  in bind_result named (\<lambda>opts.
                     if lo_Watch opts then Err (NewMethodNotSupported (gvr_GroupResource (ls_Resource scope)) ''watch'')
                     else list ctx (Some opts)))))"

text \<open>The request info filter in front of the handler.\<close>

definition WithRequestInfo ::
  "request_info_factory \<Rightarrow> (http_request \<Rightarrow> request_context \<Rightarrow> 'l result) \<Rightarrow> http_request \<Rightarrow>
   'l result" where
  "WithRequestInfo r handler req =
     (case NewRequestInfo r req of
        (_, Some err) \<Rightarrow> Err (Errorf ''failed to create RequestInfo: %v'' [] [err])
      | (info, None) \<Rightarrow> handler req \<lparr>ctx_Namespace = None, ctx_RequestInfo = Some info\<rparr>)"

section \<open>The paths of the metrics APIs\<close>

lemma splitPath_segments:
  assumes "ws \<noteq> []" and "\<forall>w \<in> set ws. segment w"
  shows "splitPath (CHR ''/'' # join_byte (CHR ''/'') ws) = ws"
  using trim_path [OF assms] join_byte_nonempty [OF assms] assms
  by (simp add: splitPath_def Let_def split_join segment_def)

text \<open>A request for \<open>/apis/group/version/segs\<close>.\<close>

definition api_request :: "string \<Rightarrow> string \<Rightarrow> string list \<Rightarrow> list_options \<Rightarrow> http_request" where
  "api_request g v segs opts =
     \<lparr>req_Method = ''GET'',
      req_Path = CHR ''/'' # join_byte (CHR ''/'') ([''apis'', g, v] @ segs),
      req_RawPath = [], req_options = Ok opts, req_watch = []\<rparr>"

text \<open>The factory of the API server: \<open>apis\<close> has groups, legacy prefixes do not.\<close>

definition serves_apis :: "request_info_factory \<Rightarrow> bool" where
  "serves_apis r \<longleftrightarrow> ''apis'' \<in> set (APIPrefixes r) \<and> ''apis'' \<notin> set (GrouplessAPIPrefixes r)"

definition api_info :: "string \<Rightarrow> string \<Rightarrow> string list \<Rightarrow> request_info" where
  "api_info g v segs =
     \<lparr>ri_IsResourceRequest = True, ri_Path = CHR ''/'' # join_byte (CHR ''/'') ([''apis'', g, v] @ segs),
      ri_Verb = ''get'', ri_APIPrefix = ''apis'', ri_APIGroup = g, ri_APIVersion = v,
      ri_Namespace = [], ri_Resource = [], ri_Subresource = [], ri_Name = [], ri_Parts = []\<rparr>"

lemma method_verb_GET [simp]: "method_verb ''GET'' = ''get''"
  by (simp add: method_verb_def)

lemma NewRequestInfo_api:
  assumes "serves_apis r" and "\<forall>s \<in> set (g # v # segs). segment s" and "segs \<noteq> []"
    and "hd segs \<notin> set specialVerbs"
  shows "NewRequestInfo r (api_request g v segs opts) =
    (ri_without_name (api_request g v segs opts) (ri_parts (api_info g v segs) segs), None)"
proof -
  have parts: "splitPath (req_Path (api_request g v segs opts)) = ''apis'' # g # v # segs"
    using splitPath_segments [of "''apis'' # g # v # segs"] assms(2)
    by (simp add: api_request_def segment_def)
  show ?thesis
    using assms(1,3,4) unfolding NewRequestInfo_def Let_def parts
    by (cases segs) (auto simp: serves_apis_def ri_resource_def Let_def api_info_def api_request_def)
qed

lemma ri_parts_namespaced:
  "res \<notin> set namespaceSubresources \<Longrightarrow>
   ri_parts (api_info g v segs) [''namespaces'', ns, res, name, sub] =
     (api_info g v segs)\<lparr>ri_Namespace := ns, ri_Parts := [res, name, sub], ri_Resource := res,
        ri_Subresource := sub, ri_Name := name\<rparr>"
  by (simp add: ri_parts_def api_info_def specialVerbsNoSubresources_def)

lemma ri_parts_namespace_metric:
  "res \<notin> set namespaceSubresources \<Longrightarrow>
   ri_parts (api_info g v segs) [''namespaces'', ns, res, name] =
     (api_info g v segs)\<lparr>ri_Namespace := ns, ri_Parts := [res, name], ri_Resource := res,
        ri_Name := name\<rparr>"
  by (simp add: ri_parts_def api_info_def specialVerbsNoSubresources_def)

lemma ri_parts_external:
  "res \<notin> set namespaceSubresources \<Longrightarrow>
   ri_parts (api_info g v segs) [''namespaces'', ns, res] =
     (api_info g v segs)\<lparr>ri_Namespace := ns, ri_Parts := [res], ri_Resource := res\<rparr>"
  by (simp add: ri_parts_def api_info_def specialVerbsNoSubresources_def)

lemma ri_parts_root:
  "res \<noteq> ''namespaces'' \<Longrightarrow>
   ri_parts (api_info g v segs) [res, name, sub] =
     (api_info g v segs)\<lparr>ri_Parts := [res, name, sub], ri_Resource := res,
        ri_Subresource := sub, ri_Name := name\<rparr>"
  by (simp add: ri_parts_def api_info_def specialVerbsNoSubresources_def)

lemma ri_without_name_named [simp]:
  "ri_Name ri \<noteq> [] \<Longrightarrow> ri_without_name req ri = ri"
  by (simp add: ri_without_name_def)

end
