(* ===== verification/Metrics_Rest.thy ===== *)
theory Metrics_Rest
  imports Request_Info Provider_Api
begin

text \<open>
  The storages of the two metrics APIs: \<open>pkg/registry/custom_metrics/reststorage.go\<close> and
  \<open>pkg/registry/external_metrics/reststorage.go\<close>. A storage answers \<open>List\<close> by asking the provider; what
  it asks is the abstract \<open>metric_query\<close>, and the theorems say which query each path of the API is.

  What a client may rely on whatever the provider is proved inside the provider locales.
\<close>

section \<open>Custom metrics\<close>

definition custom_New :: metric_value where
  "custom_New =
     \<lparr>mv_DescribedObject = zero_object_reference,
      mv_Metric = \<lparr>mi_Name = [], mi_Selector = None\<rparr>,
      mv_Timestamp = 0, mv_WindowSeconds = None,
      mv_Value = \<lparr>q_Value = 0, q_Scale = 0, q_Format = []\<rparr>\<rparr>"

definition custom_NewList :: metric_value_list where
  "custom_NewList = \<lparr>mvl_Items = []\<rparr>"

definition handleIndividualOp ::
  "custom_metrics_provider \<Rightarrow> string \<Rightarrow> group_resource \<Rightarrow> string \<Rightarrow> string \<Rightarrow>
   metric_value_list option result" where
  "handleIndividualOp prov namespace groupResource name metricName =
     (case GetMetricByName prov \<lparr>nn_Namespace = namespace, nn_Name = name\<rparr>
             \<lparr>cmi_GroupResource = groupResource, cmi_Namespaced = (namespace \<noteq> []),
              cmi_Metric = metricName\<rparr> of
        Abort e \<Rightarrow> Abort e
      | Err err \<Rightarrow> Err err
      | Ok singleRes \<Rightarrow> bind_result (deref singleRes) (\<lambda>v. Ok (Some \<lparr>mvl_Items = [v]\<rparr>)))"

definition handleWildcardOp ::
  "custom_metrics_provider \<Rightarrow> string \<Rightarrow> group_resource \<Rightarrow> label_selector \<Rightarrow> string \<Rightarrow>
   metric_value_list option result" where
  "handleWildcardOp prov namespace groupResource selector metricName =
     GetMetricBySelector prov namespace selector
       \<lparr>cmi_GroupResource = groupResource, cmi_Namespaced = (namespace \<noteq> []),
        cmi_Metric = metricName\<rparr>"

definition REST_List ::
  "custom_metrics_provider \<Rightarrow> request_context \<Rightarrow> list_options option \<Rightarrow>
   metric_value_list option result" where
  "REST_List prov ctx options =
     (let selector = (case options of
            None \<Rightarrow> labels_Everything
          | Some os \<Rightarrow> (case lo_LabelSelector os of None \<Rightarrow> labels_Everything | Some s \<Rightarrow> s));
          name = (case options of
            None \<Rightarrow> ''*''
          | Some os \<Rightarrow>
              (case lo_FieldSelector os of
                 None \<Rightarrow> ''*''
               | Some fs \<Rightarrow> (case RequiresExactMatch fs ''metadata.name'' of
                                None \<Rightarrow> ''*'' | Some nameMatch \<Rightarrow> nameMatch)));
          namespace = NamespaceValue ctx
      in (case ctx_RequestInfo ctx of
            None \<Rightarrow> Err (Errorf ''unable to get resource and metric name from request'' [] [])
          | Some requestInfo \<Rightarrow>
              let resourceRaw = ri_Resource requestInfo;
                  metricName = ri_Subresource requestInfo;
                  groupResource = ParseGroupResource resourceRaw;
                  (groupResource, metricName, name, namespace) =
                    (if namespace \<noteq> [] \<and> resourceRaw = ''metrics''
                     then (\<lparr>gr_Group = [], gr_Resource = ''namespaces''\<rparr>, name, namespace, [])
                     else (groupResource, metricName, name, namespace))
              in if name = ''*''
                 then handleWildcardOp prov namespace groupResource selector metricName
                 else handleIndividualOp prov namespace groupResource name metricName))"

section \<open>External metrics\<close>

definition external_New :: external_metric_value where
  "external_New =
     \<lparr>emv_MetricName = [], emv_MetricLabels = [], emv_Timestamp = 0, emv_WindowSeconds = None,
      emv_Value = \<lparr>q_Value = 0, q_Scale = 0, q_Format = []\<rparr>\<rparr>"

definition external_NewList :: external_metric_value_list where
  "external_NewList = \<lparr>emvl_Items = []\<rparr>"

definition external_List ::
  "external_metrics_provider \<Rightarrow> request_context \<Rightarrow> list_options option \<Rightarrow>
   external_metric_value_list option result" where
  "external_List prov ctx options =
     (let metricSelector = (case options of
            None \<Rightarrow> labels_Everything
          | Some os \<Rightarrow> (case lo_LabelSelector os of None \<Rightarrow> labels_Everything | Some s \<Rightarrow> s));
          namespace = NamespaceValue ctx
      in (case ctx_RequestInfo ctx of
            None \<Rightarrow> Err (Errorf ''unable to get resource and metric name from request'' [] [])
          | Some requestInfo \<Rightarrow>
              let metricName = ri_Resource requestInfo
              in GetExternalMetric prov namespace metricSelector \<lparr>emi_Metric = metricName\<rparr>))"

section \<open>What a path asks for\<close>

text \<open>A question to the provider, and the answer of the API.\<close>

datatype metric_query =
    ByName namespaced_name custom_metric_info
  | BySelector string label_selector custom_metric_info

fun run_query :: "custom_metrics_provider \<Rightarrow> metric_query \<Rightarrow> metric_value_list option result" where
  "run_query prov (ByName nn info) =
     bind_result (GetMetricByName prov nn info)
       (\<lambda>p. bind_result (deref p) (\<lambda>v. Ok (Some \<lparr>mvl_Items = [v]\<rparr>)))"
| "run_query prov (BySelector ns sel info) = GetMetricBySelector prov ns sel info"

text \<open>The name \<open>*\<close> stands for all objects that match the selector.\<close>

definition object_query :: "string \<Rightarrow> string \<Rightarrow> label_selector \<Rightarrow> custom_metric_info \<Rightarrow> metric_query" where
  "object_query ns name sel info =
     (if name = ''*'' then BySelector ns sel info
      else ByName \<lparr>nn_Namespace = ns, nn_Name = name\<rparr> info)"

text \<open>
  The documented paths below the version: a metric of an object without a namespace, a metric of a
  namespace, a metric of an object in a namespace.
\<close>

fun custom_query :: "string list \<Rightarrow> label_selector \<Rightarrow> metric_query option" where
  "custom_query [resource, name, metric] sel =
     (if resource = ''namespaces'' then None
      else Some (object_query [] name sel
        \<lparr>cmi_GroupResource = ParseGroupResource resource, cmi_Namespaced = False, cmi_Metric = metric\<rparr>))"
| "custom_query [nss, ns, metrics, metric] sel =
     (if nss = ''namespaces'' \<and> metrics = ''metrics''
      then Some (object_query [] ns sel
        \<lparr>cmi_GroupResource = \<lparr>gr_Group = [], gr_Resource = ''namespaces''\<rparr>, cmi_Namespaced = False,
         cmi_Metric = metric\<rparr>)
      else None)"
| "custom_query [nss, ns, resource, name, metric] sel =
     (if nss = ''namespaces'' \<and> resource \<noteq> ''metrics'' \<and> resource \<notin> set namespaceSubresources
      then Some (object_query ns name sel
        \<lparr>cmi_GroupResource = ParseGroupResource resource, cmi_Namespaced = True, cmi_Metric = metric\<rparr>)
      else None)"
| "custom_query segs sel = None"

definition options_selector :: "list_options \<Rightarrow> label_selector" where
  "options_selector opts =
     (case lo_LabelSelector opts of None \<Rightarrow> labels_Everything | Some s \<Rightarrow> s)"

lemma run_object_query:
  "run_query prov (object_query ns name sel
      \<lparr>cmi_GroupResource = gr, cmi_Namespaced = (ns \<noteq> []), cmi_Metric = m\<rparr>) =
   (if name = ''*'' then handleWildcardOp prov ns gr sel m else handleIndividualOp prov ns gr name m)"
  by (auto simp: object_query_def handleWildcardOp_def handleIndividualOp_def split: result.splits)

text \<open>The handler on a request info that names an object, and on one that names none.\<close>

definition ctx_of :: "request_info \<Rightarrow> request_context" where
  "ctx_of ri = \<lparr>ctx_Namespace = Some (ri_Namespace ri), ctx_RequestInfo = Some ri\<rparr>"

text \<open>
  A query that selects no field: an empty query is decoded to options without a field selector, any other
  query without \<open>fieldSelector\<close> to the selector of everything.
\<close>

definition selects_no_field :: "list_options \<Rightarrow> bool" where
  "selects_no_field opts \<longleftrightarrow> lo_FieldSelector opts = None \<or> lo_FieldSelector opts = Some (AndTerm [])"

lemma ListResource_named:
  assumes "req_options req = Ok opts" and "selects_no_field opts" and "\<not> lo_Watch opts"
    and "ri_Name ri \<noteq> []"
  shows "ListResource scope list req \<lparr>ctx_Namespace = None, ctx_RequestInfo = Some ri\<rparr> =
    list (ctx_of ri) (Some (opts\<lparr>lo_FieldSelector := Some (HasTerm ''metadata.name'' (ri_Name ri))\<rparr>))"
  using assms
  by (cases opts) (auto simp: ListResource_def cbn_Namespace_def cbn_Name_def ctx_of_def Let_def selects_no_field_def)

lemma ListResource_unnamed:
  assumes "req_options req = Ok opts" and "selects_no_field opts" and "\<not> lo_Watch opts"
    and "ri_Name ri = []"
  shows "ListResource scope list req \<lparr>ctx_Namespace = None, ctx_RequestInfo = Some ri\<rparr> =
    list (ctx_of ri) (Some opts)"
  using assms
  by (cases opts) (auto simp: ListResource_def cbn_Namespace_def cbn_Name_def ctx_of_def Let_def selects_no_field_def)

text \<open>A list that is answered was asked for under the name of the request info, whatever the query selects.\<close>

lemma ListResource_answered:
  assumes "req_options req = Ok opts" and "ri_Name ri \<noteq> []"
    and "ListResource scope list req \<lparr>ctx_Namespace = None, ctx_RequestInfo = Some ri\<rparr> = Ok a"
  shows "\<exists>fs. RequiresExactMatch fs ''metadata.name'' = Some (ri_Name ri) \<and>
    list (ctx_of ri) (Some (opts\<lparr>lo_FieldSelector := Some fs\<rparr>)) = Ok a"
  using assms
  by (cases opts; cases "lo_FieldSelector opts")
    (auto simp: ListResource_def cbn_Namespace_def cbn_Name_def ctx_of_def Let_def
      split: result.splits if_splits, (rule exI [of _ "HasTerm ''metadata.name'' (ri_Name ri)"]; simp)+)

text \<open>The storage on a request info that names an object.\<close>

lemma REST_List_named:
  assumes "ri_Namespace ri = [] \<or> ri_Resource ri \<noteq> ''metrics''"
    and "RequiresExactMatch fs ''metadata.name'' = Some name"
  shows "REST_List prov (ctx_of ri) (Some (opts\<lparr>lo_FieldSelector := Some fs\<rparr>)) =
    run_query prov (object_query (ri_Namespace ri) name (options_selector opts)
      \<lparr>cmi_GroupResource = ParseGroupResource (ri_Resource ri),
       cmi_Namespaced = (ri_Namespace ri \<noteq> []), cmi_Metric = ri_Subresource ri\<rparr>)"
  using assms
  by (auto simp: REST_List_def ctx_of_def NamespaceValue_def options_selector_def run_object_query)

lemma REST_List_namespace_metric:
  assumes "ri_Namespace ri \<noteq> []" and "ri_Resource ri = ''metrics''"
    and "RequiresExactMatch fs ''metadata.name'' = Some name"
  shows "REST_List prov (ctx_of ri) (Some (opts\<lparr>lo_FieldSelector := Some fs\<rparr>)) =
    run_query prov (object_query [] (ri_Namespace ri) (options_selector opts)
      \<lparr>cmi_GroupResource = \<lparr>gr_Group = [], gr_Resource = ''namespaces''\<rparr>,
       cmi_Namespaced = False, cmi_Metric = name\<rparr>)"
  using assms run_object_query [of prov "[]" "ri_Namespace ri"]
  by (simp add: REST_List_def ctx_of_def NamespaceValue_def options_selector_def)

text \<open>A whole request of the custom metrics API.\<close>

definition serve_custom ::
  "list_scope \<Rightarrow> custom_metrics_provider \<Rightarrow> request_info_factory \<Rightarrow> http_request \<Rightarrow> metric_value_list option result" where
  "serve_custom scope prov r req = WithRequestInfo r (ListResource scope (REST_List prov)) req"

definition serve_external ::
  "list_scope \<Rightarrow> external_metrics_provider \<Rightarrow> request_info_factory \<Rightarrow> http_request \<Rightarrow> external_metric_value_list option result" where
  "serve_external scope prov r req = WithRequestInfo r (ListResource scope (external_List prov)) req"

lemma WithRequestInfo_api:
  assumes "serves_apis r" and "\<forall>s \<in> set (g # v # segs). segment s" and "segs \<noteq> []"
    and "hd segs \<notin> set specialVerbs"
  shows "WithRequestInfo r handler (api_request g v segs opts) =
    handler (api_request g v segs opts)
      \<lparr>ctx_Namespace = None,
       ctx_RequestInfo = Some (ri_without_name (api_request g v segs opts)
                                 (ri_parts (api_info g v segs) segs))\<rparr>"
  by (simp add: WithRequestInfo_def NewRequestInfo_api [OF assms])

lemma api_request_options [simp]: "req_options (api_request g v segs opts) = Ok opts"
  by (simp add: api_request_def)

text \<open>
  The three shapes as \<open>NewRequestInfo\<close> reads them: each names something, and a list under that name is the
  question of the path. What is named is the object, or the metric in the path of a metric of a namespace.
\<close>

fun path_name :: "string list \<Rightarrow> string" where
  "path_name [resource, name, metric] = name"
| "path_name [nss, ns, metrics, metric] = metric"
| "path_name [nss, ns, resource, name, metric] = name"
| "path_name segs = []"

fun_cases custom_query_SomeE: "custom_query segs sel = Some q"

lemma custom_request:
  assumes "serves_apis r" and "\<forall>s \<in> set (g # v # segs). segment s"
    and "hd segs \<notin> set specialVerbs" and "custom_query segs sel = Some q"
  shows "\<exists>ri. (\<forall>opts. NewRequestInfo r (api_request g v segs opts) = (ri, None)) \<and>
    ri_Name ri = path_name segs \<and> ri_Name ri \<noteq> [] \<and>
    (\<forall>prov opts fs. options_selector opts = sel \<longrightarrow> RequiresExactMatch fs ''metadata.name'' = Some (ri_Name ri) \<longrightarrow>
       REST_List prov (ctx_of ri) (Some (opts\<lparr>lo_FieldSelector := Some fs\<rparr>)) = run_query prov q)"
  using assms(4)
proof (rule custom_query_SomeE, goal_cases)
  case (1 resource name metric)
  let ?ri = "(api_info g v segs)\<lparr>ri_Parts := segs, ri_Resource := resource, ri_Subresource := metric, ri_Name := name\<rparr>"
  have "name \<noteq> []" "resource \<noteq> ''namespaces''" and q: "q = object_query [] name sel
      \<lparr>cmi_GroupResource = ParseGroupResource resource, cmi_Namespaced = False, cmi_Metric = metric\<rparr>"
    using assms(2) 1 by (auto simp: segment_def split: if_splits)
  then show ?case
    using NewRequestInfo_api [OF assms(1,2) _ assms(3)] REST_List_named [of ?ri] 1(1)
    by (intro exI [of _ ?ri]) (simp add: ri_parts_root, simp add: api_info_def)
next
  case (2 nss ns metrics metric)
  let ?ri = "(api_info g v segs)\<lparr>ri_Namespace := ns,
      ri_Parts := [''metrics'', metric], ri_Resource := ''metrics'', ri_Name := metric\<rparr>"
  have "metric \<noteq> []" "ns \<noteq> []" and eq: "nss = ''namespaces''" "metrics = ''metrics''"
    and q: "q = object_query [] ns sel \<lparr>cmi_GroupResource = \<lparr>gr_Group = [], gr_Resource = ''namespaces''\<rparr>,
        cmi_Namespaced = False, cmi_Metric = metric\<rparr>"
    using assms(2) 2 by (auto simp: segment_def split: if_splits)
  moreover have "''metrics'' \<notin> set namespaceSubresources" by (simp add: namespaceSubresources_def)
  ultimately show ?case
    using NewRequestInfo_api [OF assms(1,2) _ assms(3)] REST_List_namespace_metric [of ?ri] 2(1)
    by (intro exI [of _ ?ri]) (simp add: ri_parts_namespace_metric)
next
  case (3 nss ns resource name metric)
  let ?ri = "(api_info g v segs)\<lparr>ri_Namespace := ns,
      ri_Parts := [resource, name, metric], ri_Resource := resource, ri_Subresource := metric, ri_Name := name\<rparr>"
  have "name \<noteq> []" "ns \<noteq> []" and eq: "nss = ''namespaces''" "resource \<noteq> ''metrics''" "resource \<notin> set namespaceSubresources"
    and q: "q = object_query ns name sel
        \<lparr>cmi_GroupResource = ParseGroupResource resource, cmi_Namespaced = True, cmi_Metric = metric\<rparr>"
    using assms(2) 3 by (auto simp: segment_def split: if_splits)
  then show ?case
    using NewRequestInfo_api [OF assms(1,2) _ assms(3)] REST_List_named [of ?ri] 3(1)
    by (intro exI [of _ ?ri]) (simp add: ri_parts_namespaced)
qed

lemma custom_served:
  assumes "serves_apis r" and "\<forall>s \<in> set (g # v # segs). segment s"
    and "hd segs \<notin> set specialVerbs"
    and "selects_no_field opts" and "\<not> lo_Watch opts"
    and "custom_query segs (options_selector opts) = Some q"
  shows "serve_custom scope prov r (api_request g v segs opts) = run_query prov q"
proof -
  from custom_request [OF assms(1-3,6)] obtain ri where ri: "\<And>opts. NewRequestInfo r (api_request g v segs opts) = (ri, None)"
      "ri_Name ri \<noteq> []"
    and list: "\<And>prov fs. RequiresExactMatch fs ''metadata.name'' = Some (ri_Name ri) \<Longrightarrow>
       REST_List prov (ctx_of ri) (Some (opts\<lparr>lo_FieldSelector := Some fs\<rparr>)) = run_query prov q" by blast
  show ?thesis
    by (simp add: serve_custom_def WithRequestInfo_def ri
        ListResource_named [OF api_request_options assms(4,5) ri(2)] list)
qed

text \<open>Whatever the query selects or watches, what is answered is the answer to the question of the path.\<close>

lemma custom_answered:
  assumes "serves_apis r" and "\<forall>s \<in> set (g # v # segs). segment s"
    and "hd segs \<notin> set specialVerbs" and "custom_query segs (options_selector opts) = Some q"
    and "serve_custom scope prov r (api_request g v segs opts) = Ok a"
  shows "run_query prov q = Ok a"
proof -
  from custom_request [OF assms(1-4)] obtain ri where ri: "\<And>opts. NewRequestInfo r (api_request g v segs opts) = (ri, None)"
      "ri_Name ri \<noteq> []"
    and list: "\<And>prov fs. RequiresExactMatch fs ''metadata.name'' = Some (ri_Name ri) \<Longrightarrow>
       REST_List prov (ctx_of ri) (Some (opts\<lparr>lo_FieldSelector := Some fs\<rparr>)) = run_query prov q" by blast
  have "ListResource scope (REST_List prov) (api_request g v segs opts)
      \<lparr>ctx_Namespace = None, ctx_RequestInfo = Some ri\<rparr> = Ok a"
    using assms(5) by (simp add: serve_custom_def WithRequestInfo_def ri)
  from ListResource_answered [OF api_request_options ri(2) this] list show ?thesis by auto
qed

text \<open>The shapes that are read of one object.\<close>

lemma custom_namespaced_served:
  assumes "serves_apis r" and "\<forall>s \<in> set [g, v, ns, res, name, metric]. segment s"
    and "res \<notin> set namespaceSubresources" and "res \<noteq> ''metrics''"
    and "selects_no_field opts" and "\<not> lo_Watch opts"
  shows "serve_custom scope prov r (api_request g v [''namespaces'', ns, res, name, metric] opts) =
    run_query prov (object_query ns name (options_selector opts)
      \<lparr>cmi_GroupResource = ParseGroupResource res, cmi_Namespaced = True, cmi_Metric = metric\<rparr>)"
  by (rule custom_served) (use assms in \<open>simp_all add: segment_def specialVerbs_def\<close>)

lemma custom_namespace_metric_served:
  assumes "serves_apis r" and "\<forall>s \<in> set [g, v, ns, metric]. segment s"
    and "selects_no_field opts" and "\<not> lo_Watch opts"
  shows "serve_custom scope prov r (api_request g v [''namespaces'', ns, ''metrics'', metric] opts) =
    run_query prov (object_query [] ns (options_selector opts)
      \<lparr>cmi_GroupResource = \<lparr>gr_Group = [], gr_Resource = ''namespaces''\<rparr>,
       cmi_Namespaced = False, cmi_Metric = metric\<rparr>)"
  by (rule custom_served) (use assms in \<open>simp_all add: segment_def specialVerbs_def\<close>)


definition example_scope :: list_scope where
  "example_scope =
     \<lparr>ls_Resource = \<lparr>gvr_Group = ''custom.metrics.k8s.io'', gvr_Version = ''v1beta1'', gvr_Resource = ''*''\<rparr>,
      ls_ConvertFieldLabel = (\<lambda>f v. Ok (f, v))\<rparr>"

definition example_factory :: request_info_factory where
  "example_factory = \<lparr>APIPrefixes = [''api'', ''apis''], GrouplessAPIPrefixes = [''api'']\<rparr>"

lemma example_factory_serves [simp]: "serves_apis example_factory"
  by (simp add: example_factory_def serves_apis_def)

text \<open>What \<open>?labelSelector=app\%3Dweb\<close> is decoded to.\<close>

definition app_web :: label_selector where
  "app_web = \<lparr>sel_Matches = (\<lambda>ls. ls ''app'' = Some ''web''), sel_String = ''app=web''\<rparr>"

definition label_options :: list_options where
  "label_options = no_options\<lparr>lo_LabelSelector := Some app_web, lo_FieldSelector := Some (AndTerm [])\<rparr>"

lemma example_queries [simp]:
  "selects_no_field no_options" "\<not> lo_Watch no_options" "options_selector no_options = labels_Everything"
  "selects_no_field label_options" "\<not> lo_Watch label_options" "options_selector label_options = app_web"
  by (simp_all add: selects_no_field_def no_options_def label_options_def options_selector_def)


text \<open>
  Three segments that begin with \<open>namespaces\<close> are not read as the metric of a namespace: the request info
  takes the second for the namespace and the third for a resource.
\<close>

lemma three_segments_read:
  assumes "serves_apis r" and "\<forall>s \<in> set [g, v, ns, res]. segment s"
    and "res \<notin> set namespaceSubresources"
    and "selects_no_field opts" and "\<not> lo_Watch opts"
  shows "\<exists>ri. ri_Namespace ri = ns \<and> ri_Resource ri = res \<and> ri_Name ri = [] \<and> ri_Subresource ri = [] \<and>
    WithRequestInfo r (ListResource scope list) (api_request g v [''namespaces'', ns, res] opts) =
      list (ctx_of ri) (Some opts)"
proof -
  let ?ri = "(api_info g v [''namespaces'', ns, res])
      \<lparr>ri_Namespace := ns, ri_Parts := [res], ri_Resource := res, ri_Verb := ''list''\<rparr>"
  have "ri_without_name (api_request g v [''namespaces'', ns, res] opts)
      ((api_info g v [''namespaces'', ns, res])
        \<lparr>ri_Namespace := ns, ri_Parts := [res], ri_Resource := res\<rparr>) = ?ri"
    using assms(4,5) by (auto simp: ri_without_name_def api_info_def selects_no_field_def)
  moreover have "segment ''namespaces''" "''namespaces'' \<notin> set specialVerbs"
    by (simp_all add: segment_def specialVerbs_def)
  moreover have "ri_Name ?ri = []" by (simp add: api_info_def)
  ultimately have "WithRequestInfo r (ListResource scope list) (api_request g v [''namespaces'', ns, res] opts) =
      list (ctx_of ?ri) (Some opts)"
    using assms by (simp add: WithRequestInfo_api ri_parts_external ListResource_unnamed [OF api_request_options])
  then show ?thesis by (intro exI [of _ ?ri]) (simp add: api_info_def)
qed

lemma namespaces_root_misread:
  assumes "serves_apis r" and "\<forall>s \<in> set [g, v, ns, res]. segment s"
    and "res \<notin> set namespaceSubresources" and "res \<noteq> ''metrics''"
    and "selects_no_field opts" and "\<not> lo_Watch opts"
  shows "serve_custom scope prov r (api_request g v [''namespaces'', ns, res] opts) =
    GetMetricBySelector prov ns (options_selector opts)
      \<lparr>cmi_GroupResource = ParseGroupResource res, cmi_Namespaced = True, cmi_Metric = []\<rparr>"
proof -
  obtain ri where ri: "ri_Namespace ri = ns" "ri_Resource ri = res" "ri_Subresource ri = []"
    and served: "serve_custom scope prov r (api_request g v [''namespaces'', ns, res] opts) =
      REST_List prov (ctx_of ri) (Some opts)"
    using three_segments_read [OF assms(1-3,5,6), of scope "REST_List prov"] by (auto simp: serve_custom_def)
  have "ns \<noteq> []" using assms(2) by (simp add: segment_def)
  then show ?thesis
    using assms(4,5) unfolding served
    by (auto simp: REST_List_def ctx_of_def NamespaceValue_def options_selector_def handleWildcardOp_def ri
        selects_no_field_def)
qed

text \<open>
  C21: The path of the external API. For a metric not named \<open>status\<close> or \<open>finalize\<close> (which the request info
  reads as subresources of the namespace), in a path of segments, and a query that has no field selector
  and does not watch, the resource is the metric, the label selector of the query (everything when there is
  none) selects, and the namespace of the path is handed on.
\<close>

theorem external_path_served:
  assumes "serves_apis r" and "\<forall>s \<in> set [g, v, ns, metric]. segment s"
    and "metric \<notin> set namespaceSubresources"
    and "selects_no_field opts" and "\<not> lo_Watch opts"
  shows "serve_external scope prov r (api_request g v [''namespaces'', ns, metric] opts) =
    GetExternalMetric prov ns (options_selector opts) \<lparr>emi_Metric = metric\<rparr>"
proof -
  obtain ri where ri: "ri_Namespace ri = ns" "ri_Resource ri = metric"
    and served: "serve_external scope prov r (api_request g v [''namespaces'', ns, metric] opts) =
      external_List prov (ctx_of ri) (Some opts)"
    using three_segments_read [OF assms(1-5), of scope "external_List prov"] by (auto simp: serve_external_def)
  then show ?thesis
    by (simp add: external_List_def ctx_of_def NamespaceValue_def options_selector_def)
qed

theorem external_path_served_witness:
  "serve_external example_scope
     \<lparr>GetExternalMetric = (\<lambda>ns sel info. Err (OtherError (ns @ sel_String sel @ emi_Metric info))),
      ListAllExternalMetrics = []\<rparr> example_factory
     (api_request ''external.metrics.k8s.io'' ''v1beta1'' [''namespaces'', ''ns'', ''queue''] label_options)
   = Err (OtherError ''nsapp=webqueue'')"
  by (subst external_path_served) (simp_all add: segment_def namespaceSubresources_def app_web_def)

section \<open>Field selectors\<close>




section \<open>From discovery to a path\<close>

text \<open>
  The path of a published resource for one object: namespaced, the metric of a namespace, or
  root-scoped.
\<close>

definition read_path :: "api_resource \<Rightarrow> string \<Rightarrow> string \<Rightarrow> string list" where
  "read_path r ns name =
     (case split_byte (CHR ''/'') (res_Name r) of
        [resource, metric] \<Rightarrow>
          (if res_Namespaced r then [''namespaces'', ns, resource, name, metric]
           else if resource = ''namespaces'' then [''namespaces'', name, ''metrics'', metric]
           else [resource, name, metric])
      | _ \<Rightarrow> [])"

text \<open>The metrics such a path can name; a slash in the metric would add a segment.\<close>

definition readable_info :: "custom_metric_info \<Rightarrow> bool" where
  "readable_info i \<longleftrightarrow>
     publishable i \<and> segment (gr_String (cmi_GroupResource i)) \<and> segment (cmi_Metric i) \<and>
     (if cmi_Namespaced i
      then gr_String (cmi_GroupResource i) \<notin> set (''metrics'' # namespaceSubresources)
      else gr_String (cmi_GroupResource i) \<notin> set specialVerbs)"

lemma read_path_published:
  assumes "readable_info i"
  shows "read_path \<lparr>res_Name = gr_String (cmi_GroupResource i) @ CHR ''/'' # cmi_Metric i,
      res_SingularName = [], res_Namespaced = cmi_Namespaced i, res_Kind = k, res_Verbs = vs\<rparr> ns name =
    (if cmi_Namespaced i
     then [''namespaces'', ns, gr_String (cmi_GroupResource i), name, cmi_Metric i]
     else if gr_String (cmi_GroupResource i) = ''namespaces'' then [''namespaces'', name, ''metrics'', cmi_Metric i]
     else [gr_String (cmi_GroupResource i), name, cmi_Metric i])"
  using assms by (simp add: read_path_def readable_info_def segment_def)

lemma published_path_query:
  assumes "readable_info i"
  shows "custom_query (read_path \<lparr>res_Name = gr_String (cmi_GroupResource i) @ CHR ''/'' # cmi_Metric i,
      res_SingularName = [], res_Namespaced = cmi_Namespaced i, res_Kind = k, res_Verbs = vs\<rparr> ns name) sel =
    Some (object_query (if cmi_Namespaced i then ns else []) name sel i)"
proof -
  have "ParseGroupResource (gr_String (cmi_GroupResource i)) = cmi_GroupResource i"
    using assms by (simp add: readable_info_def publishable_def gr_String_roundtrip)
  moreover from this have "gr_String (cmi_GroupResource i) = ''namespaces'' \<Longrightarrow>
      cmi_GroupResource i = \<lparr>gr_Group = [], gr_Resource = ''namespaces''\<rparr>"
    using ParseGroupResource_simple [of "''namespaces''"] by simp
  ultimately show ?thesis
    using assms unfolding read_path_published [OF assms]
    by (cases i) (auto simp: readable_info_def)
qed

lemma published_path_segments:
  assumes "readable_info i" and "segment ns" and "segment name"
  shows "\<forall>s \<in> set (read_path \<lparr>res_Name = gr_String (cmi_GroupResource i) @ CHR ''/'' # cmi_Metric i,
      res_SingularName = [], res_Namespaced = cmi_Namespaced i, res_Kind = k, res_Verbs = vs\<rparr> ns name). segment s"
    and "hd (read_path \<lparr>res_Name = gr_String (cmi_GroupResource i) @ CHR ''/'' # cmi_Metric i,
      res_SingularName = [], res_Namespaced = cmi_Namespaced i, res_Kind = k, res_Verbs = vs\<rparr> ns name) \<notin> set specialVerbs"
  using assms unfolding read_path_published [OF assms(1)]
  by (auto simp: readable_info_def segment_def specialVerbs_def)

text \<open>
  C5: What discovery publishes can be read. For every metric a provider lists whose names can stand in
  a path, the path made from its published resource name and scope (with a query that has no field
  selector and does not watch) is served by asking the provider for exactly the listed metric, for the object of the path in the namespace of the path (in none when
  the metric is not namespaced).
\<close>

theorem discovered_metric_readable:
  assumes "serves_apis r" and "\<forall>s \<in> set [g, v, ns, name]. segment s"
    and "selects_no_field opts" and "\<not> lo_Watch opts"
    and "i < length (ListAllMetrics prov)" and "readable_info (ListAllMetrics prov ! i)"
  shows "serve_custom scope prov r
      (api_request g v (read_path (customMetrics_ListAPIResources prov ! i) ns name) opts) =
    run_query prov (object_query (if cmi_Namespaced (ListAllMetrics prov ! i) then ns else []) name
      (options_selector opts) (ListAllMetrics prov ! i))"
proof -
  let ?i = "ListAllMetrics prov ! i" and ?r = "customMetrics_ListAPIResources prov ! i"
  have r: "?r = \<lparr>res_Name = gr_String (cmi_GroupResource ?i) @ CHR ''/'' # cmi_Metric ?i,
      res_SingularName = [], res_Namespaced = cmi_Namespaced ?i, res_Kind = ''MetricValueList'', res_Verbs = [''get'']\<rparr>"
    using assms(5) by (simp add: customMetrics_ListAPIResources_def)
  have q: "custom_query (read_path ?r ns name) (options_selector opts) =
      Some (object_query (if cmi_Namespaced ?i then ns else []) name (options_selector opts) ?i)"
    unfolding r using published_path_query [OF assms(6)] .
  have "\<forall>s \<in> set (read_path ?r ns name). segment s"
    and "hd (read_path ?r ns name) \<notin> set specialVerbs"
    unfolding r using published_path_segments [OF assms(6), of ns name] assms(2) by simp_all
  then show ?thesis
    using assms(1-4) q by (simp add: custom_served)
qed

theorem discovered_metric_readable_witness:
  "read_path (customMetrics_ListAPIResources example_provider ! 2) ''ns'' ''prod''
     = [''namespaces'', ''prod'', ''metrics'', ''queue'']
   \<and> serve_custom example_scope example_provider example_factory
       (api_request ''custom.metrics.k8s.io'' ''v1beta1''
         (read_path (customMetrics_ListAPIResources example_provider ! 2) ''ns'' ''prod'') no_options)
     = Err (OtherError ''none'')"
proof -
  let ?r = "customMetrics_ListAPIResources example_provider ! 2"
  have i: "ListAllMetrics example_provider ! 2 = example_info ''namespaces'' False ''queue''"
    and len: "2 < length (ListAllMetrics example_provider)"
    by (simp_all add: example_provider_def)
  have ok: "readable_info (ListAllMetrics example_provider ! 2)"
    unfolding i by (simp add: readable_info_def example_info_def publishable_def segment_def
        gr_String_def specialVerbs_def)
  have path: "read_path ?r ''ns'' ''prod'' = [''namespaces'', ''prod'', ''metrics'', ''queue'']"
    by (simp add: read_path_def customMetrics_ListAPIResources_def example_provider_def example_info_def
        gr_String_def)
  have "serve_custom example_scope example_provider example_factory
       (api_request ''custom.metrics.k8s.io'' ''v1beta1'' (read_path ?r ''ns'' ''prod'') no_options)
     = run_query example_provider (object_query [] ''prod'' labels_Everything (example_info ''namespaces'' False ''queue''))"
    using discovered_metric_readable [OF example_factory_serves _ _ _ len ok,
        of "''custom.metrics.k8s.io''" "''v1beta1''" "''ns''" "''prod''" no_options example_scope]
    by (simp add: segment_def i example_info_def)
  then show ?thesis using path by (simp add: object_query_def example_provider_def)
qed

section \<open>What any provider guarantees\<close>

text \<open>The values that answer a question.\<close>

fun answers :: "metric_query \<Rightarrow> metric_value \<Rightarrow> bool" where
  "answers (ByName nn info) v = describes v nn (cmi_Metric info)"
| "answers (BySelector ns sel info) v =
     (mi_Name (mv_Metric v) = cmi_Metric info \<and> or_Namespace (mv_DescribedObject v) = ns)"

text \<open>The provider was asked and did not panic.\<close>

fun query_returns :: "custom_metrics_provider \<Rightarrow> metric_query \<Rightarrow> bool" where
  "query_returns prov (ByName nn info) = (\<not> aborts (GetMetricByName prov nn info))"
| "query_returns prov (BySelector ns sel info) = (\<not> aborts (GetMetricBySelector prov ns sel info))"

context custom_provider begin

lemma query_answered:
  "run_query prov q = Ok a \<Longrightarrow> \<exists>l. a = Some l \<and> (\<forall>v \<in> set (mvl_Items l). answers q v)"
  by (cases q) (auto simp: describes_def dest!: by_name dest: by_selector)

lemma query_no_new_panic:
  "query_returns prov q \<Longrightarrow> \<not> aborts (run_query prov q)"
proof (cases q)
  case (ByName nn info)
  moreover assume "query_returns prov q"
  ultimately show ?thesis
    by (cases "GetMetricByName prov nn info") (auto dest!: by_name)
qed simp

end

end
