(* ===== verification/Testing_Correct.thy ===== *)
theory Testing_Correct
  imports Testing_Provider Metrics_Rest
begin

text \<open>
  What the sample provider does: writes against reads, the values selected and listed, the external
  metrics, and the interpretation of the provider interfaces. The stored map is seen as the partial
  function \<open>stored\<close> of the key (info after normalisation, name of the object).
\<close>

definition stored :: "testing_provider \<Rightarrow> custom_metric_info \<Rightarrow> namespaced_name \<Rightarrow> quantity option" where
  "stored p info nn = go_get (tp_values p) \<lparr>cmr_CustomMetricInfo = info, cmr_NamespacedName = nn\<rparr>"

section \<open>Writes\<close>

lemma updateMetric_frame [simp]:
  "tp_mapper (fst (updateMetric params entity p)) = tp_mapper p"
  "tp_client (fst (updateMetric params entity p)) = tp_client p"
  "tp_externalMetrics (fst (updateMetric params entity p)) = tp_externalMetrics p"
  by (auto simp: updateMetric_def Let_def split: result.splits prod.splits)

lemma updateMetric_accepts:
  assumes "Normalized (write_info params) (tp_mapper p) = (winfo, r)" and "\<not> aborts r"
  shows "updateMetric params (Ok v) p =
    (p\<lparr>tp_values := go_put \<lparr>cmr_CustomMetricInfo = winfo, cmr_NamespacedName = write_name params\<rparr> v
                     (tp_values p)\<rparr>, Accepted)"
  using assms by (cases r) (simp_all add: updateMetric_def Let_def)

lemma stored_updateMetric:
  assumes "updateMetric params entity p = (p', Accepted)"
  shows "\<exists>v. entity = Ok v \<and>
    stored p' i nn = (if i = fst (Normalized (write_info params) (tp_mapper p)) \<and> nn = write_name params
                      then Some v else stored p i nn)"
  using assms
  by (auto simp: updateMetric_def Let_def stored_def split: result.splits prod.splits)

lemma updateMetric_rejects:
  "snd (updateMetric params entity p) \<noteq> Accepted \<Longrightarrow> fst (updateMetric params entity p) = p"
  by (auto simp: updateMetric_def Let_def split: result.splits prod.splits)

lemma go_map_wf_updateMetric:
  "go_map_wf (tp_values p) \<Longrightarrow> go_map_wf (tp_values (fst (updateMetric params entity p)))"
  by (auto simp: updateMetric_def Let_def split: result.splits prod.splits)

section \<open>Reads\<close>

lemma valueFor_normalized:
  assumes "Normalized info (tp_mapper p) = (info', Ok s)"
  shows "valueFor p info nn =
    (case stored p info' nn of
       None \<Rightarrow> Err (NewMetricNotFoundForError (cmi_GroupResource info') (cmi_Metric info') (nn_Name nn))
     | Some v \<Rightarrow> Ok v)"
  using assms by (simp add: valueFor_def stored_def Let_def)

lemma valueFor_stored_cong:
  assumes "tp_mapper p' = tp_mapper p"
    and "\<And>s. snd (Normalized info (tp_mapper p)) = Ok s \<Longrightarrow>
      stored p' (fst (Normalized info (tp_mapper p))) nn
        = stored p (fst (Normalized info (tp_mapper p))) nn"
  shows "valueFor p' info nn = valueFor p info nn"
  using assms by (auto simp: valueFor_def stored_def Let_def split: result.splits prod.splits)

lemma metricFor_everything:
  "metricFor env p k v nn labels_Everything info =
     bind_result (ReferenceFor (tp_mapper p) nn info)
       (\<lambda>objRef. Ok (Some \<lparr>mv_DescribedObject = objRef,
          mv_Metric = \<lparr>mi_Name = cmi_Metric info, mi_Selector = None\<rparr>,
          mv_Timestamp = env_now env k, mv_WindowSeconds = None, mv_Value = v\<rparr>))"
  by (simp add: metricFor_def labels_Everything_def Let_def split: result.splits)

lemma metricFor_Ok:
  assumes "metricFor env p k v nn sel info = Ok m"
  shows "\<exists>mv. m = Some mv \<and> describes mv nn (cmi_Metric info) \<and> mv_Value mv = v"
  using assms
  by (auto simp: metricFor_def describes_def Let_def ReferenceFor_fields
      split: result.splits if_splits)

lemma written_value_read:
  assumes "Normalized (write_info params) (tp_mapper p) = (winfo, r)" and "\<not> aborts r"
    and "Normalized info (tp_mapper p) = (winfo, Ok s)"
    and "ReferenceFor (tp_mapper p) (write_name params) info = Ok ref"
    and "updateMetric params (Ok v) p = (p', response)"
  shows "response = Accepted \<and>
    testing_GetMetricByName env p' (write_name params) info
      = Ok (Some \<lparr>mv_DescribedObject = ref,
                  mv_Metric = \<lparr>mi_Name = cmi_Metric info, mi_Selector = None\<rparr>,
                  mv_Timestamp = env_now env 0, mv_WindowSeconds = None, mv_Value = v\<rparr>)"
proof -
  have p': "p' = p\<lparr>tp_values := go_put \<lparr>cmr_CustomMetricInfo = winfo,
      cmr_NamespacedName = write_name params\<rparr> v (tp_values p)\<rparr>" and acc: "response = Accepted"
    using assms updateMetric_accepts by simp_all
  have "valueFor p' info (write_name params) = Ok v"
    using assms(3) by (simp add: p' valueFor_def Let_def)
  then show ?thesis
    using acc assms(4) by (simp add: testing_GetMetricByName_def metricFor_everything p')
qed

text \<open>
  A value written is the value read. After an accepted write, reading by name with any info that
  normalises to the same identity (for example the plural for the singular form) returns exactly one
  metric value: the quantity written, for the metric asked for, describing the object written to, with
  no selector, at the time of the request.
\<close>

lemma write_then_read:
  assumes "Normalized (write_info params) (tp_mapper p) = (winfo, r)" and "\<not> aborts r"
    and "Normalized info (tp_mapper p) = (winfo, Ok s)"
    and "ReferenceFor (tp_mapper p) (write_name params) info = Ok ref"
    and "updateMetric params (Ok v) p = (p', response)"
  shows "response = Accepted \<and>
    testing_GetMetricByName env p' (write_name params) info
      = Ok (Some \<lparr>mv_DescribedObject = ref,
                  mv_Metric = \<lparr>mi_Name = cmi_Metric info, mi_Selector = None\<rparr>,
                  mv_Timestamp = env_now env 0, mv_WindowSeconds = None, mv_Value = v\<rparr>)"
  using assms by (rule written_value_read)

definition example_env :: request_env where
  "example_env = \<lparr>env_now = (\<lambda>k. 1000 + int k),
     env_ParseToLabelSelector = (\<lambda>s. Ok \<lparr>mls_MatchLabels = [], mls_MatchExpressions = []\<rparr>)\<rparr>"

definition example_client :: dynamic_client where
  "example_client res ns sel = Ok (Some \<lparr>ul_Items = map (\<lambda>n. \<lparr>un_Name = n\<rparr>) [''a'', ''web'', ''c'']\<rparr>)"

definition example_testing :: testing_provider where
  "example_testing = fst (NewFakeProvider example_client example_mapper)"

definition pod_params :: "(string, string) go_map" where
  "pod_params = [(''namespace'', ''ns''), (''resourceType'', ''pod''), (''name'', ''web''),
                 (''metric'', ''m'')]"

abbreviation q300 :: quantity where
  "q300 \<equiv> \<lparr>q_Value = 300, q_Scale = -3, q_Format = ''DecimalSI''\<rparr>"

lemma example_testing_simps [simp]:
  "tp_mapper example_testing = example_mapper"
  "tp_client example_testing = example_client"
  "tp_values example_testing = []"
  "tp_externalMetrics example_testing = testingExternalMetrics"
  by (simp_all add: example_testing_def NewFakeProvider_def)

lemma pod_params_simps:
  "write_info pod_params = example_info ''pod'' True ''m''"
  "write_name pod_params = \<lparr>nn_Namespace = ''ns'', nn_Name = ''web''\<rparr>"
  by (simp_all add: write_info_def write_name_def pod_params_def path_parameter_def example_info_def)

lemma example_Normalized:
  "Normalized (example_info ''pod'' True m) example_mapper = (example_info ''pods'' True m, Ok ''pod'')"
  "Normalized (example_info ''pods'' True m) example_mapper = (example_info ''pods'' True m, Ok ''pod'')"
  by (simp_all add: Normalized_def example_mapper_simps gvr_GroupResource_def)

lemma example_ReferenceFor:
  "ReferenceFor example_mapper nn (example_info ''pods'' True m)
     = Ok (zero_object_reference \<lparr>or_Kind := ''Pod'', or_Namespace := nn_Namespace nn,
         or_Name := nn_Name nn, or_APIVersion := ''/v1''\<rparr>)"
  by (simp add: ReferenceFor_def example_mapper_simps)

lemma write_then_read_witness:
  "snd (updateMetric pod_params (Ok q300) example_testing) = Accepted \<and>
   (\<exists>mv. testing_GetMetricByName example_env (fst (updateMetric pod_params (Ok q300) example_testing))
          \<lparr>nn_Namespace = ''ns'', nn_Name = ''web''\<rparr> (example_info ''pods'' True ''m'') = Ok (Some mv) \<and>
        mv_Value mv = q300 \<and> mv_Timestamp mv = 1000)"
proof -
  note step = write_then_read [of pod_params example_testing "example_info ''pods'' True ''m''" "Ok ''pod''"
      "example_info ''pods'' True ''m''" "''pod''" _ q300
      "fst (updateMetric pod_params (Ok q300) example_testing)"
      "snd (updateMetric pod_params (Ok q300) example_testing)" example_env]
  show ?thesis
    using step [unfolded pod_params_simps, simplified, OF example_Normalized example_ReferenceFor]
    by (simp add: pod_params_simps example_env_def)
qed

text \<open>
  C22: A write touches one identity only. A rejected write (unreadable body, or a panic) changes
  nothing; an accepted one changes neither the value read for an info that normalises differently nor
  the value read for another object.
\<close>

theorem write_frame:
  assumes "updateMetric params entity p = (p', response)"
    and "response \<noteq> Accepted \<or>
         fst (Normalized info (tp_mapper p)) \<noteq> fst (Normalized (write_info params) (tp_mapper p)) \<or>
         nn \<noteq> write_name params"
  shows "valueFor p' info nn = valueFor p info nn"
proof (cases "response = Accepted")
  case True
  have "tp_mapper p' = tp_mapper p"
    using updateMetric_frame(1) [of params entity p] assms(1) by simp
  moreover have "stored p' (fst (Normalized info (tp_mapper p))) nn
      = stored p (fst (Normalized info (tp_mapper p))) nn"
    using stored_updateMetric [OF assms(1) [unfolded True], of "fst (Normalized info (tp_mapper p))" nn]
      assms(2) True by auto
  ultimately show ?thesis by (rule valueFor_stored_cong)
next
  case False
  then show ?thesis
    using updateMetric_rejects [of params entity p] assms(1) by simp
qed

theorem write_frame_witness:
  "valueFor (fst (updateMetric pod_params (Ok q300) example_testing)) (example_info ''pods'' True ''m'')
      \<lparr>nn_Namespace = ''ns'', nn_Name = ''other''\<rparr>
    = valueFor example_testing (example_info ''pods'' True ''m'') \<lparr>nn_Namespace = ''ns'', nn_Name = ''other''\<rparr>"
  using write_frame [of pod_params "Ok q300" example_testing
      "fst (updateMetric pod_params (Ok q300) example_testing)"
      "snd (updateMetric pod_params (Ok q300) example_testing)" "example_info ''pods'' True ''m''"
      "\<lparr>nn_Namespace = ''ns'', nn_Name = ''other''\<rparr>"]
  by (simp add: pod_params_simps)

section \<open>Writes that cannot be read\<close>

text \<open>
  C35: A write whose resource the REST mapper does not know is accepted all the same: the metric shows
  up in the list of all metrics under the resource as written, and reading it back always fails with
  the mapper's error.
\<close>

theorem unknown_resource_accepted:
  assumes fails: "rm_ResourceFor (tp_mapper p)
        (WithVersion (cmi_GroupResource (write_info params)) []) = Err e"
    and upd: "updateMetric params (Ok v) p = (p', response)"
    and order: "\<And>xs. mset (order xs) = mset xs"
  shows "response = Accepted \<and>
         write_info params \<in> set (testing_ListAllMetrics order p') \<and>
         testing_GetMetricByName env p' nn (write_info params) = Err e"
proof -
  have norm: "Normalized (write_info params) (tp_mapper p) = (write_info params, Err e)"
    using fails by (rule Normalized_ResourceFor_fails)
  then have p': "p' = p\<lparr>tp_values := go_put \<lparr>cmr_CustomMetricInfo = write_info params,
      cmr_NamespacedName = write_name params\<rparr> v (tp_values p)\<rparr>" and acc: "response = Accepted"
    using updateMetric_accepts upd by simp_all
  have "write_info params \<in> set (testing_ListAllMetrics order p')"
    by (auto simp: testing_ListAllMetrics_def Let_def foldl_snoc set_order [OF order]
        set_go_keys_foldl_put p' image_iff)
  moreover have "testing_GetMetricByName env p' nn (write_info params) = Err e"
    using norm by (simp add: testing_GetMetricByName_def valueFor_def p')
  ultimately show ?thesis using acc by simp
qed

definition flunder_params :: "(string, string) go_map" where
  "flunder_params = [(''resourceType'', ''flunders''), (''name'', ''f''), (''metric'', ''m'')]"

theorem unknown_resource_accepted_witness:
  "snd (updateMetric flunder_params (Ok q300) example_testing) = Accepted \<and>
   testing_GetMetricByName example_env (fst (updateMetric flunder_params (Ok q300) example_testing))
     \<lparr>nn_Namespace = [], nn_Name = ''f''\<rparr> (write_info flunder_params)
     = Err (OtherError ''no matches for resource'')"
proof -
  have fails: "rm_ResourceFor (tp_mapper example_testing)
      (WithVersion (cmi_GroupResource (write_info flunder_params)) [])
      = Err (OtherError ''no matches for resource'')"
    by (simp add: write_info_def flunder_params_def path_parameter_def example_mapper_simps Let_def)
  show ?thesis
    using unknown_resource_accepted [OF fails surjective_pairing, of "\<lambda>xs. xs" q300 example_env]
    by simp
qed


lemma plural_namespaces_frame:
  assumes "path_parameter params ''resourceType'' = ''namespaces''"
    and "updateMetric params entity p = (p', response)"
    and "\<not> cmi_Namespaced info"
  shows "valueFor p' info nn = valueFor p info nn"
proof -
  have frame: "tp_mapper p' = tp_mapper p"
    using updateMetric_frame(1) [of params entity p] assms(2) by simp
  have "cmi_Namespaced (write_info params)"
    using assms(1) by (simp add: write_info_def Let_def)
  then have ne: "fst (Normalized info (tp_mapper p)) \<noteq> fst (Normalized (write_info params) (tp_mapper p))"
    using assms(3) by (metis Normalized_keeps(2))
  have "stored p' (fst (Normalized info (tp_mapper p))) nn
      = stored p (fst (Normalized info (tp_mapper p))) nn"
  proof (cases "response = Accepted")
    case True
    then show ?thesis
      using stored_updateMetric [of params entity p p' "fst (Normalized info (tp_mapper p))" nn]
        assms(2) ne by auto
  next
    case False
    then show ?thesis using updateMetric_rejects [of params entity p] assms(2) by simp
  qed
  with frame show ?thesis by (rule valueFor_stored_cong)
qed

section \<open>Values by selector\<close>

text \<open>The objects of a listing that have a value, with it.\<close>

definition stored_values ::
  "testing_provider \<Rightarrow> custom_metric_info \<Rightarrow> string \<Rightarrow> string list \<Rightarrow> (string \<times> quantity) list" where
  "stored_values p info ns names =
     List.map_filter (\<lambda>n. map_option (\<lambda>v. (n, v)) (stored p info \<lparr>nn_Namespace = ns, nn_Name = n\<rparr>)) names"

text \<open>The metric value the API promises for one of them.\<close>

definition selected_value ::
  "request_env \<Rightarrow> group_version_kind \<Rightarrow> string \<Rightarrow> meta_label_selector option \<Rightarrow> custom_metric_info \<Rightarrow>
   nat \<Rightarrow> string \<times> quantity \<Rightarrow> metric_value" where
  "selected_value env kind ns sel info k = (\<lambda>(n, v).
     \<lparr>mv_DescribedObject = zero_object_reference
        \<lparr>or_APIVersion := gvk_Group kind @ ''/'' @ gvk_Version kind, or_Kind := gvk_Kind kind,
         or_Name := n, or_Namespace := ns\<rparr>,
      mv_Metric = \<lparr>mi_Name = cmi_Metric info, mi_Selector = sel\<rparr>,
      mv_Timestamp = env_now env k, mv_WindowSeconds = None, mv_Value = v\<rparr>)"

definition parsed_selector ::
  "request_env \<Rightarrow> label_selector \<Rightarrow> meta_label_selector option result" where
  "parsed_selector env sel =
     (if sel_String sel = [] then Ok None
      else bind_result (env_ParseToLabelSelector env (sel_String sel)) (\<lambda>s. Ok (Some s)))"

lemma metricFor_selected:
  assumes "rm_KindFor (tp_mapper p) (WithVersion (cmi_GroupResource info) []) = Ok kind"
    and "parsed_selector env sel = Ok ls"
  shows "metricFor env p k v \<lparr>nn_Namespace = ns, nn_Name = n\<rparr> sel info
    = Ok (Some (selected_value env kind ns ls info k (n, v)))"
  using assms
  by (auto simp: metricFor_def ReferenceFor_def selected_value_def parsed_selector_def Let_def
      split: if_splits)

lemma metrics_loop_selected:
  assumes "Normalized info (tp_mapper p) = (info', Ok s)"
    and "rm_KindFor (tp_mapper p) (WithVersion (cmi_GroupResource info) []) = Ok kind"
    and "parsed_selector env sel = Ok ls"
  shows "metrics_loop env p ns sel info names res =
    Ok (res @ map (\<lambda>(k, x). selected_value env kind ns ls info k x)
                (enumerate (length res) (stored_values p info' ns names)))"
proof (induction names arbitrary: res)
  case Nil
  then show ?case by (simp add: stored_values_def List.map_filter_def)
next
  case (Cons n names)
  show ?case
  proof (cases "stored p info' \<lparr>nn_Namespace = ns, nn_Name = n\<rparr>")
    case None
    then show ?thesis
      using Cons.IH [of res] assms(1)
      by (simp add: valueFor_normalized stored_values_def List.map_filter_def)
  next
    case (Some v)
    then show ?thesis
      using Cons.IH [of "res @ [selected_value env kind ns ls info (length res) (n, v)]"] assms
      by (simp add: valueFor_normalized metricFor_selected stored_values_def List.map_filter_def)
  qed
qed

text \<open>
  C16: A query by selector returns, for exactly those objects the cluster lists for it (in its order)
  that have a stored value under the normalised identity, that value with a reference to the object,
  the metric name asked for, the parsed selector (none for the empty one) and its own time stamp.
  Objects without a value are skipped, without an error.
\<close>

theorem values_by_selector:
  assumes "Normalized info (tp_mapper p) = (info', Ok s)"
    and "rm_KindFor (tp_mapper p) (WithVersion (cmi_GroupResource info) []) = Ok kind"
    and "parsed_selector env sel = Ok ls"
    and "ListObjectNames (tp_mapper p) (tp_client p) ns sel info = Ok names"
  shows "testing_GetMetricBySelector env p ns sel info =
    Ok (Some \<lparr>mvl_Items = map (\<lambda>(k, x). selected_value env kind ns ls info k x)
                (enumerate 0 (stored_values p info' ns names))\<rparr>)"
  using metrics_loop_selected [OF assms(1-3), of ns names "[]"] assms(4)
  by (simp add: testing_GetMetricBySelector_def metricsFor_def)

theorem values_by_selector_witness:
  "\<exists>p' items. updateMetric pod_params (Ok q300) example_testing = (p', Accepted) \<and>
     testing_GetMetricBySelector example_env p' ''ns'' (labels_equals ''app'' ''x'')
       (example_info ''pods'' True ''m'') = Ok (Some \<lparr>mvl_Items = items\<rparr>) \<and>
     map (\<lambda>v. (or_Name (mv_DescribedObject v), mv_Value v)) items = [(''web'', q300)]"
proof -
  let ?info = "example_info ''pods'' True ''m''" and ?sel = "labels_equals ''app'' ''x''"
  let ?p = "fst (updateMetric pod_params (Ok q300) example_testing)"
  have upd: "updateMetric pod_params (Ok q300) example_testing
    = (example_testing\<lparr>tp_values := [(\<lparr>cmr_CustomMetricInfo = ?info,
          cmr_NamespacedName = \<lparr>nn_Namespace = ''ns'', nn_Name = ''web''\<rparr>\<rparr>, q300)]\<rparr>, Accepted)"
    by (simp add: updateMetric_accepts pod_params_simps example_Normalized go_put_def)
  have norm: "Normalized ?info (tp_mapper ?p) = (?info, Ok ''pod'')"
    by (simp add: example_Normalized)
  have kind: "rm_KindFor (tp_mapper ?p) (WithVersion (cmi_GroupResource ?info) [])
      = Ok \<lparr>gvk_Group = [], gvk_Version = ''v1'', gvk_Kind = ''Pod''\<rparr>"
    by (simp add: example_mapper_simps)
  have parsed: "parsed_selector example_env ?sel
      = Ok (Some \<lparr>mls_MatchLabels = [], mls_MatchExpressions = []\<rparr>)"
    by (simp add: parsed_selector_def example_env_def labels_equals_def)
  have names: "ListObjectNames (tp_mapper ?p) (tp_client ?p) ''ns'' ?sel ?info = Ok [''a'', ''web'', ''c'']"
    by (rule ListObjectNames_Ok [where l = "\<lparr>ul_Items = map (\<lambda>n. \<lparr>un_Name = n\<rparr>) [''a'', ''web'', ''c'']\<rparr>",
          simplified]) (simp_all add: example_mapper_simps example_client_def)
  have vals: "stored_values ?p ?info ''ns'' [''a'', ''web'', ''c''] = [(''web'', q300)]"
    by (simp add: upd stored_values_def List.map_filter_def stored_def)
  show ?thesis
    using upd values_by_selector [OF norm kind parsed names] unfolding vals
    by (simp add: selected_value_def)
qed


text \<open>
  C20: The listing that discovery publishes names each stored identity once, and only those: whatever
  order the runtime visits the map in, the result has no duplicates, and an info is in it exactly when
  some object has a value stored under it.
\<close>

theorem ListAllMetrics_exact:
  assumes order: "\<And>xs. mset (order xs) = mset xs"
  shows "distinct (testing_ListAllMetrics order p) \<and>
         (i \<in> set (testing_ListAllMetrics order p) \<longleftrightarrow> (\<exists>nn v. stored p i nn = Some v))"
proof -
  let ?infos = "foldl (\<lambda>m r. go_put (cmr_CustomMetricInfo r) () m) [] (go_keys (tp_values p))"
  have eq: "testing_ListAllMetrics order p = order (go_keys ?infos)"
    using foldl_snoc [of "\<lambda>i. i" "[]" "order (go_keys ?infos)"]
    by (simp add: testing_ListAllMetrics_def)
  have "go_map_wf ?infos" by (rule go_map_wf_foldl_put) simp
  then have "distinct (testing_ListAllMetrics order p)"
    by (simp add: eq distinct_order [OF order] go_map_wf_def)
  moreover have "i \<in> set (testing_ListAllMetrics order p)
      \<longleftrightarrow> (\<exists>r \<in> dom (go_get (tp_values p)). i = cmr_CustomMetricInfo r)"
    by (auto simp: eq set_order [OF order] set_go_keys_foldl_put set_go_keys [of "tp_values p"])
  moreover have "(\<exists>r \<in> dom (go_get (tp_values p)). i = cmr_CustomMetricInfo r)
      \<longleftrightarrow> (\<exists>nn v. stored p i nn = Some v)"
  proof
    assume "\<exists>r \<in> dom (go_get (tp_values p)). i = cmr_CustomMetricInfo r"
    then obtain r v where "go_get (tp_values p) r = Some v" "i = cmr_CustomMetricInfo r" by auto
    then have "stored p i (cmr_NamespacedName r) = Some v" by (cases r) (simp add: stored_def)
    then show "\<exists>nn v. stored p i nn = Some v" by blast
  next
    assume "\<exists>nn v. stored p i nn = Some v"
    then obtain nn v
      where "go_get (tp_values p) \<lparr>cmr_CustomMetricInfo = i, cmr_NamespacedName = nn\<rparr> = Some v"
      by (auto simp: stored_def)
    then have "\<lparr>cmr_CustomMetricInfo = i, cmr_NamespacedName = nn\<rparr> \<in> dom (go_get (tp_values p))"
      by (rule domI)
    then show "\<exists>r \<in> dom (go_get (tp_values p)). i = cmr_CustomMetricInfo r"
      by (rule rev_bexI) simp
  qed
  ultimately show ?thesis by simp
qed

theorem ListAllMetrics_exact_witness:
  "example_info ''pods'' True ''m''
     \<in> set (testing_ListAllMetrics rev (fst (updateMetric pod_params (Ok q300) example_testing)))"
proof -
  have "stored (fst (updateMetric pod_params (Ok q300) example_testing)) (example_info ''pods'' True ''m'')
      \<lparr>nn_Namespace = ''ns'', nn_Name = ''web''\<rparr> = Some q300"
    by (simp add: updateMetric_accepts pod_params_simps example_Normalized stored_def)
  then show ?thesis
    using ListAllMetrics_exact [of rev "fst (updateMetric pod_params (Ok q300) example_testing)"
        "example_info ''pods'' True ''m''"] by auto
qed

section \<open>External metrics\<close>

text \<open>The entries of the table a query selects.\<close>

definition external_matches ::
  "label_selector \<Rightarrow> external_metric_info \<Rightarrow> external_metric list \<Rightarrow> external_metric list" where
  "external_matches sel info =
     filter (\<lambda>m. emi_Metric (em_info m) = emi_Metric info \<and> sel_Matches sel (map_of (em_labels m)))"

lemma external_loop_filter:
  "external_loop env sel info ms acc =
     acc @ map (\<lambda>(k, m). em_value m\<lparr>emv_Timestamp := env_now env k\<rparr>)
             (enumerate (length acc) (external_matches sel info ms))"
  by (induction ms arbitrary: acc) (simp_all add: external_matches_def)

text \<open>The table is coherent: an entry's value carries its name and its labels.\<close>

definition external_wf :: "external_metric list \<Rightarrow> bool" where
  "external_wf ms \<longleftrightarrow>
     (\<forall>m \<in> set ms. emv_MetricName (em_value m) = emi_Metric (em_info m) \<and>
                   emv_MetricLabels (em_value m) = em_labels m)"

lemma testingExternalMetrics_wf: "external_wf testingExternalMetrics"
  by (simp add: external_wf_def testingExternalMetrics_def)

text \<open>
  C31: An external query never fails and answers exactly the table entries of that name whose labels
  match the selector, in the table's order, each stamped with the time it was made; the namespace is
  ignored.
\<close>

theorem GetExternalMetric_selects:
  "testing_GetExternalMetric env p ns sel info =
     Ok (Some \<lparr>emvl_Items = map (\<lambda>(k, m). em_value m\<lparr>emv_Timestamp := env_now env k\<rparr>)
                 (enumerate 0 (external_matches sel info (tp_externalMetrics p)))\<rparr>)"
  by (simp add: testing_GetExternalMetric_def external_loop_filter)

lemma testing_ListAllExternalMetrics_map:
  "testing_ListAllExternalMetrics p = map em_info (tp_externalMetrics p)"
  by (simp add: testing_ListAllExternalMetrics_def foldl_snoc)

section \<open>The provider interfaces\<close>

lemma metrics_loop_describes:
  "metrics_loop env p ns sel info names res = Ok vs \<Longrightarrow>
   \<forall>v \<in> set res. \<exists>n. describes v \<lparr>nn_Namespace = ns, nn_Name = n\<rparr> (cmi_Metric info) \<Longrightarrow>
   \<forall>v \<in> set vs. \<exists>n. describes v \<lparr>nn_Namespace = ns, nn_Name = n\<rparr> (cmi_Metric info)"
proof (induction names arbitrary: res)
  case Nil
  then show ?case by simp
next
  case (Cons n names)
  show ?case
  proof (cases "valueFor p info \<lparr>nn_Namespace = ns, nn_Name = n\<rparr>")
    case (Ok w)
    with Cons.prems(1) obtain m where m:
      "metricFor env p (length res) w \<lparr>nn_Namespace = ns, nn_Name = n\<rparr> sel info = Ok m"
      by (auto simp: Let_def split: result.splits)
    then obtain v where v: "m = Some v"
      "describes v \<lparr>nn_Namespace = ns, nn_Name = n\<rparr> (cmi_Metric info)"
      by (blast dest: metricFor_Ok)
    with Ok m Cons.prems have "metrics_loop env p ns sel info names (res @ [v]) = Ok vs" by simp
    moreover have "\<forall>w \<in> set (res @ [v]). \<exists>n. describes w \<lparr>nn_Namespace = ns, nn_Name = n\<rparr> (cmi_Metric info)"
      using Cons.prems(2) v(2) by auto
    ultimately show ?thesis by (rule Cons.IH)
  next
    case (Err e)
    with Cons.prems(1) have "metrics_loop env p ns sel info names res = Ok vs"
      by (simp split: if_splits)
    then show ?thesis using Cons.prems(2) by (rule Cons.IH)
  next
    case (Abort e)
    with Cons.prems(1) show ?thesis by simp
  qed
qed

interpretation tprov: custom_provider "as_custom_provider env order p"
proof (unfold_locales, goal_cases)
  case (1 nn info q)
  then show ?case
    by (auto simp: as_custom_provider_def testing_GetMetricByName_def split: result.splits
        dest: metricFor_Ok)
next
  case (2 ns sel info q)
  then obtain names vs where
    "metrics_loop env p ns sel info names [] = Ok vs" and q: "q = Some \<lparr>mvl_Items = vs\<rparr>"
    by (auto simp: as_custom_provider_def testing_GetMetricBySelector_def metricsFor_def
        split: result.splits)
  then show ?case using metrics_loop_describes [of env p ns sel info names "[]" vs] by simp
qed

text \<open>The external side keeps its contract while the table is the fixed one, which no method changes.\<close>

definition fixed_external :: "request_env \<Rightarrow> testing_provider \<Rightarrow> external_metrics_provider" where
  "fixed_external env p = as_external_provider env (p\<lparr>tp_externalMetrics := testingExternalMetrics\<rparr>)"

lemma fixed_external_eq:
  "tp_externalMetrics p = testingExternalMetrics \<Longrightarrow> fixed_external env p = as_external_provider env p"
  by (cases p) (simp add: fixed_external_def)

interpretation eprov: external_provider "fixed_external env p"
proof (unfold_locales, goal_cases)
  case (1 ns sel info)
  show ?case by (simp add: fixed_external_def as_external_provider_def testing_GetExternalMetric_def)
next
  case (2 ns sel info l v)
  then show ?case
    using testingExternalMetrics_wf
    by (auto simp: fixed_external_def as_external_provider_def testing_GetExternalMetric_def external_loop_filter
        external_matches_def external_wf_def in_set_enumerate_eq dest!: nth_mem)
next
  case (3 ns sel info l v)
  then show ?case
    using testingExternalMetrics_wf
    by (auto simp: fixed_external_def as_external_provider_def testing_GetExternalMetric_def external_loop_filter
        external_matches_def external_wf_def in_set_enumerate_eq dest!: nth_mem)
next
  case (4 ns sel info l)
  then have "external_matches sel info testingExternalMetrics \<noteq> []"
    by (auto simp: fixed_external_def as_external_provider_def testing_GetExternalMetric_def
        external_loop_filter)
  then obtain m where "m \<in> set (external_matches sel info testingExternalMetrics)"
    by (meson hd_in_set)
  then have "m \<in> set testingExternalMetrics" and "em_info m = info"
    by (auto simp: external_matches_def)
  then show ?case
    by (auto simp: fixed_external_def as_external_provider_def testing_ListAllExternalMetrics_map)
qed

end
