(* ===== verification/Container_Dispatch.thy ===== *)
theory Container_Dispatch
  imports Restful "HOL-Library.Sublist"
begin

text \<open>
  How a go-restful container (vendored) finds the route of a request: \<open>CurlyRouter.SelectRoute\<close> scores
  the services by their root paths, takes the candidates of the best one, and filters them by method,
  content type and accepted types (\<open>jsr311.go\<close>). The lemmas show that among services with plain roots
  the longest root that begins the path wins, and when the headers play no part.
\<close>

section \<open>The service of a request\<close>

text \<open>
  \<open>computeWebserviceScore\<close>: whether the tokens of a root match, and the score; the weight of a literal
  token is ten times the number of root tokens from it on.
\<close>

fun score_loop :: "string list \<Rightarrow> string list \<Rightarrow> int \<Rightarrow> bool \<times> int" where
  "score_loop requestTokens [] score = (True, score)"
| "score_loop [] (other # tokens) score = (False, 0)"
| "score_loop (each # requestTokens) (other # tokens) score =
     (if each = [] \<and> other = [] then score_loop requestTokens tokens (score + 1)
      else if other \<noteq> [] \<and> has_prefix other ''{'' then
        (if each = [] then (False, score) else score_loop requestTokens tokens (score + 1))
      else if each \<noteq> other then (False, score)
      else score_loop requestTokens tokens (score + int (length (other # tokens)) * 10))"

definition computeWebserviceScore :: "string list \<Rightarrow> string list \<Rightarrow> bool \<times> int" where
  "computeWebserviceScore requestTokens tokens =
     (if length tokens > length requestTokens then (False, 0) else score_loop requestTokens tokens 0)"

text \<open>The tokens of a service's path expression are those of its root path.\<close>

definition root_tokens :: "('h, 's) web_service \<Rightarrow> string list" where
  "root_tokens w = tokenizePath (ws_rootPath w)"

fun detect_loop ::
  "string list \<Rightarrow> ('h, 's) web_service list \<Rightarrow> ('h, 's) web_service option \<Rightarrow> int \<Rightarrow>
   ('h, 's) web_service option" where
  "detect_loop requestTokens [] best score = best"
| "detect_loop requestTokens (each # webServices) best score =
     (let (matches, eachScore) = computeWebserviceScore requestTokens (root_tokens each)
      in if matches \<and> eachScore > score
         then detect_loop requestTokens webServices (Some each) eachScore
         else detect_loop requestTokens webServices best score)"

definition detectWebService ::
  "string list \<Rightarrow> ('h, 's) web_service list \<Rightarrow> ('h, 's) web_service option" where
  "detectWebService requestTokens webServices = detect_loop requestTokens webServices None (-1)"

section \<open>The route of a request\<close>

text \<open>A media type without its parameters and the spaces around it.\<close>

definition media_type :: "string \<Rightarrow> string" where
  "media_type each =
     trim_byte (CHR '' '') (if CHR '';'' \<in> set each then hd (split_byte (CHR '';'') each) else each)"

definition matchesAccept :: "('h, 's) route \<Rightarrow> string \<Rightarrow> bool" where
  "matchesAccept r mimeTypesWithQuality \<longleftrightarrow>
     (\<exists>each \<in> set (split_byte (CHR '','') mimeTypesWithQuality).
        media_type each = ''*/*'' \<or>
        (\<exists>producibleType \<in> set (r_Produces r). producibleType = ''*/*'' \<or> producibleType = media_type each))"

definition matchesContentType :: "('h, 's) route \<Rightarrow> string \<Rightarrow> bool" where
  "matchesContentType r mimeTypes0 \<longleftrightarrow>
     length (r_Consumes r) = 0 \<or>
     (length mimeTypes0 = 0 \<and> r_Method r \<in> {''GET'', ''HEAD'', ''OPTIONS'', ''DELETE'', ''TRACE''}) \<or>
     (let mimeTypes = (if length mimeTypes0 = 0 then ''application/octet-stream'' else mimeTypes0)
      in \<exists>each \<in> set (split_byte (CHR '','') mimeTypes).
         \<exists>consumeableType \<in> set (r_Consumes r). consumeableType = ''*/*'' \<or> consumeableType = media_type each)"

definition detectRoute :: "('h, 's) route list \<Rightarrow> string \<Rightarrow> string \<Rightarrow> string \<Rightarrow> ('h, 's) selected" where
  "detectRoute routes httpMethod contentType accept0 =
     (let methodOk = filter (\<lambda>r. httpMethod = r_Method r) routes;
          inputMediaOk = filter (\<lambda>r. matchesContentType r contentType) methodOk;
          accept = (if length accept0 = 0 then ''*/*'' else accept0);
          outputMediaOk = filter (\<lambda>r. matchesAccept r accept) inputMediaOk
      in if length methodOk = 0 then NoRoute 405
         else if length inputMediaOk = 0 then NoRoute 415
         else if length outputMediaOk = 0 then NoRoute 406
         else Selected (hd outputMediaOk))"

definition SelectRoute ::
  "(string \<Rightarrow> string \<Rightarrow> bool) \<Rightarrow> ('h, 's) web_service list \<Rightarrow> string \<Rightarrow> string \<Rightarrow> string \<Rightarrow> string \<Rightarrow>
   ('h, 's) web_service option \<times> ('h, 's) selected" where
  "SelectRoute rx webServices httpMethod path contentType accept =
     (case detectWebService (tokenizePath path) webServices of
        None \<Rightarrow> (None, NoRoute 404)
      | Some detectedService \<Rightarrow>
          (case selectRoutes rx detectedService (tokenizePath path) of
             [] \<Rightarrow> (Some detectedService, NoRoute 404)
           | candidateRoutes \<Rightarrow> (Some detectedService, detectRoute candidateRoutes httpMethod contentType accept)))"

section \<open>Plain roots\<close>

text \<open>A root without template variables; its score depends on its length only.\<close>

definition plain_root :: "('h, 's) web_service \<Rightarrow> bool" where
  "plain_root w \<longleftrightarrow> (\<forall>t \<in> set (root_tokens w). segment t \<and> \<not> has_prefix t ''{'')"

fun literal_score :: "nat \<Rightarrow> int" where
  "literal_score 0 = 0"
| "literal_score (Suc n) = literal_score n + int (Suc n) * 10"

lemma literal_score_nonneg: "0 \<le> literal_score n"
  by (induction n) auto

lemma literal_score_mono: "literal_score m < literal_score n \<longleftrightarrow> m < n"
proof -
  have "strict_mono literal_score" by (rule strict_mono_Suc_iff [THEN iffD2]) simp
  then show ?thesis by (rule strict_mono_less)
qed

lemma score_loop_literal:
  "\<forall>t \<in> set ts. segment t \<and> \<not> has_prefix t ''{'' \<Longrightarrow>
   fst (score_loop qs ts s) = prefix ts qs \<and>
   (prefix ts qs \<longrightarrow> snd (score_loop qs ts s) = s + literal_score (length ts))"
  by (induction qs ts s rule: score_loop.induct) (auto simp: segment_def)

lemma plain_score:
  assumes "plain_root w"
  shows "fst (computeWebserviceScore qs (root_tokens w)) = prefix (root_tokens w) qs"
    and "prefix (root_tokens w) qs \<Longrightarrow>
      snd (computeWebserviceScore qs (root_tokens w)) = literal_score (length (root_tokens w))"
  using assms score_loop_literal [of "root_tokens w" qs 0]
  by (auto simp: computeWebserviceScore_def plain_root_def dest: prefix_length_le)

lemma detect_loop_no_better:
  assumes "\<forall>v \<in> set ws. plain_root v \<and>
    (prefix (root_tokens v) qs \<longrightarrow> literal_score (length (root_tokens v)) \<le> score)"
  shows "detect_loop qs ws best score = best"
  using assms
proof (induction ws)
  case (Cons v ws)
  then show ?case
    using plain_score [of v qs] by (cases "computeWebserviceScore qs (root_tokens v)") auto
qed simp

lemma prefix_same_length: "prefix xs zs \<Longrightarrow> prefix ys zs \<Longrightarrow> length xs = length ys \<Longrightarrow> xs = ys"
  by (metis prefix_length_prefix prefix_order.antisym order_refl)

lemma detect_loop_longest:
  assumes "\<forall>v \<in> set ws. plain_root v" and "distinct (map root_tokens ws)"
    and "w \<in> set ws" and "prefix (root_tokens w) qs"
    and "\<forall>v \<in> set ws. prefix (root_tokens v) qs \<longrightarrow> length (root_tokens v) \<le> length (root_tokens w)"
    and "score < literal_score (length (root_tokens w))"
  shows "detect_loop qs ws best score = Some w"
  using assms
proof (induction ws arbitrary: best score)
  case Nil
  then show ?case by simp
next
  case (Cons v ws)
  obtain ok s where vs: "computeWebserviceScore qs (root_tokens v) = (ok, s)" by fastforce
  have ok: "ok = prefix (root_tokens v) qs"
    and s: "ok \<Longrightarrow> s = literal_score (length (root_tokens v))"
    using plain_score [of v qs] Cons.prems(1) vs by auto
  show ?case
  proof (cases "v = w")
    case True
    have "detect_loop qs ws (Some w) s = Some w"
    proof (rule detect_loop_no_better, intro ballI conjI impI)
      fix u assume u: "u \<in> set ws"
      then show "plain_root u" using Cons.prems(1) by simp
      assume "prefix (root_tokens u) qs"
      then have "length (root_tokens u) \<le> length (root_tokens w)" using Cons.prems(5) u by simp
      then show "literal_score (length (root_tokens u)) \<le> s"
        using s ok Cons.prems(4) True by (simp add: literal_score_mono [THEN sym] flip: not_less)
    qed
    then show ?thesis using vs ok s Cons.prems(4,6) True by simp
  next
    case False
    then have w: "w \<in> set ws" using Cons.prems(3) by simp
    then have ne: "root_tokens v \<noteq> root_tokens w" using Cons.prems(2) by force
    have lt: "s < literal_score (length (root_tokens w))" if ok
      using that ok s Cons.prems(4,5) ne prefix_same_length
      by (metis le_neq_implies_less list.set_intros(1) literal_score_mono)
    have "detect_loop qs ws b t = Some w" if "t < literal_score (length (root_tokens w))" for b t
      using Cons.prems(1,2,5) that by (intro Cons.IH w Cons.prems(4)) auto
    then show ?thesis using vs lt Cons.prems(6) by auto
  qed
qed

definition longest_root :: "string list \<Rightarrow> ('h, 's) web_service list \<Rightarrow> ('h, 's) web_service \<Rightarrow> bool" where
  "longest_root qs ws w \<longleftrightarrow> w \<in> set ws \<and> prefix (root_tokens w) qs \<and>
     (\<forall>v \<in> set ws. prefix (root_tokens v) qs \<longrightarrow> length (root_tokens v) \<le> length (root_tokens w))"

lemma longest_root_detected:
  assumes "\<forall>v \<in> set ws. plain_root v" and "distinct (map root_tokens ws)" and "longest_root qs ws w"
  shows "detectWebService qs ws = Some w"
proof -
  have "- 1 < literal_score (length (root_tokens w))"
    using literal_score_nonneg [of "length (root_tokens w)"] by simp
  then show ?thesis
    using assms unfolding detectWebService_def longest_root_def by (intro detect_loop_longest) auto
qed

lemma longest_root_exists:
  assumes "v \<in> set ws" and "prefix (root_tokens v) qs"
  shows "\<exists>w. longest_root qs ws w"
proof -
  let ?M = "{w \<in> set ws. prefix (root_tokens w) qs}"
  let ?f = "\<lambda>w. length (root_tokens w)"
  have "Max (?f ` ?M) \<in> ?f ` ?M" using assms by (intro Max_in) auto
  then obtain w where "w \<in> ?M" and "?f w = Max (?f ` ?M)" by auto
  then show ?thesis unfolding longest_root_def by (intro exI [of _ w]) auto
qed

text \<open>
  C26: The longest root wins. In a container whose services have different plain roots, a request goes to
  the service whose root is the longest one that begins the request's path, whatever their order; and
  when no root begins it, to none.
\<close>

theorem longest_root_wins:
  assumes "\<forall>v \<in> set ws. plain_root v" and "distinct (map root_tokens ws)"
  shows "(detectWebService qs ws = None \<longleftrightarrow> (\<forall>v \<in> set ws. \<not> prefix (root_tokens v) qs)) \<and>
    (detectWebService qs ws = Some w \<longleftrightarrow>
       w \<in> set ws \<and> prefix (root_tokens w) qs \<and>
       (\<forall>v \<in> set ws. prefix (root_tokens v) qs \<longrightarrow> length (root_tokens v) \<le> length (root_tokens w)))"
proof (cases "\<forall>v \<in> set ws. \<not> prefix (root_tokens v) qs")
  case True
  then have "detectWebService qs ws = None"
    unfolding detectWebService_def using assms(1) by (intro detect_loop_no_better) auto
  then show ?thesis using True by auto
next
  case False
  then obtain u where u: "longest_root qs ws u" using longest_root_exists by blast
  then have found: "detectWebService qs ws = Some u" by (rule longest_root_detected [OF assms])
  have "detectWebService qs ws = Some w" if "longest_root qs ws w"
    using assms that by (rule longest_root_detected)
  then show ?thesis using False found u unfolding longest_root_def by auto
qed

definition rooted :: "string \<Rightarrow> (unit, unit) web_service" where
  "rooted path = ws_Path path new_web_service"

theorem longest_root_wins_witness:
  "detectWebService [''apis'', ''g'', ''v1'', ''pods'', ''a'', ''m'']
     (map rooted [''/'', ''/apis'', ''/apis/g'', ''/apis/g/v1'', ''/apis/h/v1'']) = Some (rooted ''/apis/g/v1'')"
proof -
  let ?ws = "map rooted [''/'', ''/apis'', ''/apis/g'', ''/apis/g/v1'', ''/apis/h/v1'']"
  have tokens: "map root_tokens ?ws = [[], [''apis''], [''apis'', ''g''], [''apis'', ''g'', ''v1''], [''apis'', ''h'', ''v1'']]"
    by (simp add: root_tokens_def rooted_def ws_Path_def tokenizePath_def trim_byte_def trim_left_byte_def
        trim_right_byte_def)
  then have "\<forall>v \<in> set ?ws. plain_root v" "distinct (map root_tokens ?ws)"
    by (simp_all add: plain_root_def segment_def has_prefix_def)
  from longest_root_wins [OF this, of "[''apis'', ''g'', ''v1'', ''pods'', ''a'', ''m'']" "rooted ''/apis/g/v1''"] tokens
  show ?thesis by simp
qed

section \<open>Requests without preferences\<close>

text \<open>A request with neither header set is refused by the method only, if at all.\<close>

lemma accept_any: "matchesAccept r ''*/*''"
  by (simp add: matchesAccept_def media_type_def trim_byte_def trim_left_byte_def trim_right_byte_def)

text \<open>An \<open>Accept\<close> header that any route satisfies: there is none, or it has \<open>*/*\<close> among its types.\<close>

definition accepts_any :: "string \<Rightarrow> bool" where
  "accepts_any accept \<longleftrightarrow> accept = [] \<or> (\<exists>each \<in> set (split_byte (CHR '','') accept). media_type each = ''*/*'')"

lemma accepts_anyD: "accepts_any accept \<Longrightarrow> matchesAccept r (if length accept = 0 then ''*/*'' else accept)"
  by (auto simp: accepts_any_def accept_any) (auto simp: matchesAccept_def)

text \<open>A route that names no media types takes any body, and produces what is asked for as \<open>*/*\<close> only.\<close>

lemma untyped_route:
  assumes "r_Produces r = []"
  shows "matchesAccept r (if length accept = 0 then ''*/*'' else accept) \<longleftrightarrow> accepts_any accept"
  using assms by (auto simp: accepts_any_def accept_any) (auto simp: matchesAccept_def)

lemma detectRoute_untyped:
  assumes "r_Produces r = []" and "r_Consumes r = []"
  shows "detectRoute [r] m contentType accept =
    (if r_Method r \<noteq> m then NoRoute 405 else if accepts_any accept then Selected r else NoRoute 406)"
  using assms untyped_route [OF assms(1), of accept]
  by (auto simp: detectRoute_def Let_def matchesContentType_def)

lemma detectRoute_plain:
  assumes "\<forall>r \<in> set rs. r_Method r = m \<longrightarrow> m = ''GET'' \<or> r_Consumes r = []" and "accepts_any accept"
  shows "detectRoute rs m [] accept =
    (case filter (\<lambda>r. r_Method r = m) rs of [] \<Rightarrow> NoRoute 405 | r # _ \<Rightarrow> Selected r)"
proof -
  have eq: "filter (\<lambda>r. m = r_Method r) rs = filter (\<lambda>r. r_Method r = m) rs" by metis
  have "filter (\<lambda>r. matchesContentType r []) (filter (\<lambda>r. r_Method r = m) rs) = filter (\<lambda>r. r_Method r = m) rs"
    using assms(1) by (intro filter_True ballI) (auto simp: matchesContentType_def)
  then show ?thesis
    by (simp only: detectRoute_def Let_def eq accepts_anyD [OF assms(2)] filter_True ball_simps) (auto split: list.splits)
qed

lemma SelectRoute_plain:
  assumes "detectWebService (tokenizePath path) ws = Some w"
    and "\<forall>r \<in> set (ws_routes w). r_Method r = ''GET'' \<or> r_Consumes r = []" and "accepts_any accept"
  shows "SelectRoute rx ws m path [] accept = (Some w, route_by_method rx w m path)"
proof -
  have "set (selectRoutes rx w (tokenizePath path)) \<subseteq> set (ws_routes w)"
    by (auto simp: selectRoutes_def List.map_filter_def split: option.splits if_splits)
  then have "\<forall>r \<in> set (selectRoutes rx w (tokenizePath path)). r_Method r = m \<longrightarrow> m = ''GET'' \<or> r_Consumes r = []"
    using assms(2) by blast
  from detectRoute_plain [OF this assms(3)] show ?thesis
    using assms(1) by (auto simp: SelectRoute_def route_by_method_def split: list.splits)
qed

end
