(* ===== verification/Write_Service.thy ===== *)
theory Write_Service
  imports Testing_Correct Container_Dispatch
begin

text \<open>
  A whole request to the sample provider's write endpoint: \<open>main\<close> adds \<open>webService\<close> to the default container of
  go-restful and serves \<open>http.DefaultServeMux\<close>. The mux cleans the path and hands it to the container, its
  router picks a route by path, method, \<open>Content-Type\<close> and \<open>Accept\<close>, the path gives the parameters, and the
  handler updates the provider. \<open>rx\<close> is \<open>regexp.MatchString\<close>, which no route of the service asks.
\<close>

section \<open>The mux in front of the container\<close>

text \<open>The patterns \<open>addHandler\<close> registers for a service: the part of its root path without variables.\<close>

definition fixedPrefixPath :: "string \<Rightarrow> string" where
  "fixedPrefixPath pathspec =
     (case index_byte (CHR ''{'') pathspec of None \<Rightarrow> pathspec | Some varBegin \<Rightarrow> take varBegin pathspec)"

definition addHandler :: "('h, 's) web_service \<Rightarrow> string list" where
  "addHandler service =
     (let pattern = fixedPrefixPath (ws_rootPath service)
      in if pattern = ''/'' \<or> pattern = [] then [''/'']
         else if has_suffix pattern ''/'' then [pattern] else [pattern, pattern @ ''/''])"

text \<open>
  \<open>http.ServeMux\<close>: a pattern that ends in a slash stands for all paths below it, another for itself. The path of a
  request is cleaned (by \<open>path.Clean\<close>, but for a slash at the end), and a request for another path than the
  clean one is redirected, except a \<open>CONNECT\<close>.
\<close>

definition mux_matches :: "string \<Rightarrow> string \<Rightarrow> bool" where
  "mux_matches pattern path \<longleftrightarrow>
     (if has_suffix pattern ''/'' then has_prefix path pattern else path = pattern)"

definition mux_cleanPath :: "string \<Rightarrow> string" where
  "mux_cleanPath p0 =
     (if p0 = [] then ''/''
      else
        let p = (if has_prefix p0 ''/'' then p0 else CHR ''/'' # p0);
            np = path_clean p
        in if has_suffix p ''/'' \<and> np \<noteq> ''/'' then np @ ''/'' else np)"

text \<open>
  How a request to port 8080 ends: redirected by the mux, left to other handlers, refused by the router with a
  status, or handled.
\<close>

datatype write_outcome = Redirected string | Unclaimed | NotRouted int | Handled write_response

text \<open>\<open>headers\<close> are \<open>Content-Type\<close> and \<open>Accept\<close>; \<open>entity\<close> is what \<open>ReadEntity\<close> makes of the body.\<close>

definition handle_write ::
  "(string \<Rightarrow> string \<Rightarrow> bool) \<Rightarrow> (write_handler, unit) web_service \<Rightarrow> string \<times> string \<Rightarrow> string \<Rightarrow> string \<Rightarrow>
   quantity result \<Rightarrow> testing_provider \<Rightarrow> testing_provider \<times> write_outcome" where
  "handle_write rx ws headers httpMethod path entity p =
     (let clean = (if httpMethod = ''CONNECT'' then path else mux_cleanPath path)
      in if clean \<noteq> path then (p, Redirected clean)
         else if \<not> list_ex (\<lambda>pattern. mux_matches pattern path) (addHandler ws) then (p, Unclaimed)
         else (case SelectRoute rx [ws] httpMethod path (fst headers) (snd headers) of
                 (_, NoRoute code) \<Rightarrow> (p, NotRouted code)
               | (_, Selected r) \<Rightarrow>
                   (case r_Function r of
                      UpdateMetric \<Rightarrow>
                        (let (p', response) = updateMetric (extractParameters r path) entity p
                         in (p', Handled response)))))"

section \<open>The routes of the service\<close>

definition write_templates :: "string list list" where
  "write_templates =
     [[''write-metrics'', ''namespaces'', ''{namespace}'', ''{resourceType}'', ''{name}'', ''{metric}''],
      [''write-metrics'', ''{resourceType}'', ''{name}'', ''{metric}''],
      [''write-metrics'', ''{resourceType}'', ''{name}'', ''metrics'', ''{metric}'']]"

lemma write_tokens:
  "tokenizePath (concatPath ''/write-metrics'' ''/namespaces/{namespace}/{resourceType}/{name}/{metric}'') = write_templates ! 0"
  "tokenizePath (concatPath ''/write-metrics'' ''/{resourceType}/{name}/{metric}'') = write_templates ! 1"
  "tokenizePath (concatPath ''/write-metrics'' ''/{resourceType}/{name}/metrics/{metric}'') = write_templates ! 2"
  by (simp_all add: tokenizePath_def concatPath_def trim_byte_def trim_left_byte_def trim_right_byte_def
      write_templates_def)

text \<open>The routes name no media types.\<close>

definition untyped :: "('h, 's) route \<Rightarrow> bool" where
  "untyped r \<longleftrightarrow> r_Produces r = [] \<and> r_Consumes r = []"

lemma ws_Route_untyped:
  assumes "b_function b = Some h" and "ws_produces ws = []" and "ws_consumes ws = []"
    and "b_produces b = []" and "b_consumes b = []"
  shows "\<exists>r. ws_Route ws b = Ok (ws\<lparr>ws_routes := ws_routes ws @ [r]\<rparr>) \<and> untyped r \<and>
    route_summary r = (b_httpMethod b, tokenizePath (concatPath (b_rootPath b) (b_currentPath b)), h)"
proof -
  obtain r where "Build (copyDefaults (ws_produces ws) (ws_consumes ws) b) = Ok r" "untyped r"
    "route_summary r = (b_httpMethod b, tokenizePath (concatPath (b_rootPath b) (b_currentPath b)), h)"
    using assms by (simp add: Build_def copyDefaults_def Let_def untyped_def route_summary_def)
  then show ?thesis by (intro exI [of _ r]) (simp add: ws_Route_def)
qed

lemma webService_routes:
  "\<exists>ws. webService = Ok ws \<and> map route_summary (ws_routes ws) = map (\<lambda>ts. (''POST'', ts, UpdateMetric)) write_templates \<and>
     (\<forall>r \<in> set (ws_routes ws). untyped r)"
proof -
  define ws0 :: "(write_handler, unit) web_service" where "ws0 = ws_Path ''/write-metrics'' new_web_service"
  define b where "b = (\<lambda>(ws :: (write_handler, unit) web_service) p. Param value_param (To UpdateMetric (ws_method ''POST'' ws p)))"
  have add: "\<exists>r. ws_Route ws (b ws p) = Ok (ws\<lparr>ws_routes := ws_routes ws @ [r]\<rparr>) \<and> untyped r \<and>
      route_summary r = (''POST'', tokenizePath (concatPath (ws_rootPath ws) p), UpdateMetric)"
    if "ws_produces ws = []" "ws_consumes ws = []" for ws p
    using ws_Route_untyped [of "b ws p" UpdateMetric ws] that by (simp add: b_def builder_defs)
  let ?p0 = "''/namespaces/{namespace}/{resourceType}/{name}/{metric}''"
  let ?p1 = "''/{resourceType}/{name}/{metric}''"
  let ?p2 = "''/{resourceType}/{name}/metrics/{metric}''"
  have root: "ws_rootPath ws0 = ''/write-metrics''" "ws_routes ws0 = []" "ws_produces ws0 = []" "ws_consumes ws0 = []"
    by (simp_all add: ws0_def ws_Path_def new_web_service_def)
  obtain r0 where r0: "ws_Route ws0 (b ws0 ?p0) = Ok (ws0\<lparr>ws_routes := [r0]\<rparr>)" "untyped r0"
    "route_summary r0 = (''POST'', write_templates ! 0, UpdateMetric)"
    using add [of ws0 ?p0] unfolding root write_tokens by auto
  define ws1 where "ws1 = ws0\<lparr>ws_routes := [r0]\<rparr>"
  obtain r1 where r1: "ws_Route ws1 (b ws1 ?p1) = Ok (ws1\<lparr>ws_routes := [r0, r1]\<rparr>)" "untyped r1"
    "route_summary r1 = (''POST'', write_templates ! 1, UpdateMetric)"
    using add [of ws1 ?p1] by (auto simp: ws1_def root write_tokens)
  define ws2 where "ws2 = ws1\<lparr>ws_routes := [r0, r1]\<rparr>"
  obtain r2 where r2: "ws_Route ws2 (b ws2 ?p2) = Ok (ws2\<lparr>ws_routes := [r0, r1, r2]\<rparr>)" "untyped r2"
    "route_summary r2 = (''POST'', write_templates ! 2, UpdateMetric)"
    using add [of ws2 ?p2] by (auto simp: ws1_def ws2_def root write_tokens)
  have "webService = Ok (ws2\<lparr>ws_routes := [r0, r1, r2]\<rparr>)"
    using r0(1) r1(1) r2(1) unfolding webService_def Let_def ws0_def [symmetric] b_def
    by (simp flip: ws1_def ws2_def)
  then show ?thesis
    using r0(2,3) r1(2,3) r2(2,3) by (intro exI [of _ "ws2\<lparr>ws_routes := [r0, r1, r2]\<rparr>"]) (simp add: write_templates_def)
qed

lemma ws_Route_root: "ws_Route ws b = Ok ws' \<Longrightarrow> ws_rootPath ws' = ws_rootPath ws"
  by (auto simp: ws_Route_def)

lemma webService_root: "webService = Ok ws \<Longrightarrow> ws_rootPath ws = ''/write-metrics''"
  by (auto simp: webService_def Let_def ws_Path_def dest!: ws_Route_root)

text \<open>The parameters a path below \<open>/write-metrics\<close> gives, if a route matches it.\<close>

fun write_params :: "string list \<Rightarrow> (string, string) go_map option" where
  "write_params [a, b, c] = Some [(''resourceType'', a), (''name'', b), (''metric'', c)]"
| "write_params [a, b, c, d] =
     (if c = ''metrics'' then Some [(''resourceType'', a), (''name'', b), (''metric'', d)] else None)"
| "write_params [a, b, c, d, e] =
     (if a = ''namespaces''
      then Some [(''namespace'', b), (''resourceType'', c), (''name'', d), (''metric'', e)] else None)"
| "write_params segs = None"

definition write_path :: "string list \<Rightarrow> string" where
  "write_path segs = CHR ''/'' # join_byte (CHR ''/'') (''write-metrics'' # segs)"

text \<open>Segments that the mux leaves as they are give the tokens of the path.\<close>

lemma plain_element_segment: "plain_element s \<Longrightarrow> segment s"
  by (simp add: plain_element_def segment_def)

lemma write_path_tokens:
  "list_all plain_element segs \<Longrightarrow> tokenizePath (write_path segs) = ''write-metrics'' # segs"
  using tokenizePath_segments [of "''write-metrics'' # segs"]
  by (auto simp: write_path_def list_all_iff segment_def plain_element_def)

lemma mux_cleanPath_plain:
  assumes "ws \<noteq> []" and "\<forall>w \<in> set ws. plain_element w"
  shows "mux_cleanPath (CHR ''/'' # join_byte (CHR ''/'') ws) = CHR ''/'' # join_byte (CHR ''/'') ws"
proof -
  obtain x xs where "rev (join_byte (CHR ''/'') ws) = x # xs" "x \<noteq> CHR ''/''"
    using rev_join_head [OF assms(1)] assms(2) plain_element_segment by blast
  then have "\<not> has_suffix (CHR ''/'' # join_byte (CHR ''/'') ws) ''/''"
    by (simp add: has_suffix_def has_prefix_def)
  then show ?thesis
    using path_clean_plain [OF assms] by (simp add: mux_cleanPath_def has_prefix_def Let_def)
qed

lemma write_path_clean:
  "list_all plain_element segs \<Longrightarrow> mux_cleanPath (write_path segs) = write_path segs"
  using mux_cleanPath_plain [of "''write-metrics'' # segs"]
  by (simp add: write_path_def plain_element_def list_all_iff)

lemma write_path_claimed:
  assumes "ws_rootPath ws = ''/write-metrics''"
  shows "list_ex (\<lambda>pattern. mux_matches pattern (write_path segs)) (addHandler ws)"
  by (cases segs) (simp_all add: addHandler_def fixedPrefixPath_def assms Let_def mux_matches_def has_suffix_def
      has_prefix_def write_path_def)

lemma write_service_detected:
  assumes "ws_rootPath ws = ''/write-metrics''"
  shows "detectWebService (''write-metrics'' # segs) [ws] = Some ws"
proof -
  have tokens: "root_tokens ws = [''write-metrics'']"
    by (simp add: root_tokens_def assms tokenizePath_def trim_byte_def trim_left_byte_def trim_right_byte_def)
  show ?thesis
    by (rule longest_root_detected)
      (simp_all add: plain_root_def longest_root_def tokens segment_def has_prefix_def)
qed

lemma write_token_matches [simp]:
  "token_matches ''{resourceType}'' q" "token_matches ''{name}'' q" "token_matches ''{metric}'' q"
  "token_matches ''{namespace}'' q" "token_matches ''namespaces'' q \<longleftrightarrow> q = ''namespaces''"
  "token_matches ''metrics'' q \<longleftrightarrow> q = ''metrics''"
  by (simp_all add: token_matches_def has_prefix_def)

lemma write_templates_template: "\<forall>ts \<in> set write_templates. template ts"
  by (auto simp: write_templates_def intro!: template_of_tokens)

text \<open>The template of each shape, and what it extracts.\<close>

fun write_route :: "string list \<Rightarrow> nat option" where
  "write_route [a, b, c] = Some 1"
| "write_route [a, b, c, d] = (if c = ''metrics'' then Some 2 else None)"
| "write_route [a, b, c, d, e] = (if a = ''namespaces'' then Some 0 else None)"
| "write_route segs = None"

lemma write_hits:
  "filter (\<lambda>s. list_all2 token_matches (fst (snd s)) (''write-metrics'' # segs))
      (map (\<lambda>ts. (''POST'', ts, UpdateMetric)) write_templates) =
    (case write_route segs of None \<Rightarrow> [] | Some i \<Rightarrow> [(''POST'', write_templates ! i, UpdateMetric)])"
  by (cases segs rule: write_route.cases) (simp_all add: write_templates_def)

lemma write_extracts:
  "write_route segs = Some i \<Longrightarrow>
   Some (extract_params (write_templates ! i) (''write-metrics'' # segs) []) = write_params segs"
  by (cases segs rule: write_route.cases)
    (auto simp: write_templates_def has_prefix_def go_put_def split: if_splits)

lemma write_params_route: "write_params segs = None \<longleftrightarrow> write_route segs = None"
  by (cases segs rule: write_route.cases) auto

text \<open>The answer to every request below the root: by path, method and \<open>Accept\<close>, whatever the \<open>Content-Type\<close>.\<close>

lemma write_selected:
  assumes "webService = Ok ws" and "list_all plain_element segs"
  shows "selected_summary (snd (SelectRoute rx [ws] m (write_path segs) contentType accept)) =
    (case write_route segs of None \<Rightarrow> Inl 404
     | Some i \<Rightarrow> if m \<noteq> ''POST'' then Inl 405 else if \<not> accepts_any accept then Inl 406
         else Inr (''POST'', write_templates ! i, UpdateMetric))"
proof -
  have routes: "map route_summary (ws_routes ws) = map (\<lambda>ts. (''POST'', ts, UpdateMetric)) write_templates"
    and untyped: "\<forall>r \<in> set (ws_routes ws). untyped r"
    using webService_routes assms(1) by (metis result.inject(1))+
  let ?hits = "filter (\<lambda>r. list_all2 token_matches (r_pathParts r) (''write-metrics'' # segs)) (ws_routes ws)"
  have hits: "map route_summary ?hits =
      (case write_route segs of None \<Rightarrow> [] | Some i \<Rightarrow> [(''POST'', write_templates ! i, UpdateMetric)])"
    using write_hits [of segs] filter_summaries [OF routes] by simp
  have "length ?hits \<le> 1" using arg_cong [OF hits, of length] by (simp split: option.splits)
  moreover have "r_pathParts r \<in> set write_templates" if "r \<in> set (ws_routes ws)" for r
  proof -
    have "route_summary r \<in> set (map (\<lambda>ts. (''POST'', ts, UpdateMetric)) write_templates)"
      using that unfolding routes [symmetric] by simp
    then show ?thesis by (auto simp: route_summary_def)
  qed
  ultimately have "selectRoutes rx ws (''write-metrics'' # segs) = ?hits"
    using write_templates_template by (intro selectRoutes_unique refl) auto
  then have selected: "SelectRoute rx [ws] m (write_path segs) contentType accept =
      (Some ws, case ?hits of [] \<Rightarrow> NoRoute 404 | _ \<Rightarrow> detectRoute ?hits m contentType accept)"
    using write_service_detected [OF webService_root [OF assms(1)]]
    by (simp add: SelectRoute_def write_path_tokens [OF assms(2)] split: list.splits)
  show ?thesis
  proof (cases "write_route segs")
    case None
    then have "?hits = []" using hits by simp
    then show ?thesis using None by (simp add: selected)
  next
    case (Some i)
    then obtain r where r: "?hits = [r]" "route_summary r = (''POST'', write_templates ! i, UpdateMetric)"
      using hits by auto
    then have "r \<in> set (ws_routes ws)" by (metis filter_is_subset list.set_intros(1) subsetD)
    then have "untyped r" using untyped by blast
    then have "detectRoute ?hits m contentType accept =
        (if ''POST'' \<noteq> m then NoRoute 405 else if accepts_any accept then Selected r else NoRoute 406)"
      using r detectRoute_untyped [of r m contentType accept] by (simp add: untyped_def route_summary_def)
    then show ?thesis using Some r by (auto simp: selected)
  qed
qed

lemma write_routed:
  assumes "webService = Ok ws" and "list_all plain_element segs"
  shows "handle_write rx ws headers m (write_path segs) entity p =
    (case write_params segs of
       None \<Rightarrow> (p, NotRouted 404)
     | Some params \<Rightarrow>
         if m \<noteq> ''POST'' then (p, NotRouted 405)
         else if \<not> accepts_any (snd headers) then (p, NotRouted 406)
         else (let (p', response) = updateMetric params entity p in (p', Handled response)))"
proof -
  obtain service res where sel: "SelectRoute rx [ws] m (write_path segs) (fst headers) (snd headers) = (service, res)"
    by fastforce
  have handled: "handle_write rx ws headers m (write_path segs) entity p =
      (case res of NoRoute code \<Rightarrow> (p, NotRouted code)
       | Selected r \<Rightarrow> (let (p', response) = updateMetric (extractParameters r (write_path segs)) entity p
                       in (p', Handled response)))"
    using write_path_clean [OF assms(2)] write_path_claimed [OF webService_root [OF assms(1)], of segs]
    by (simp add: handle_write_def sel Let_def split: selected.splits write_handler.splits)
  have res: "selected_summary res = (case write_route segs of None \<Rightarrow> Inl 404
     | Some i \<Rightarrow> if m \<noteq> ''POST'' then Inl 405 else if \<not> accepts_any (snd headers) then Inl 406
         else Inr (''POST'', write_templates ! i, UpdateMetric))"
    using write_selected [OF assms, of rx m "fst headers" "snd headers"] by (simp add: sel)
  show ?thesis
  proof (cases "write_route segs")
    case None
    then show ?thesis
      using res write_params_route [of segs] by (cases res) (simp_all add: handled)
  next
    case (Some i)
    then have "write_params segs = Some (extract_params (write_templates ! i) (''write-metrics'' # segs) [])"
      using write_extracts by simp
    then show ?thesis
      using res Some
      by (cases res) (auto simp: handled route_summary_def extractParameters_def write_path_tokens [OF assms(2)]
          split: if_splits)
  qed
qed

end
