(* ===== verification/Installer.thy ===== *)
theory Installer
  imports Restful Request_Info Provider_Api
begin

text \<open>
  \<open>pkg/apiserver/installer\<close>: \<open>installer.go\<close>, \<open>cmhandlers.go\<close> and \<open>emhandlers.go\<close> turn an API group
  version into a web service with its routes and add it to the server's container. This theory has the
  definitions; \<open>Installer_Correct\<close> has what they install.

  Runtime objects have type \<open>'o\<close>; \<open>reflect\<close> sees a \<open>go_object\<close>. Of a request scope the codecs and
  the convertors of objects, which are handed through, are left out. A documentation sample is the name of its type.
\<close>

section \<open>Reflection\<close>

datatype go_type =
    InterfaceType string
  | StructType string
  | PtrType go_type
  | OtherType string

text \<open>\<open>reflect.Type.String()\<close>: a package is printed by its name, not by the alias of an import.\<close>

fun type_String :: "go_type \<Rightarrow> string" where
  "type_String (InterfaceType n) = n"
| "type_String (StructType n) = n"
| "type_String (PtrType t) = ''*'' @ type_String t"
| "type_String (OtherType n) = n"

record struct_field =
  sf_Name :: string
  sf_Type :: go_type
  sf_json :: string

datatype go_value = StructValue string "struct_field list" | OtherValue string

fun value_type :: "go_value \<Rightarrow> string" where
  "value_type (StructValue n fs) = n"
| "value_type (OtherValue n) = n"

text \<open>An interface value: nil, not a pointer, a nil pointer, or a pointer (with its \<open>SwaggerDoc\<close>, if any).\<close>

datatype go_object =
    NilInterface
  | NotPointer go_value
  | NilPointer string
  | Pointer go_value "(string, string) go_map option"

definition EnforcePtr :: "go_object \<Rightarrow> go_value result" where
  "EnforcePtr obj =
     (case obj of
        NilInterface \<Rightarrow> Err (Errorf ''expected pointer, but got invalid kind'' [] [])
      | NotPointer v \<Rightarrow> Err (Errorf ''expected pointer, but got %v type'' [value_type v] [])
      | NilPointer t \<Rightarrow> Err (Errorf ''expected pointer, but got nil'' [] [])
      | Pointer v doc \<Rightarrow> Ok v)"

definition indirectArbitraryPointer :: "go_object \<Rightarrow> go_value result" where
  "indirectArbitraryPointer obj =
     (case obj of
        NilInterface \<Rightarrow> Abort ''reflect: Interface of the zero Value''
      | NotPointer v \<Rightarrow> Ok v
      | NilPointer t \<Rightarrow> Abort ''reflect: Interface of the zero Value''
      | Pointer v doc \<Rightarrow> Ok v)"

section \<open>Query parameters from a struct\<close>

definition typeToJSON :: "string \<Rightarrow> string" where
  "typeToJSON typeName =
     (if typeName \<in> {''bool'', ''*bool''} then ''boolean''
      else if typeName \<in> {''uint8'', ''*uint8'', ''int'', ''*int'', ''int32'', ''*int32'', ''int64'',
                ''*int64'', ''uint32'', ''*uint32'', ''uint64'', ''*uint64''} then ''integer''
      else if typeName \<in> {''float64'', ''*float64'', ''float32'', ''*float32''} then ''number''
      else if typeName \<in> {''metav1.Time'', ''*metav1.Time''} then ''string''
      else if typeName \<in> {''byte'', ''*byte''} then ''string''
      else if typeName \<in> {''v1.DeletionPropagation'', ''*v1.DeletionPropagation''} then ''string''
      else if typeName \<in> {''[]string'', ''[]*string''} then ''string''
      else if typeName \<in> {''[]int32'', ''[]*int32''} then ''integer''
      else typeName)"

fun is_composite :: "go_type \<Rightarrow> bool" where
  "is_composite (InterfaceType n) = True"
| "is_composite (StructType n) = True"
| "is_composite (PtrType t) = False"
| "is_composite (OtherType n) = False"

text \<open>The \<open>switch\<close> on the kind of a field's type: whether the default case is reached.\<close>

fun considered :: "go_type \<Rightarrow> bool" where
  "considered (InterfaceType n) = False"
| "considered (StructType n) = False"
| "considered (PtrType t) =
     (\<not> (is_composite t \<and> trim_prefix (type_String (PtrType t)) ''*'' \<noteq> ''metav1.Time''))"
| "considered (OtherType n) = True"

definition field_param ::
  "(string, string) go_map option \<Rightarrow> struct_field \<Rightarrow> parameter option" where
  "field_param docs sf =
     (if \<not> considered (sf_Type sf) then None
      else let jsonTag = sf_json sf in
        if length jsonTag = 0 then None
        else let jsonName = hd (split_byte (CHR '','') jsonTag) in
          if length jsonName = 0 then None
          else let desc = (case docs of None \<Rightarrow> []
                | Some m \<Rightarrow> (case go_get m jsonName of None \<Rightarrow> [] | Some d \<Rightarrow> d))
          in Some (DataType (typeToJSON (type_String (sf_Type sf))) (QueryParameter jsonName desc)))"

fun fields_loop ::
  "(string, string) go_map option \<Rightarrow> struct_field list \<Rightarrow> struct_field list \<Rightarrow>
   ('h, 's) route_builder \<Rightarrow> ('h, 's) route_builder" where
  "fields_loop docs all [] route = route"
| "fields_loop docs all (f # fs) route =
     fields_loop docs all fs
       (case List.find (\<lambda>sf. sf_Name sf = sf_Name f) all of
          None \<Rightarrow> route
        | Some sf \<Rightarrow> (case field_param docs sf of None \<Rightarrow> route | Some p \<Rightarrow> Param p route))"

definition addObjectParams ::
  "('h, 's) route_builder \<Rightarrow> go_object \<Rightarrow> ('h, 's) route_builder result" where
  "addObjectParams route obj =
     bind_result (EnforcePtr obj) (\<lambda>sv.
       case sv of
         StructValue n fs \<Rightarrow>
           Ok (fields_loop (case obj of Pointer v docs \<Rightarrow> docs | _ \<Rightarrow> None) fs fs route)
       | OtherValue n \<Rightarrow> Ok route)"

definition addParams :: "('h, 's) route_builder \<Rightarrow> parameter list \<Rightarrow> ('h, 's) route_builder" where
  "addParams route params = foldl (\<lambda>r p. Param p r) route params"

section \<open>Self links\<close>

definition MetricsNaming_GenerateLink ::
  "'o context_based_naming \<Rightarrow> request_info \<Rightarrow> 'o \<Rightarrow> string result" where
  "MetricsNaming_GenerateLink n requestInfo obj =
     (let n1 = (if ri_Resource requestInfo \<noteq> ''metrics''
                then n\<lparr>cbn_SelfLinkPathSuffix := cbn_SelfLinkPathSuffix n @ ''/'' @ ri_Subresource requestInfo\<rparr>
                else n)
      in if cbn_ClusterScoped n1
         then GenerateLink
                (n1\<lparr>cbn_SelfLinkPathPrefix := cbn_SelfLinkPathPrefix n1 @ ri_Resource requestInfo @ ''/''\<rparr>)
                requestInfo obj
         else GenerateLink n1 requestInfo obj)"

section \<open>Groups and installers\<close>

text \<open>
  \<open>endpoints.APIGroupVersion\<close>: the serializer by its media types (with whether each has a stream
  serializer), the typer by \<open>ObjectKinds\<close> and the type it is asked about, the creater by \<open>New\<close>.
\<close>

record 'o api_group_version =
  agv_Root :: string
  agv_GroupVersion :: group_version
  agv_OptionsExternalVersion :: "group_version option"
  agv_MetaGroupVersion :: "group_version option"
  agv_SupportedMediaTypes :: "(string \<times> bool) list"
  agv_ObjectKinds :: "'o \<Rightarrow> group_version_kind list result"
  agv_TypeOf :: "'o \<Rightarrow> string"
  agv_New :: "group_version_kind \<Rightarrow> go_object result"
  agv_ConvertFieldLabel :: "group_version_kind \<Rightarrow> string \<Rightarrow> string \<Rightarrow> (string \<times> string) result"
  agv_Linker :: "'o self_linker"
  agv_MinRequestTimeout :: int

text \<open>
  A \<open>rest.Storage\<close>: what \<open>New\<close> makes, and, when it is a \<open>rest.Lister\<close>, what \<open>NewList\<close> makes and its
  \<open>List\<close>.
\<close>

record 'o rest_lister =
  rl_NewList :: 'o
  rl_List :: "request_context \<Rightarrow> list_options option \<Rightarrow> 'o result"

record 'o rest_storage =
  st_New :: 'o
  st_Lister :: "'o rest_lister option"

record 'o metrics_api_group_version =
  mg_DynamicStorage :: "'o rest_storage"
  mg_APIGroupVersion :: "'o api_group_version"
  mg_ResourceLister :: "api_resource list option"

record 'o metrics_api_installer =
  ins_group :: "'o metrics_api_group_version"
  ins_prefix :: string
  ins_minRequestTimeout :: int

record 'o request_scope =
  rs_Namer :: "'o context_based_naming"
  rs_Resource :: group_version_resource
  rs_Subresource :: string
  rs_Kind :: group_version_kind
  rs_MetaGroupVersion :: group_version
  rs_ConvertFieldLabel :: "group_version_kind \<Rightarrow> string \<Rightarrow> string \<Rightarrow> (string \<times> string) result"

text \<open>
  A handler: \<open>InstrumentRouteFunc\<close> with its labels around \<open>restfulListResource\<close> for the storage, in its
  role as a lister and without a watcher; the discovery of the version; or that of the group.
\<close>

datatype 'o metrics_handler =
    ListHandler string string string string "'o rest_storage" "'o request_scope" int
  | VersionDiscovery group_version "api_resource list"
  | GroupDiscovery api_group

type_synonym 'o metrics_service = "('o metrics_handler, string) web_service"

definition MediaTypesForSerializer :: "(string \<times> bool) list \<Rightarrow> string list \<times> string list" where
  "MediaTypesForSerializer infos =
     (map fst infos, map (\<lambda>i. fst i @ '';stream=watch'') (filter snd infos))"

definition all_media_types :: "(string \<times> bool) list \<Rightarrow> string list" where
  "all_media_types infos =
     (let (mediaTypes, streamMediaTypes) = MediaTypesForSerializer infos
      in mediaTypes @ streamMediaTypes)"

definition newDynamicInstaller :: "'o metrics_api_group_version \<Rightarrow> 'o metrics_api_installer" where
  "newDynamicInstaller g =
     \<lparr>ins_group = g,
      ins_prefix = path_join [agv_Root (mg_APIGroupVersion g),
                              gv_Group (agv_GroupVersion (mg_APIGroupVersion g)),
                              gv_Version (agv_GroupVersion (mg_APIGroupVersion g))],
      ins_minRequestTimeout = agv_MinRequestTimeout (mg_APIGroupVersion g)\<rparr>"

definition NewWebService :: "'o metrics_api_installer \<Rightarrow> 'o metrics_service" where
  "NewWebService a =
     (let g = mg_APIGroupVersion (ins_group a);
          ws = ws_Path (ins_prefix a) new_web_service
      in ws\<lparr>ws_documentation := ''API at '' @ ins_prefix a,
            ws_consumes := [''*/*''],
            ws_produces := all_media_types (agv_SupportedMediaTypes g),
            ws_apiVersion := gv_String (agv_GroupVersion g)\<rparr>)"

section \<open>Kinds\<close>

fun kind_loop :: "group_version \<Rightarrow> group_version_kind list \<Rightarrow> group_version_kind \<Rightarrow> group_version_kind" where
  "kind_loop gv [] fqKindToRegister = fqKindToRegister"
| "kind_loop gv (fqKind # ks) fqKindToRegister =
     (if gvk_Group fqKind = gv_Group gv then WithKind gv (gvk_Kind fqKind)
      else kind_loop gv ks
        (if gvk_Group fqKind = ''extensions'' \<and> gvk_Kind fqKind = ''ThirdPartyResourceData''
         then WithKind gv (gvk_Kind fqKind) else fqKindToRegister))"

definition gvk_String :: "group_version_kind \<Rightarrow> string" where
  "gvk_String k = gvk_Group k @ ''/'' @ gvk_Version k @ '', Kind='' @ gvk_Kind k"

definition empty_kind :: group_version_kind where
  "empty_kind = \<lparr>gvk_Group = [], gvk_Version = [], gvk_Kind = []\<rparr>"

definition getResourceKind ::
  "'o metrics_api_installer \<Rightarrow> 'o rest_storage \<Rightarrow> group_version_kind result" where
  "getResourceKind a storage =
     (let object = st_New storage; g = mg_APIGroupVersion (ins_group a)
      in bind_result (agv_ObjectKinds g object) (\<lambda>fqKinds.
        let fqKindToRegister = kind_loop (agv_GroupVersion g) fqKinds empty_kind
        in if gvk_Empty fqKindToRegister
           then Err (Errorf ''unable to locate fully qualified kind for %v: found %v when registering for %v''
                  [agv_TypeOf g object,
                   ''['' @ join_byte (CHR '' '') (map gvk_String fqKinds) @ '']'',
                   gv_String (agv_GroupVersion g)] [])
           else Ok fqKindToRegister))"

section \<open>Routes\<close>

text \<open>
  The first part of both \<open>registerResourceHandlers\<close>: the kind to register, the sample of the list, and
  the options whose fields become query parameters.
\<close>

definition versioned_objects ::
  "'o metrics_api_installer \<Rightarrow> (group_version_kind \<times> go_value \<times> go_object) result" where
  "versioned_objects a =
     (let group = mg_APIGroupVersion (ins_group a); storage = mg_DynamicStorage (ins_group a);
          optionsExternalVersion = (case agv_OptionsExternalVersion group of
              None \<Rightarrow> agv_GroupVersion group | Some v \<Rightarrow> v)
      in bind_result (getResourceKind a storage) (\<lambda>fqKindToRegister.
         case st_Lister storage of
           None \<Rightarrow> Abort ''interface conversion: missing method List''
         | Some lister \<Rightarrow>
             bind_result (agv_ObjectKinds group (rl_NewList lister)) (\<lambda>listGVKs.
             bind_result (index_slice listGVKs 0) (\<lambda>listGVK.
             bind_result (agv_New group (WithKind (agv_GroupVersion group) (gvk_Kind listGVK))) (\<lambda>versionedListPtr.
             bind_result (indirectArbitraryPointer versionedListPtr) (\<lambda>versionedList.
             bind_result (agv_New group (WithKind optionsExternalVersion ''ListOptions'')) (\<lambda>versionedListOptions.
               Ok (fqKindToRegister, versionedList, versionedListOptions))))))))"

definition request_scope_of ::
  "'o metrics_api_installer \<Rightarrow> group_version_kind \<Rightarrow> bool \<Rightarrow> string \<Rightarrow> 'o request_scope" where
  "request_scope_of a kind clusterScoped prefix =
     (let group = mg_APIGroupVersion (ins_group a)
      in \<lparr>rs_Namer = \<lparr>cbn_SelfLinker = agv_Linker group, cbn_ClusterScoped = clusterScoped,
                       cbn_SelfLinkPathPrefix = prefix, cbn_SelfLinkPathSuffix = []\<rparr>,
          rs_Resource = WithResource (agv_GroupVersion group) ''*'',
          rs_Subresource = ''*'', rs_Kind = kind,
          rs_MetaGroupVersion = (case agv_MetaGroupVersion group of
              None \<Rightarrow> \<lparr>gv_Group = ''meta.k8s.io'', gv_Version = ''v1''\<rparr> | Some v \<Rightarrow> v),
          rs_ConvertFieldLabel = agv_ConvertFieldLabel group\<rparr>)"

text \<open>One route, built the way all four of them are.\<close>

definition list_route ::
  "'o metrics_service \<Rightarrow> string \<Rightarrow> 'o metrics_handler \<Rightarrow> string \<Rightarrow> string \<Rightarrow> string list \<Rightarrow> go_value \<Rightarrow>
   go_object \<Rightarrow> parameter list \<Rightarrow> ('o metrics_handler, string) route_builder result" where
  "list_route ws path handler doc operation allMediaTypes versionedList versionedListOptions params =
     bind_result (addObjectParams
       (Writes (value_type versionedList)
         (Returns 200 ''OK'' (value_type versionedList)
           (Produces allMediaTypes
             (Operation operation
               (Param (QueryParameter ''pretty'' ''If 'true', then the output is pretty printed.'')
                 (Doc doc (To handler (ws_method ''GET'' ws path))))))))
       versionedListOptions)
     (\<lambda>route. Ok (addParams route params))"

fun install_routes ::
  "('o metrics_service \<Rightarrow> ('o metrics_handler, string) route_builder result) list \<Rightarrow>
   'o metrics_service \<Rightarrow> 'o metrics_service \<times> unit result" where
  "install_routes [] ws = (ws, Ok ())"
| "install_routes (r # rs) ws =
     (case r ws of
        Abort e \<Rightarrow> (ws, Abort e)
      | Err err \<Rightarrow> (ws, Err err)
      | Ok route \<Rightarrow>
          (case ws_Route ws route of
             Abort e \<Rightarrow> (ws, Abort e)
           | Err err \<Rightarrow> (ws, Err err)
           | Ok ws' \<Rightarrow> install_routes rs ws'))"

definition name_param :: parameter where
  "name_param = DataType ''string'' (PathParameter ''name'' ''name of the described resource'')"

definition resource_param :: parameter where
  "resource_param = DataType ''string'' (PathParameter ''resource'' ''the name of the resource'')"

definition subresource_param :: parameter where
  "subresource_param = DataType ''string'' (PathParameter ''subresource'' ''the name of the subresource'')"

definition namespace_param :: parameter where
  "namespace_param = DataType ''string''
     (PathParameter ''namespace'' ''object name and auth scope, such as for teams and projects'')"

definition CMHandlers_registerResourceHandlers ::
  "'o metrics_api_installer \<Rightarrow> 'o metrics_service \<Rightarrow> 'o metrics_service \<times> unit result" where
  "CMHandlers_registerResourceHandlers a ws =
     (case versioned_objects a of
        Abort e \<Rightarrow> (ws, Abort e)
      | Err err \<Rightarrow> (ws, Err err)
      | Ok (fqKindToRegister, versionedList, versionedListOptions) \<Rightarrow>
          let kind = gvk_Kind fqKindToRegister;
              allMediaTypes = all_media_types (agv_SupportedMediaTypes (mg_APIGroupVersion (ins_group a)));
              doc = ''list custom metrics describing an object or objects'';
              scope = request_scope_of a fqKindToRegister;
              lister = mg_DynamicStorage (ins_group a);
              rootScopedHandler = ListHandler ''LIST'' ''custom-metrics'' [] ''cluster''
                lister (scope True (ins_prefix a @ ''/'')) (ins_minRequestTimeout a);
              namespacedHandler = ListHandler ''LIST'' ''custom-metrics-namespaced'' [] ''namespace''
                lister (scope False (path_join [ins_prefix a, ''namespaces''] @ ''/'')) (ins_minRequestTimeout a);
              namespaceSpecificHandler = ListHandler ''LIST'' ''custom-metrics-for-namespace'' [] ''cluster''
                lister (scope False (path_join [ins_prefix a, ''namespaces''] @ ''/'')) (ins_minRequestTimeout a)
          in install_routes
            [\<lambda>ws. list_route ws ''{resource}/{name}/{subresource}'' rootScopedHandler doc (''list'' @ kind)
               allMediaTypes versionedList versionedListOptions
               [resource_param, name_param, subresource_param],
             \<lambda>ws. list_route ws ''namespaces/{namespace}/{resource}/{name}/{subresource}'' namespacedHandler
               doc (''listNamespaced'' @ kind) allMediaTypes versionedList versionedListOptions
               [namespace_param, resource_param, name_param, subresource_param],
             \<lambda>ws. list_route ws ''namespaces/{namespace}/metrics/{name}'' namespaceSpecificHandler
               doc (''read'' @ kind @ ''ForNamespace'') allMediaTypes versionedList versionedListOptions
               [namespace_param, name_param]]
            (ws\<lparr>ws_produces := allMediaTypes\<rparr>))"

definition EMHandlers_registerResourceHandlers ::
  "'o metrics_api_installer \<Rightarrow> 'o metrics_service \<Rightarrow> 'o metrics_service \<times> unit result" where
  "EMHandlers_registerResourceHandlers a ws =
     (case versioned_objects a of
        Abort e \<Rightarrow> (ws, Abort e)
      | Err err \<Rightarrow> (ws, Err err)
      | Ok (fqKindToRegister, versionedList, versionedListOptions) \<Rightarrow>
          let kind = gvk_Kind fqKindToRegister;
              allMediaTypes = all_media_types (agv_SupportedMediaTypes (mg_APIGroupVersion (ins_group a)));
              externalMetricHandler = ListHandler ''LIST'' ''external-metrics'' [] []
                (mg_DynamicStorage (ins_group a)) (request_scope_of a fqKindToRegister False (path_join [ins_prefix a, ''namespaces''] @ ''/''))
                (ins_minRequestTimeout a)
          in install_routes
            [\<lambda>ws. list_route ws ''namespaces/{namespace}/{resource}'' externalMetricHandler
               ''list external metrics'' (''list'' @ kind) allMediaTypes versionedList versionedListOptions
               [namespace_param, name_param]]
            (ws\<lparr>ws_produces := allMediaTypes\<rparr>))"

section \<open>Installing\<close>

text \<open>\<open>register\<close> is the method of the group's \<open>Handlers\<close>, one of the two above.\<close>

definition Install ::
  "('o metrics_api_installer \<Rightarrow> 'o metrics_service \<Rightarrow> 'o metrics_service \<times> unit result) \<Rightarrow>
   'o metrics_api_installer \<Rightarrow> 'o metrics_service \<Rightarrow> 'o metrics_service \<times> go_error list result" where
  "Install register a ws =
     (case register a ws of
        (ws', Abort e) \<Rightarrow> (ws', Abort e)
      | (ws', Err err) \<Rightarrow>
          (ws', Ok [Errorf ''error in registering custom metrics resource: %v'' [] [err]])
      | (ws', Ok _) \<Rightarrow> (ws', Ok []))"

definition AddToWebService ::
  "'o api_group_version \<Rightarrow> api_resource list \<Rightarrow> 'o metrics_service \<Rightarrow> 'o metrics_service result" where
  "AddToWebService g lister ws =
     (let mediaTypes = fst (MediaTypesForSerializer (agv_SupportedMediaTypes g))
      in ws_Route ws (Writes ''v1.APIResourceList'' (Consumes mediaTypes (Produces mediaTypes
           (Operation ''getAPIResources'' (Doc ''get available resources''
             (To (VersionDiscovery (agv_GroupVersion g) lister) (ws_method ''GET'' ws ''/''))))))))"

text \<open>\<open>utilerrors.NewAggregate\<close> on non-nil errors, as the outcome of a call.\<close>

definition NewAggregate :: "go_error list \<Rightarrow> unit result" where
  "NewAggregate errlist = (if length errlist = 0 then Ok () else Err (Aggregate errlist))"

definition InstallREST ::
  "('o metrics_api_installer \<Rightarrow> 'o metrics_service \<Rightarrow> 'o metrics_service \<times> unit result) \<Rightarrow>
   'o metrics_api_group_version \<Rightarrow> 'o metrics_service list \<Rightarrow> 'o metrics_service list \<times> unit result" where
  "InstallREST register g container =
     (let installer = newDynamicInstaller g;
          ws = NewWebService installer
      in (case Install register installer ws of
            (ws', Abort e) \<Rightarrow> (container, Abort e)
          | (ws', Err err) \<Rightarrow> (container, Err err)
          | (ws', Ok registrationErrors) \<Rightarrow>
              (case mg_ResourceLister g of
                 None \<Rightarrow> (container,
                   Err (Errorf ''must provide a dynamic lister for dynamic API groups'' [] []))
               | Some lister \<Rightarrow>
                   (case bind_result (AddToWebService (mg_APIGroupVersion g) lister ws')
                           (container_Add container) of
                      Abort e \<Rightarrow> (container, Abort e)
                    | Err err \<Rightarrow> (container, Err err)
                    | Ok container' \<Rightarrow> (container', NewAggregate registrationErrors)))))"

end
