(* ===== verification/Installer_Correct.thy ===== *)
theory Installer_Correct
  imports Installer Metrics_Rest
begin

text \<open>
  What \<open>InstallREST\<close> leaves in the container: the routes and their scopes, which request each of them
  gets, and what the error paths leave behind. The locale \<open>api_handlers\<close> is what the installer relies on
  from either kind of handlers.
\<close>

section \<open>Query parameters\<close>

lemma fields_loop_params:
  assumes "distinct (map sf_Name all)" and "set fs \<subseteq> set all"
  shows "fields_loop docs all fs route =
    route\<lparr>b_parameters := b_parameters route @ List.map_filter (field_param docs) fs\<rparr>"
  using assms(2)
proof (induction fs arbitrary: route)
  case Nil
  then show ?case by (simp add: List.map_filter_def)
next
  case (Cons f fs)
  then have f: "f \<in> set all" by simp
  then have "List.find (\<lambda>sf. sf_Name sf = sf_Name f) all = Some f"
    using assms(1) by (induction all) (auto simp: image_iff)
  then show ?case
    using Cons by (cases "field_param docs f") (simp_all add: List.map_filter_def Param_def)
qed

lemma addParams_parameters:
  "addParams route ps = route\<lparr>b_parameters := b_parameters route @ ps\<rparr>"
  by (induction ps arbitrary: route) (simp_all add: addParams_def Param_def)

text \<open>Neither loop touches anything but the parameters of a builder.\<close>

definition shape :: "('h, 's) route_builder \<Rightarrow> ('h, 's) route_builder" where
  "shape b = b\<lparr>b_parameters := []\<rparr>"

lemma shape_Param [simp]: "shape (Param p b) = shape b"
  by (simp add: shape_def Param_def)

lemma shape_fields_loop [simp]: "shape (fields_loop docs all fs route) = shape route"
  by (induction docs all fs route rule: fields_loop.induct) (auto split: option.splits)

lemma shape_addParams [simp]: "shape (addParams route ps) = shape route"
  by (simp add: addParams_parameters shape_def)

lemma shape_addObjectParams: "addObjectParams route obj = Ok route' \<Longrightarrow> shape route' = shape route"
  by (cases obj) (auto simp: addObjectParams_def EnforcePtr_def split: go_value.splits)

lemma shape_eqD:
  assumes "shape b = shape b'"
  shows "b_httpMethod b = b_httpMethod b'" "b_rootPath b = b_rootPath b'"
    "b_currentPath b = b_currentPath b'" "b_function b = b_function b'"
    "b_operation b = b_operation b'"
  using assms by (cases b; cases b'; simp add: shape_def)+

text \<open>
  What a field has to be: of a type that is neither an interface nor a struct nor a pointer to one (but for
  a pointer to one whose name the code excepts), and with a JSON name, which is what its tag has before the first comma.
\<close>

fun parameter_type :: "go_type \<Rightarrow> bool" where
  "parameter_type (OtherType n) \<longleftrightarrow> True"
| "parameter_type (PtrType (OtherType n)) \<longleftrightarrow> True"
| "parameter_type (PtrType (PtrType t)) \<longleftrightarrow> True"
| "parameter_type (PtrType (StructType n)) \<longleftrightarrow> n = ''metav1.Time''"
| "parameter_type (PtrType (InterfaceType n)) \<longleftrightarrow> n = ''metav1.Time''"
| "parameter_type (StructType n) \<longleftrightarrow> False"
| "parameter_type (InterfaceType n) \<longleftrightarrow> False"

definition json_name :: "struct_field \<Rightarrow> string" where
  "json_name f = takeWhile (\<lambda>c. c \<noteq> CHR '','') (sf_json f)"

definition field_description :: "(string, string) go_map option \<Rightarrow> string \<Rightarrow> string" where
  "field_description docs name =
     (case docs of None \<Rightarrow> [] | Some m \<Rightarrow> (case go_get m name of None \<Rightarrow> [] | Some d \<Rightarrow> d))"

lemma considered_parameter_type: "considered t \<longleftrightarrow> parameter_type t"
  by (cases t rule: parameter_type.cases) (simp_all add: trim_prefix_def has_prefix_def)

lemma hd_split_byte: "hd (split_byte c s) = takeWhile (\<lambda>x. x \<noteq> c) s"
  by (induction s) (auto split: list.splits simp: neq_Nil_conv)

lemma field_param_spec:
  "field_param docs f =
     (if parameter_type (sf_Type f) \<and> json_name f \<noteq> []
      then Some \<lparr>param_Name = json_name f, param_Description = field_description docs (json_name f),
        param_Required = False, param_DataType = typeToJSON (type_String (sf_Type f)), param_DefaultValue = [],
        param_Kind = QueryKind\<rparr>
      else None)"
  by (auto simp: field_param_def considered_parameter_type json_name_def field_description_def hd_split_byte Let_def
      DataType_def QueryParameter_def)

text \<open>
  C32: The query parameters of a struct. On a pointer to a struct whose fields have different names, the fields that
  become parameters are exactly those, in their order, that are not interfaces or structs or pointers to them (a pointer to one
  printed as \<open>metav1.Time\<close> excepted) and have a JSON name before the first comma of
  their tag: each becomes an optional query parameter of that name, of the data type \<open>typeToJSON\<close> gives its type, with the documented
  description if there is one. Nothing else of the route changes.
\<close>

theorem addObjectParams_fields:
  assumes "distinct (map sf_Name fs)"
  shows "addObjectParams route (Pointer (StructValue n fs) docs) =
    Ok (route\<lparr>b_parameters := b_parameters route @
      map (\<lambda>f. \<lparr>param_Name = json_name f, param_Description = field_description docs (json_name f),
          param_Required = False, param_DataType = typeToJSON (type_String (sf_Type f)), param_DefaultValue = [],
          param_Kind = QueryKind\<rparr>)
        (filter (\<lambda>f. parameter_type (sf_Type f) \<and> json_name f \<noteq> []) fs)\<rparr>)"
proof -
  have "List.map_filter (field_param docs) fs =
      map (\<lambda>f. \<lparr>param_Name = json_name f, param_Description = field_description docs (json_name f),
          param_Required = False, param_DataType = typeToJSON (type_String (sf_Type f)), param_DefaultValue = [],
          param_Kind = QueryKind\<rparr>)
        (filter (\<lambda>f. parameter_type (sf_Type f) \<and> json_name f \<noteq> []) fs)"
    by (induction fs) (simp_all add: List.map_filter_def field_param_spec)
  then show ?thesis
    by (simp add: addObjectParams_def EnforcePtr_def fields_loop_params [OF assms order_refl])
qed

text \<open>\<open>v1.ListOptions\<close>, as the API machinery declares it.\<close>

definition list_options_fields :: "struct_field list" where
  "list_options_fields =
     [\<lparr>sf_Name = ''TypeMeta'', sf_Type = StructType ''v1.TypeMeta'', sf_json = '',inline''\<rparr>,
      \<lparr>sf_Name = ''LabelSelector'', sf_Type = OtherType ''string'', sf_json = ''labelSelector,omitempty''\<rparr>,
      \<lparr>sf_Name = ''FieldSelector'', sf_Type = OtherType ''string'', sf_json = ''fieldSelector,omitempty''\<rparr>,
      \<lparr>sf_Name = ''IncludeUninitialized'', sf_Type = OtherType ''bool'', sf_json = ''includeUninitialized,omitempty''\<rparr>,
      \<lparr>sf_Name = ''Watch'', sf_Type = OtherType ''bool'', sf_json = ''watch,omitempty''\<rparr>,
      \<lparr>sf_Name = ''ResourceVersion'', sf_Type = OtherType ''string'', sf_json = ''resourceVersion,omitempty''\<rparr>,
      \<lparr>sf_Name = ''TimeoutSeconds'', sf_Type = PtrType (OtherType ''int64''), sf_json = ''timeoutSeconds,omitempty''\<rparr>,
      \<lparr>sf_Name = ''Limit'', sf_Type = OtherType ''int64'', sf_json = ''limit,omitempty''\<rparr>,
      \<lparr>sf_Name = ''Continue'', sf_Type = OtherType ''string'', sf_json = ''continue,omitempty''\<rparr>]"

definition list_options_object :: go_object where
  "list_options_object = Pointer (StructValue ''v1.ListOptions'' list_options_fields) (Some [(''watch'', ''Watch for changes'')])"

theorem addObjectParams_fields_witness:
  "\<exists>route. addObjectParams (ws_method ''GET'' (new_web_service :: (nat, string) web_service) ''x'') list_options_object = Ok route \<and>
     map (\<lambda>p. (param_Name p, param_DataType p, param_Description p)) (b_parameters route) =
       [(''labelSelector'', ''string'', []), (''fieldSelector'', ''string'', []),
        (''includeUninitialized'', ''boolean'', []), (''watch'', ''boolean'', ''Watch for changes''),
        (''resourceVersion'', ''string'', []), (''timeoutSeconds'', ''integer'', []),
        (''limit'', ''integer'', []), (''continue'', ''string'', [])]"
proof -
  have "distinct (map sf_Name list_options_fields)" by (simp add: list_options_fields_def)
  from addObjectParams_fields [OF this, of "ws_method ''GET'' (new_web_service :: (nat, string) web_service) ''x''" "''v1.ListOptions''" "Some [(''watch'', ''Watch for changes'')]"]
  show ?thesis
    by (simp add: list_options_object_def list_options_fields_def json_name_def field_description_def typeToJSON_def
        ws_method_def)
qed

text \<open>
  The exception meant for times never applies. \<open>reflect\<close> prints \<open>metav1.Time\<close> as \<open>v1.Time\<close>, so a field
  that is a pointer to it is skipped like any other pointer to a struct, whatever its JSON name, and a
  type that prints this way is not given a JSON name.
\<close>

lemma time_field_skipped:
  "field_param docs \<lparr>sf_Name = n, sf_Type = PtrType (StructType ''v1.Time''), sf_json = tag\<rparr> = None \<and>
   typeToJSON (type_String (PtrType (StructType ''v1.Time''))) = ''*v1.Time''"
  by (simp add: field_param_def trim_prefix_def has_prefix_def typeToJSON_def)

section \<open>Kinds\<close>

definition third_party :: "group_version_kind \<Rightarrow> bool" where
  "third_party k \<longleftrightarrow> gvk_Group k = ''extensions'' \<and> gvk_Kind k = ''ThirdPartyResourceData''"

lemma kind_loop_spec:
  "kind_loop gv ks acc =
    (case List.find (\<lambda>k. gvk_Group k = gv_Group gv) ks of
       Some k \<Rightarrow> WithKind gv (gvk_Kind k)
     | None \<Rightarrow> if \<exists>k \<in> set ks. third_party k then WithKind gv ''ThirdPartyResourceData'' else acc)"
  by (induction gv ks acc rule: kind_loop.induct) (auto simp: third_party_def split: option.splits)

text \<open>
  The kind registered for a storage is the first of its object's kinds that is in the group, at the
  group's version; failing that, the third-party kind, if the object has it; and otherwise an error,
  which is not a not-found error.
\<close>

lemma getResourceKind_spec:
  assumes "agv_ObjectKinds (mg_APIGroupVersion (ins_group a)) (st_New storage) = Ok kinds"
    and "gv = agv_GroupVersion (mg_APIGroupVersion (ins_group a))" and "gv_Version gv \<noteq> []"
  shows "case List.find (\<lambda>k. gvk_Group k = gv_Group gv) kinds of
      Some k \<Rightarrow> getResourceKind a storage = Ok (WithKind gv (gvk_Kind k))
    | None \<Rightarrow> if \<exists>k \<in> set kinds. third_party k
              then getResourceKind a storage = Ok (WithKind gv ''ThirdPartyResourceData'')
              else (\<exists>e. getResourceKind a storage = Err e \<and> \<not> IsNotFound e)"
  using assms
  by (auto simp: getResourceKind_def kind_loop_spec gvk_Empty_def empty_kind_def WithKind_def Let_def
      split: option.splits)

section \<open>What handlers do to a service\<close>

text \<open>
  Handlers add routes to the service they are given, all of them for \<open>GET\<close>, and leave its root alone;
  when the kinds cannot be resolved they add nothing. The client is \<open>InstallREST\<close>.
\<close>

locale api_handlers =
  fixes register :: "'o metrics_api_installer \<Rightarrow> 'o metrics_service \<Rightarrow> 'o metrics_service \<times> unit result"
  assumes keeps_root: "ws_rootPath (fst (register a ws)) = ws_rootPath ws"
    and adds_gets: "\<exists>rs. ws_routes (fst (register a ws)) = ws_routes ws @ rs \<and> (\<forall>r \<in> set rs. r_Method r = ''GET'')"
    and fails_early: "versioned_objects a = Err e \<Longrightarrow> register a ws = (ws, Err e)"

lemma ws_Route_builder:
  assumes "ws_Route ws b = Ok ws'"
  shows "\<exists>r. ws' = ws\<lparr>ws_routes := ws_routes ws @ [r]\<rparr> \<and> r_Method r = b_httpMethod b \<and>
    r_Path r = concatPath (b_rootPath b) (b_currentPath b) \<and>
    r_pathParts r = tokenizePath (concatPath (b_rootPath b) (b_currentPath b)) \<and>
    b_function b = Some (r_Function r) \<and> r_ParameterDocs r = b_parameters b"
  using assms by (auto simp: ws_Route_def Build_def Let_def split: option.splits)

lemma list_route_shape:
  assumes "list_route ws path h doc op media vl opts ps = Ok b"
  shows "b_httpMethod b = ''GET''" "b_rootPath b = ws_rootPath ws" "b_currentPath b = path"
    "b_function b = Some h" "b_operation b = op"
proof -
  obtain b' where b': "addObjectParams (Writes (value_type vl) (Returns 200 ''OK'' (value_type vl)
      (Produces media (Operation op (Param (QueryParameter ''pretty''
        ''If 'true', then the output is pretty printed.'') (Doc doc (To h (ws_method ''GET'' ws path)))))))) opts = Ok b'"
    and b: "b = addParams b' ps"
    using assms by (auto simp: list_route_def)
  note same = shape_eqD [OF trans [OF shape_addParams shape_addObjectParams [OF b'], of ps]]
  show "b_httpMethod b = ''GET''" "b_rootPath b = ws_rootPath ws" "b_currentPath b = path"
    "b_function b = Some h" "b_operation b = op"
    unfolding b same by (simp_all add: builder_defs)
qed

text \<open>A list of builders that all make \<open>GET\<close> routes.\<close>

definition get_builder ::
  "('o metrics_service \<Rightarrow> ('o metrics_handler, string) route_builder result) \<Rightarrow> bool" where
  "get_builder r \<longleftrightarrow> (\<forall>ws b. r ws = Ok b \<longrightarrow> b_httpMethod b = ''GET'')"

lemma get_builder_list_route: "get_builder (\<lambda>ws. list_route ws path h doc op media vl opts ps)"
  by (auto simp: get_builder_def list_route_shape)

lemma install_routes_gets:
  assumes "\<forall>r \<in> set rs. get_builder r"
  shows "ws_rootPath (fst (install_routes rs ws)) = ws_rootPath ws \<and>
    (\<exists>rs'. ws_routes (fst (install_routes rs ws)) = ws_routes ws @ rs' \<and>
       (\<forall>r \<in> set rs'. r_Method r = ''GET''))"
  using assms
proof (induction rs arbitrary: ws)
  case Nil
  then show ?case by simp
next
  case (Cons r rs)
  show ?case
  proof (cases "\<exists>b ws'. r ws = Ok b \<and> ws_Route ws b = Ok ws'")
    case True
    then obtain b ws' where b: "r ws = Ok b" and ws': "ws_Route ws b = Ok ws'" by auto
    have get: "b_httpMethod b = ''GET''" using Cons.prems b by (simp add: get_builder_def)
    obtain x where x: "ws' = ws\<lparr>ws_routes := ws_routes ws @ [x]\<rparr>" "r_Method x = ''GET''"
      using ws_Route_builder [OF ws'] get by auto
    obtain rs' where "ws_routes (fst (install_routes rs ws')) = ws_routes ws' @ rs'"
      "\<forall>r \<in> set rs'. r_Method r = ''GET''" "ws_rootPath (fst (install_routes rs ws')) = ws_rootPath ws'"
      using Cons.IH [of ws'] Cons.prems by auto
    then show ?thesis using x by (auto simp: b ws' intro!: exI [of _ "x # rs'"])
  next
    case False
    then show ?thesis by (auto split: result.splits)
  qed
qed

interpretation cm: api_handlers CMHandlers_registerResourceHandlers
proof (unfold_locales, goal_cases)
  case (1 a ws)
  then show ?case
    by (auto simp: CMHandlers_registerResourceHandlers_def Let_def install_routes_gets
        get_builder_list_route split: result.splits prod.splits simp del: install_routes.simps)
next
  case (2 a ws)
  let ?ws = "ws\<lparr>ws_produces := all_media_types (agv_SupportedMediaTypes (mg_APIGroupVersion (ins_group a)))\<rparr>"
  show ?case
    using install_routes_gets [where ws = ?ws]
    by (auto simp: CMHandlers_registerResourceHandlers_def Let_def
        get_builder_list_route split: result.splits prod.splits simp del: install_routes.simps)
next
  case (3 a e ws)
  then show ?case by (simp add: CMHandlers_registerResourceHandlers_def)
qed

interpretation em: api_handlers EMHandlers_registerResourceHandlers
proof (unfold_locales, goal_cases)
  case (1 a ws)
  then show ?case
    by (auto simp: EMHandlers_registerResourceHandlers_def Let_def install_routes_gets
        get_builder_list_route split: result.splits prod.splits simp del: install_routes.simps)
next
  case (2 a ws)
  let ?ws = "ws\<lparr>ws_produces := all_media_types (agv_SupportedMediaTypes (mg_APIGroupVersion (ins_group a)))\<rparr>"
  show ?case
    using install_routes_gets [where ws = ?ws]
    by (auto simp: EMHandlers_registerResourceHandlers_def Let_def
        get_builder_list_route split: result.splits prod.splits simp del: install_routes.simps)
next
  case (3 a e ws)
  then show ?case by (simp add: EMHandlers_registerResourceHandlers_def)
qed

section \<open>The installed services\<close>

lemma install_list_route:
  "\<exists>r. install_routes ((\<lambda>ws. list_route ws path h doc op media vl (Pointer v docs) ps) # rs) ws =
      install_routes rs (ws\<lparr>ws_routes := ws_routes ws @ [r]\<rparr>) \<and>
    route_summary r = (''GET'', tokenizePath (concatPath (ws_rootPath ws) path), h)"
proof -
  obtain b where b: "list_route ws path h doc op media vl (Pointer v docs) ps = Ok b"
    by (cases v) (auto simp: list_route_def addObjectParams_def EnforcePtr_def)
  note shape = list_route_shape [OF b]
  obtain r where "ws_Route ws b = Ok (ws\<lparr>ws_routes := ws_routes ws @ [r]\<rparr>)"
    "route_summary r = (''GET'', tokenizePath (concatPath (ws_rootPath ws) path), h)"
    using ws_Route_Ok [OF shape(4), of ws] shape by auto
  then show ?thesis by (intro exI [of _ r]) (simp add: b)
qed

definition list_routes ::
  "string list \<Rightarrow> go_value \<Rightarrow> go_object \<Rightarrow>
   (string \<times> 'o metrics_handler \<times> string \<times> string \<times> parameter list) list \<Rightarrow>
   ('o metrics_service \<Rightarrow> ('o metrics_handler, string) route_builder result) list" where
  "list_routes media vl opts specs =
     map (\<lambda>(path, h, doc, op, ps). \<lambda>ws. list_route ws path h doc op media vl opts ps) specs"

lemma install_list_routes:
  "\<exists>rs. install_routes (list_routes media vl (Pointer v docs) specs) ws =
      (ws\<lparr>ws_routes := ws_routes ws @ rs\<rparr>, Ok ()) \<and>
    map route_summary rs = map (\<lambda>(path, h, _). (''GET'', tokenizePath (concatPath (ws_rootPath ws) path), h)) specs"
proof (induction specs arbitrary: ws)
  case Nil
  then show ?case by (simp add: list_routes_def)
next
  case (Cons spec specs)
  obtain path h doc op ps where spec: "spec = (path, h, doc, op, ps)" by (cases spec)
  let ?rest = "list_routes media vl (Pointer v docs) specs"
  obtain r where r: "install_routes ((\<lambda>ws. list_route ws path h doc op media vl (Pointer v docs) ps) # ?rest) ws =
      install_routes ?rest (ws\<lparr>ws_routes := ws_routes ws @ [r]\<rparr>)"
    "route_summary r = (''GET'', tokenizePath (concatPath (ws_rootPath ws) path), h)"
    using install_list_route by blast
  obtain rs where "install_routes ?rest (ws\<lparr>ws_routes := ws_routes ws @ [r]\<rparr>) =
      (ws\<lparr>ws_routes := ws_routes ws @ r # rs\<rparr>, Ok ())"
    "map route_summary rs = map (\<lambda>(path, h, _). (''GET'', tokenizePath (concatPath (ws_rootPath ws) path), h)) specs"
    using Cons.IH [of "ws\<lparr>ws_routes := ws_routes ws @ [r]\<rparr>"] by auto
  then show ?case
    using r by (intro exI [of _ "r # rs"]) (simp add: spec list_routes_def)
qed

text \<open>The prefix of a group version under \<open>/apis\<close>, and the service's root.\<close>

definition api_root :: "group_version \<Rightarrow> string list" where
  "api_root gv = [''apis'', gv_Group gv, gv_Version gv]"

definition serves_under_apis :: "'o metrics_api_group_version \<Rightarrow> bool" where
  "serves_under_apis g \<longleftrightarrow>
     agv_Root (mg_APIGroupVersion g) = ''/apis'' \<and>
     plain_element (gv_Group (agv_GroupVersion (mg_APIGroupVersion g))) \<and>
     plain_element (gv_Version (agv_GroupVersion (mg_APIGroupVersion g)))"

lemma plain_segment: "plain_element s \<Longrightarrow> segment s"
  by (simp add: plain_element_def segment_def)

lemma api_root_segments:
  "serves_under_apis g \<Longrightarrow> \<forall>s \<in> set (api_root (agv_GroupVersion (mg_APIGroupVersion g))). segment s"
  by (auto simp: serves_under_apis_def api_root_def plain_segment) (simp add: segment_def)

lemma installer_prefix:
  assumes "serves_under_apis g"
  shows "ins_prefix (newDynamicInstaller g)
    = CHR ''/'' # join_byte (CHR ''/'') (api_root (agv_GroupVersion (mg_APIGroupVersion g)))"
  using assms path_join_plain [of "''apis''" "[gv_Group (agv_GroupVersion (mg_APIGroupVersion g)),
      gv_Version (agv_GroupVersion (mg_APIGroupVersion g))]"]
  by (simp add: newDynamicInstaller_def serves_under_apis_def api_root_def plain_element_def)

lemma installer_simps [simp]:
  "ins_group (newDynamicInstaller g) = g"
  "ins_minRequestTimeout (newDynamicInstaller g) = agv_MinRequestTimeout (mg_APIGroupVersion g)"
  by (simp_all add: newDynamicInstaller_def)

lemma NewWebService_simps:
  assumes "serves_under_apis g"
  shows "ws_rootPath (NewWebService (newDynamicInstaller g)) = ins_prefix (newDynamicInstaller g)"
    and "ws_routes (NewWebService (newDynamicInstaller g)) = []"
  by (simp_all add: NewWebService_def ws_Path_def new_web_service_def Let_def installer_prefix [OF assms])

lemma AddToWebService_Ok:
  "\<exists>r. AddToWebService g l ws = Ok (ws\<lparr>ws_routes := ws_routes ws @ [r]\<rparr>) \<and>
    route_summary r = (''GET'', tokenizePath (concatPath (ws_rootPath ws) ''/''),
      VersionDiscovery (agv_GroupVersion g) l)"
proof -
  let ?m = "fst (MediaTypesForSerializer (agv_SupportedMediaTypes g))"
  let ?b = "Writes ''v1.APIResourceList'' (Consumes ?m (Produces ?m
      (Operation ''getAPIResources'' (Doc ''get available resources''
        (To (VersionDiscovery (agv_GroupVersion g) l) (ws_method ''GET'' ws ''/''))))))"
  have "b_function ?b = Some (VersionDiscovery (agv_GroupVersion g) l)" by (simp add: builder_defs)
  from ws_Route_Ok [OF this, of ws] show ?thesis
    by (simp add: AddToWebService_def Let_def) (simp add: builder_defs)
qed

text \<open>Installing, once the handlers have registered their routes or failed to.\<close>

lemma InstallREST_registered:
  assumes "register (newDynamicInstaller g) (NewWebService (newDynamicInstaller g)) = (ws, r)"
    and "r = Ok () \<or> r = Err e" and "ws_rootPath ws = ins_prefix (newDynamicInstaller g)"
    and "mg_ResourceLister g = Some l" and "serves_under_apis g"
    and "\<forall>s \<in> set container. ws_rootPath s \<noteq> ins_prefix (newDynamicInstaller g)"
  shows "\<exists>ws'. InstallREST register g container = (container @ [ws'],
      if r = Ok () then Ok ()
      else Err (Aggregate [Errorf ''error in registering custom metrics resource: %v'' [] [e]])) \<and>
    ws_rootPath ws' = ins_prefix (newDynamicInstaller g) \<and>
    map route_summary (ws_routes ws') = map route_summary (ws_routes ws) @
      [(''GET'', api_root (agv_GroupVersion (mg_APIGroupVersion g)),
        VersionDiscovery (agv_GroupVersion (mg_APIGroupVersion g)) l)]"
proof -
  let ?gv = "agv_GroupVersion (mg_APIGroupVersion g)"
  obtain x where x: "AddToWebService (mg_APIGroupVersion g) l ws = Ok (ws\<lparr>ws_routes := ws_routes ws @ [x]\<rparr>)"
    "route_summary x = (''GET'', tokenizePath (concatPath (ws_rootPath ws) ''/''), VersionDiscovery ?gv l)"
    using AddToWebService_Ok by blast
  have "tokenizePath (concatPath (ws_rootPath ws) ''/'') = api_root ?gv"
    unfolding assms(3) installer_prefix [OF assms(5)]
    using api_root_segments [OF assms(5)] by (intro concat_root_tokens) (simp_all add: api_root_def)
  moreover have "container_Add container (ws\<lparr>ws_routes := ws_routes ws @ [x]\<rparr>)
      = Ok (container @ [ws\<lparr>ws_routes := ws_routes ws @ [x]\<rparr>])"
    using assms(3,6) by (intro container_Add_Ok) (simp_all add: installer_prefix [OF assms(5)])
  ultimately show ?thesis
    using assms(1-4) x by (auto simp: InstallREST_def Install_def Let_def NewAggregate_def)
qed

text \<open>The templates of the two APIs below the version.\<close>

definition custom_templates :: "string list list" where
  "custom_templates =
     [[''{resource}'', ''{name}'', ''{subresource}''],
      [''namespaces'', ''{namespace}'', ''{resource}'', ''{name}'', ''{subresource}''],
      [''namespaces'', ''{namespace}'', ''metrics'', ''{name}'']]"

definition external_template :: "string list" where
  "external_template = [''namespaces'', ''{namespace}'', ''{resource}'']"

text \<open>The handlers of the custom metrics routes, with the scope each names its objects by.\<close>

definition custom_handlers :: "'o metrics_api_group_version \<Rightarrow> group_version_kind \<Rightarrow> 'o metrics_handler list" where
  "custom_handlers g kind =
     (let a = newDynamicInstaller g;
          p = CHR ''/'' # join_byte (CHR ''/'') (api_root (agv_GroupVersion (mg_APIGroupVersion g)));
          t = agv_MinRequestTimeout (mg_APIGroupVersion g);
          st = mg_DynamicStorage g
      in [ListHandler ''LIST'' ''custom-metrics'' [] ''cluster'' st (request_scope_of a kind True (p @ ''/'')) t,
          ListHandler ''LIST'' ''custom-metrics-namespaced'' [] ''namespace'' st
            (request_scope_of a kind False (p @ ''/namespaces/'')) t,
          ListHandler ''LIST'' ''custom-metrics-for-namespace'' [] ''cluster'' st
            (request_scope_of a kind False (p @ ''/namespaces/'')) t])"

definition custom_paths :: "string list" where
  "custom_paths =
     [''{resource}/{name}/{subresource}'',
      ''namespaces/{namespace}/{resource}/{name}/{subresource}'',
      ''namespaces/{namespace}/metrics/{name}'']"

lemma template_paths:
  "custom_paths = map (join_byte (CHR ''/'')) custom_templates"
  "''namespaces/{namespace}/{resource}'' = join_byte (CHR ''/'') external_template"
  by (simp_all add: custom_paths_def custom_templates_def external_template_def)

lemma template_segments:
  "\<forall>ts \<in> set custom_templates. ts \<noteq> [] \<and> (\<forall>t \<in> set ts. segment t)"
  "external_template \<noteq> []" "\<forall>t \<in> set external_template. segment t"
  by (simp_all add: custom_templates_def external_template_def segment_def)

lemma prefix_namespaces:
  assumes "serves_under_apis g"
  shows "path_join [ins_prefix (newDynamicInstaller g), ''namespaces'']
    = ins_prefix (newDynamicInstaller g) @ ''/namespaces''"
proof -
  let ?r = "api_root (agv_GroupVersion (mg_APIGroupVersion g))"
  have plain: "\<forall>v \<in> set (?r @ [''namespaces'']). plain_element v"
    using assms by (simp add: serves_under_apis_def api_root_def) (simp add: plain_element_def)
  have "path_join [CHR ''/'' # join_byte (CHR ''/'') ?r, ''namespaces'']
      = path_join ((CHR ''/'' # hd ?r) # tl ?r @ [''namespaces''])"
    by (simp add: path_join_def api_root_def)
  also have "\<dots> = CHR ''/'' # join_byte (CHR ''/'') (?r @ [''namespaces''])"
    using path_join_plain [of "hd ?r" "tl ?r @ [''namespaces'']"] plain by (simp add: api_root_def)
  also have "\<dots> = ins_prefix (newDynamicInstaller g) @ ''/namespaces''"
    unfolding installer_prefix [OF assms] by (simp add: api_root_def)
  finally show ?thesis by (simp add: installer_prefix [OF assms])
qed

text \<open>Both kinds of handlers on the service of the installer.\<close>

lemma template_tokens:
  assumes "serves_under_apis g" and "ts \<noteq> []" and "\<forall>t \<in> set ts. segment t"
  shows "tokenizePath (concatPath (ins_prefix (newDynamicInstaller g)) (join_byte (CHR ''/'') ts))
    = api_root (agv_GroupVersion (mg_APIGroupVersion g)) @ ts"
  unfolding installer_prefix [OF assms(1)]
  using api_root_segments [OF assms(1)] assms(2,3) by (intro concat_tokens) (auto simp: api_root_def)

lemma custom_registers:
  assumes "serves_under_apis g"
    and "versioned_objects (newDynamicInstaller g) = Ok (kind, vl, Pointer v docs)"
  shows "\<exists>ws. CMHandlers_registerResourceHandlers (newDynamicInstaller g)
      (NewWebService (newDynamicInstaller g)) = (ws, Ok ()) \<and>
    ws_rootPath ws = ins_prefix (newDynamicInstaller g) \<and>
    map route_summary (ws_routes ws) =
      map (\<lambda>(t, h). (''GET'', api_root (agv_GroupVersion (mg_APIGroupVersion g)) @ t, h))
        (zip custom_templates (custom_handlers g kind))"
proof -
  let ?media = "all_media_types (agv_SupportedMediaTypes (mg_APIGroupVersion g))"
  let ?ws = "NewWebService (newDynamicInstaller g)\<lparr>ws_produces := ?media\<rparr>"
  let ?doc = "''list custom metrics describing an object or objects''"
  let ?hs = "custom_handlers g kind"
  let ?specs = "[(custom_paths ! 0, ?hs ! 0, ?doc, ''list'' @ gvk_Kind kind,
        [resource_param, name_param, subresource_param]),
      (custom_paths ! 1, ?hs ! 1, ?doc, ''listNamespaced'' @ gvk_Kind kind,
        [namespace_param, resource_param, name_param, subresource_param]),
      (custom_paths ! 2, ?hs ! 2, ?doc, ''read'' @ gvk_Kind kind @ ''ForNamespace'',
        [namespace_param, name_param])]"
  have "CMHandlers_registerResourceHandlers (newDynamicInstaller g) (NewWebService (newDynamicInstaller g))
      = install_routes (list_routes ?media vl (Pointer v docs) ?specs) ?ws"
    unfolding CMHandlers_registerResourceHandlers_def assms(2) list_routes_def Let_def
    unfolding prefix_namespaces [OF assms(1)]
    unfolding installer_prefix [OF assms(1)]
    by (simp add: custom_handlers_def custom_paths_def Let_def del: install_routes.simps)
  moreover obtain rs where
    "install_routes (list_routes ?media vl (Pointer v docs) ?specs) ?ws = (?ws\<lparr>ws_routes := ws_routes ?ws @ rs\<rparr>, Ok ())"
    "map route_summary rs = map (\<lambda>(path, h, _). (''GET'', tokenizePath (concatPath (ws_rootPath ?ws) path), h)) ?specs"
    using install_list_routes by blast
  moreover have "map (\<lambda>(path, h, _). (''GET'', tokenizePath (concatPath (ws_rootPath ?ws) path), h)) ?specs
      = map (\<lambda>(t, h). (''GET'', api_root (agv_GroupVersion (mg_APIGroupVersion g)) @ t, h))
          (zip custom_templates ?hs)"
    using template_segments(1)
    by (simp add: NewWebService_simps [OF assms(1)] template_paths custom_templates_def
        template_tokens [OF assms(1)] custom_handlers_def Let_def del: join_byte.simps)
  ultimately show ?thesis
    using NewWebService_simps [OF assms(1)] by simp
qed

definition external_handler :: "'o metrics_api_group_version \<Rightarrow> group_version_kind \<Rightarrow> 'o metrics_handler" where
  "external_handler g kind =
     ListHandler ''LIST'' ''external-metrics'' [] [] (mg_DynamicStorage g)
       (request_scope_of (newDynamicInstaller g) kind False
         (CHR ''/'' # join_byte (CHR ''/'') (api_root (agv_GroupVersion (mg_APIGroupVersion g))) @ ''/namespaces/''))
       (agv_MinRequestTimeout (mg_APIGroupVersion g))"

lemma external_registers:
  assumes "serves_under_apis g"
    and "versioned_objects (newDynamicInstaller g) = Ok (kind, vl, Pointer v docs)"
  shows "\<exists>ws. EMHandlers_registerResourceHandlers (newDynamicInstaller g)
      (NewWebService (newDynamicInstaller g)) = (ws, Ok ()) \<and>
    ws_rootPath ws = ins_prefix (newDynamicInstaller g) \<and>
    map route_summary (ws_routes ws) =
      [(''GET'', api_root (agv_GroupVersion (mg_APIGroupVersion g)) @ external_template, external_handler g kind)]"
proof -
  let ?media = "all_media_types (agv_SupportedMediaTypes (mg_APIGroupVersion g))"
  let ?ws = "NewWebService (newDynamicInstaller g)\<lparr>ws_produces := ?media\<rparr>"
  let ?specs = "[(''namespaces/{namespace}/{resource}'', external_handler g kind, ''list external metrics'',
      ''list'' @ gvk_Kind kind, [namespace_param, name_param])]"
  have "EMHandlers_registerResourceHandlers (newDynamicInstaller g) (NewWebService (newDynamicInstaller g))
      = install_routes (list_routes ?media vl (Pointer v docs) ?specs) ?ws"
    unfolding EMHandlers_registerResourceHandlers_def assms(2) list_routes_def Let_def
    unfolding prefix_namespaces [OF assms(1)]
    unfolding installer_prefix [OF assms(1)]
    by (simp add: external_handler_def del: install_routes.simps)
  moreover obtain rs where
    "install_routes (list_routes ?media vl (Pointer v docs) ?specs) ?ws = (?ws\<lparr>ws_routes := ws_routes ?ws @ rs\<rparr>, Ok ())"
    "map route_summary rs = map (\<lambda>(path, h, _). (''GET'', tokenizePath (concatPath (ws_rootPath ?ws) path), h)) ?specs"
    using install_list_routes by blast
  moreover have "map (\<lambda>(path, h, _). (''GET'', tokenizePath (concatPath (ws_rootPath ?ws) path), h)) ?specs
      = [(''GET'', api_root (agv_GroupVersion (mg_APIGroupVersion g)) @ external_template, external_handler g kind)]"
    using template_tokens [OF assms(1) template_segments(2,3)]
    by (simp add: NewWebService_simps [OF assms(1)] flip: template_paths(2))
  ultimately show ?thesis
    using NewWebService_simps [OF assms(1)] by simp
qed

section \<open>Which route a request gets\<close>

text \<open>The names of an API: no colon, star or brace, so they stand for themselves in a template.\<close>

definition literal :: "string \<Rightarrow> bool" where
  "literal s \<longleftrightarrow> CHR '':'' \<notin> set s \<and> CHR ''*'' \<notin> set s \<and> \<not> has_prefix s ''{''"

lemma api_root_template:
  assumes "literal (gv_Group gv)" and "literal (gv_Version gv)"
    and "\<forall>t \<in> set ts. CHR '':'' \<notin> set t \<and> CHR ''*'' \<notin> set t"
  shows "template (api_root gv @ ts)"
  using assms by (intro template_of_tokens) (auto simp: literal_def api_root_def)

text \<open>The route of a path below the version, by its number: three kinds of metrics, or discovery.\<close>

fun custom_route :: "string list \<Rightarrow> nat option" where
  "custom_route [] = Some 3"
| "custom_route [a, b, c] = Some 0"
| "custom_route [a, b, c, d] = (if a = ''namespaces'' \<and> c = ''metrics'' then Some 2 else None)"
| "custom_route [a, b, c, d, e] = (if a = ''namespaces'' then Some 1 else None)"
| "custom_route segs = None"

fun external_route :: "string list \<Rightarrow> nat option" where
  "external_route [] = Some 1"
| "external_route [a, b, c] = (if a = ''namespaces'' then Some 0 else None)"
| "external_route segs = None"

text \<open>The routes of a service with these templates and handlers and, at its root, the discovery.\<close>

definition api_table ::
  "string list list \<Rightarrow> 'o metrics_handler list \<Rightarrow> group_version \<Rightarrow> api_resource list \<Rightarrow>
   (string \<times> string list \<times> 'o metrics_handler) list" where
  "api_table templates hs gv l =
     map (\<lambda>(t, h). (''GET'', api_root gv @ t, h)) (zip (templates @ [[]]) (hs @ [VersionDiscovery gv l]))"

text \<open>What a request below the version reaches, as the abstract table of the routes.\<close>

definition api_endpoint ::
  "(string list \<Rightarrow> nat option) \<Rightarrow> 'o metrics_handler list \<Rightarrow> string \<Rightarrow> string list \<Rightarrow> int + 'o metrics_handler" where
  "api_endpoint route hs m segs =
     (case route segs of None \<Rightarrow> Inl 404 | Some i \<Rightarrow> if m = ''GET'' then Inr (hs ! i) else Inl 405)"

lemma api_table_nth:
  assumes "length hs = length templates"
  shows "api_table templates hs gv l =
    map (\<lambda>i. (''GET'', api_root gv @ (templates @ [[]]) ! i, (hs @ [VersionDiscovery gv l]) ! i)) [0..<Suc (length templates)]"
  unfolding api_table_def using assms by (intro nth_equalityI) (simp_all del: upt_Suc zip_append)

lemma token_matches_simps [simp]:
  "token_matches ''{resource}'' q" "token_matches ''{name}'' q" "token_matches ''{subresource}'' q"
  "token_matches ''{namespace}'' q" "token_matches ''namespaces'' q \<longleftrightarrow> q = ''namespaces''"
  "token_matches ''metrics'' q \<longleftrightarrow> q = ''metrics''"
  by (simp_all add: token_matches_def has_prefix_def)

text \<open>
  Handlers whose routes are known: the templates and handlers they register, and which of them each path
  below the version matches, the last number being that of the discovery. The client is \<open>InstallREST\<close>.
\<close>

locale routed_handlers = api_handlers register
  for register :: "'o metrics_api_installer \<Rightarrow> 'o metrics_service \<Rightarrow> 'o metrics_service \<times> unit result" +
  fixes templates :: "string list list"
    and handlers :: "'o metrics_api_group_version \<Rightarrow> group_version_kind \<Rightarrow> 'o metrics_handler list"
    and route :: "string list \<Rightarrow> nat option"
  assumes registers: "serves_under_apis g \<Longrightarrow> versioned_objects (newDynamicInstaller g) = Ok (kind, vl, Pointer v docs) \<Longrightarrow>
      \<exists>ws. register (newDynamicInstaller g) (NewWebService (newDynamicInstaller g)) = (ws, Ok ()) \<and>
        ws_rootPath ws = ins_prefix (newDynamicInstaller g) \<and>
        map route_summary (ws_routes ws) =
          map (\<lambda>(t, h). (''GET'', api_root (agv_GroupVersion (mg_APIGroupVersion g)) @ t, h)) (zip templates (handlers g kind))"
    and as_many: "length (handlers g kind) = length templates"
    and plain: "ts \<in> set templates \<Longrightarrow> t \<in> set ts \<Longrightarrow> CHR '':'' \<notin> set t \<and> CHR ''*'' \<notin> set t"
    and routes: "filter (\<lambda>i. list_all2 token_matches ((templates @ [[]]) ! i) segs) [0..<Suc (length templates)] =
      (case route segs of None \<Rightarrow> [] | Some i \<Rightarrow> [i])"
begin

lemma table_hits:
  "filter (\<lambda>s. list_all2 token_matches (fst (snd s)) (api_root gv @ segs)) (api_table templates (handlers g kind) gv l) =
    (case route segs of None \<Rightarrow> [] | Some i \<Rightarrow>
       [(''GET'', api_root gv @ (templates @ [[]]) ! i, (handlers g kind @ [VersionDiscovery gv l]) ! i)])"
proof -
  have "list_all2 token_matches (api_root gv @ t) (api_root gv @ segs) \<longleftrightarrow> list_all2 token_matches t segs" for t
    by (simp add: api_root_def)
  then show ?thesis
    unfolding api_table_nth [OF as_many] filter_map
    using routes [of segs] by (simp add: comp_def split: option.splits)
qed

lemma table_templates:
  assumes "literal (gv_Group gv)" and "literal (gv_Version gv)"
  shows "\<forall>s \<in> set (api_table templates (handlers g kind) gv l). template (fst (snd s))"
proof -
  have "template (api_root gv @ t)" if "t \<in> set (templates @ [[]])" for t
    using that plain by (intro api_root_template [OF assms]) auto
  then show ?thesis by (auto simp: api_table_def dest: set_zip_leftD)
qed

lemma installed:
  assumes "gv = agv_GroupVersion (mg_APIGroupVersion g)"
    and "serves_under_apis g" and "literal (gv_Group gv)" and "literal (gv_Version gv)"
    and "versioned_objects (newDynamicInstaller g) = Ok (kind, vl, Pointer v docs)"
    and "mg_ResourceLister g = Some l"
    and "\<forall>s \<in> set container. ws_rootPath s \<noteq> ins_prefix (newDynamicInstaller g)"
  shows "\<exists>ws. InstallREST register g container = (container @ [ws], Ok ()) \<and>
    ws_rootPath ws = CHR ''/'' # join_byte (CHR ''/'') (api_root gv) \<and>
    (\<forall>r \<in> set (ws_routes ws). r_Method r = ''GET'' \<and> r_Function r \<in> set (handlers g kind @ [VersionDiscovery gv l])) \<and>
    (\<forall>m path segs. tokenizePath path = api_root gv @ segs \<longrightarrow>
       selected_handler (route_by_method rx ws m path) = api_endpoint route (handlers g kind @ [VersionDiscovery gv l]) m segs)"
proof -
  obtain ws where reg: "register (newDynamicInstaller g) (NewWebService (newDynamicInstaller g)) = (ws, Ok ())"
    and root: "ws_rootPath ws = ins_prefix (newDynamicInstaller g)"
    and summaries: "map route_summary (ws_routes ws) =
      map (\<lambda>(t, h). (''GET'', api_root gv @ t, h)) (zip templates (handlers g kind))"
    using registers [OF assms(2,5)] by (auto simp: assms(1))
  obtain ws' where inst: "InstallREST register g container = (container @ [ws'], Ok ())"
    and root': "ws_rootPath ws' = ins_prefix (newDynamicInstaller g)"
    and table: "map route_summary (ws_routes ws') = api_table templates (handlers g kind) gv l"
    using InstallREST_registered [where register = register and g = g,
        OF reg disjI1 [OF refl] root assms(6,2,7)] summaries
    by (auto simp: api_table_def assms(1) as_many)
  have "selected_handler (route_by_method rx ws' m path) =
       api_endpoint route (handlers g kind @ [VersionDiscovery gv l]) m segs"
    if tokens: "tokenizePath path = api_root gv @ segs" for m path segs
  proof -
    have "selected_handler (route_by_method rx ws' m path) =
        (case (case route segs of None \<Rightarrow> [] | Some i \<Rightarrow>
             [(''GET'', api_root gv @ (templates @ [[]]) ! i, (handlers g kind @ [VersionDiscovery gv l]) ! i)]) of
           [] \<Rightarrow> Inl 404 | (m', _, h) # _ \<Rightarrow> if m' = m then Inr h else Inl 405)"
      using table_hits [of gv segs g kind l] table_templates [OF assms(3,4), of g kind l] tokens
      by (intro selected_by_summary [OF table]) (simp_all split: option.splits)
    then show ?thesis by (auto simp: api_endpoint_def split: option.splits)
  qed
  moreover have "r_Method r = ''GET'' \<and> r_Function r \<in> set (handlers g kind @ [VersionDiscovery gv l])"
    if "r \<in> set (ws_routes ws')" for r
  proof -
    have "route_summary r \<in> set (api_table templates (handlers g kind) gv l)" using that table by (metis image_eqI set_map)
    then show ?thesis by (auto simp: api_table_def route_summary_def dest: set_zip_rightD)
  qed
  ultimately show ?thesis using inst root' installer_prefix [OF assms(2)] by (auto simp: assms(1))
qed

end

interpretation cm_routed: routed_handlers CMHandlers_registerResourceHandlers custom_templates custom_handlers custom_route
proof (unfold_locales, goal_cases)
  case (1 g kind vl v docs)
  then show ?case by (rule custom_registers)
next
  case (4 segs)
  then show ?case
    by (cases segs rule: custom_route.cases) (simp_all add: custom_templates_def upt_rec)
qed (auto simp: custom_handlers_def custom_templates_def Let_def)

interpretation em_routed: routed_handlers EMHandlers_registerResourceHandlers "[external_template]"
  "\<lambda>g kind. [external_handler g kind]" external_route
proof (unfold_locales, goal_cases)
  case (1 g kind vl v docs)
  then show ?case using external_registers by fastforce
next
  case (4 segs)
  then show ?case
    by (cases segs rule: external_route.cases) (simp_all add: external_template_def upt_rec)
qed (auto simp: external_template_def)

text \<open>
  The custom metrics API is installed as documented. For a group version under \<open>/apis\<close> whose kinds
  resolve, installing adds exactly one service to the container and reports no error. The service
  answers a \<open>GET\<close> below its root by the handler of root-scoped, namespaced or namespace metrics or by
  the discovery of the version, according to the shape of the path, and anything else by 404; another
  method gets 405 on the same paths.
\<close>

lemma custom_api_installed:
  fixes g :: "'o metrics_api_group_version"
  defines "gv \<equiv> agv_GroupVersion (mg_APIGroupVersion g)"
  assumes "serves_under_apis g" and "literal (gv_Group gv)" and "literal (gv_Version gv)"
    and "versioned_objects (newDynamicInstaller g) = Ok (kind, vl, Pointer v docs)"
    and "mg_ResourceLister g = Some l"
    and "\<forall>s \<in> set container. ws_rootPath s \<noteq> ins_prefix (newDynamicInstaller g)"
  shows "\<exists>ws. InstallREST CMHandlers_registerResourceHandlers g container = (container @ [ws], Ok ()) \<and>
    ws_rootPath ws = CHR ''/'' # join_byte (CHR ''/'') (api_root gv) \<and>
    (\<forall>m path segs. tokenizePath path = api_root gv @ segs \<longrightarrow>
       selected_handler (route_by_method rx ws m path) =
       (case custom_route segs of
          None \<Rightarrow> Inl 404
        | Some i \<Rightarrow> if m = ''GET'' then Inr ((custom_handlers g kind @ [VersionDiscovery gv l]) ! i)
                    else Inl 405))"
proof -
  have "gv = agv_GroupVersion (mg_APIGroupVersion g)" by (simp add: gv_def)
  from cm_routed.installed [OF this assms(2-7), of rx]
  show ?thesis by (elim exE conjE) (intro exI conjI, simp_all only: api_endpoint_def)
qed

text \<open>A group version like that of the custom metrics API; its objects are named by their types.\<close>

definition cm_group :: "string metrics_api_group_version" where
  "cm_group = \<lparr>mg_DynamicStorage = \<lparr>st_New = ''MetricValue'', st_Lister = Some
       \<lparr>rl_NewList = ''MetricValueList'', rl_List = (\<lambda>_ _. Ok ''MetricValueList'')\<rparr>\<rparr>,
     mg_APIGroupVersion =
       \<lparr>agv_Root = ''/apis'',
        agv_GroupVersion = \<lparr>gv_Group = ''custom.metrics.k8s.io'', gv_Version = ''v1beta1''\<rparr>,
        agv_OptionsExternalVersion = None, agv_MetaGroupVersion = None,
        agv_SupportedMediaTypes = [(''application/json'', True), (''application/yaml'', False)],
        agv_ObjectKinds = (\<lambda>t. Ok [\<lparr>gvk_Group = ''custom.metrics.k8s.io'', gvk_Version = ''__internal'', gvk_Kind = t\<rparr>]),
        agv_TypeOf = (\<lambda>t. ''*custom_metrics.'' @ t),
        agv_New = (\<lambda>k. if gvk_Kind k = ''ListOptions'' then Ok list_options_object
                        else Ok (Pointer (StructValue (''v1beta1.'' @ gvk_Kind k) []) None)),
        agv_ConvertFieldLabel = (\<lambda>_ l v. Ok (l, v)),
        agv_Linker = \<lparr>sl_Name = (\<lambda>_. Ok []), sl_Namespace = (\<lambda>_. Ok []), sl_SetSelfLink = (\<lambda>_ _. Ok ())\<rparr>,
        agv_MinRequestTimeout = 1800\<rparr>,
     mg_ResourceLister = Some []\<rparr>"

abbreviation cm_gv :: group_version where
  "cm_gv \<equiv> \<lparr>gv_Group = ''custom.metrics.k8s.io'', gv_Version = ''v1beta1''\<rparr>"

lemma cm_group_simps [simp]:
  "serves_under_apis cm_group"
  "agv_GroupVersion (mg_APIGroupVersion cm_group) = cm_gv"
  "mg_ResourceLister cm_group = Some []"
  "literal ''custom.metrics.k8s.io''" "literal ''v1beta1''"
  by (simp_all add: cm_group_def serves_under_apis_def plain_element_def literal_def has_prefix_def)

lemma cm_group_kind:
  "getResourceKind (newDynamicInstaller cm_group) (mg_DynamicStorage cm_group)
     = Ok (WithKind cm_gv ''MetricValue'')"
  by (simp add: getResourceKind_def cm_group_def gvk_Empty_def WithKind_def)

lemma cm_group_objects:
  "versioned_objects (newDynamicInstaller cm_group) =
     Ok (WithKind cm_gv ''MetricValue'', StructValue ''v1beta1.MetricValueList'' [],
         Pointer (StructValue ''v1.ListOptions'' list_options_fields) (Some [(''watch'', ''Watch for changes'')]))"
  using cm_group_kind
  by (simp add: versioned_objects_def Let_def)
    (simp add: cm_group_def indirectArbitraryPointer_def WithKind_def list_options_object_def)

lemma getResourceKind_spec_example:
  "getResourceKind (newDynamicInstaller cm_group) (mg_DynamicStorage cm_group)
     = Ok (WithKind cm_gv ''MetricValue'')"
proof -
  let ?k = "\<lparr>gvk_Group = ''custom.metrics.k8s.io'', gvk_Version = ''__internal'', gvk_Kind = ''MetricValue''\<rparr>"
  have "agv_ObjectKinds (mg_APIGroupVersion (ins_group (newDynamicInstaller cm_group)))
      (st_New (mg_DynamicStorage cm_group)) = Ok [?k]"
    by (simp add: cm_group_def)
  from getResourceKind_spec [OF this, of cm_gv] show ?thesis by simp
qed

lemma custom_api_installed_witness:
  "\<exists>ws. InstallREST CMHandlers_registerResourceHandlers cm_group [] = ([ws], Ok ()) \<and>
    selected_handler (route_by_method (\<lambda>p s. False) ws ''GET''
      ''/apis/custom.metrics.k8s.io/v1beta1/namespaces/ns/metrics/queue'') =
      Inr (custom_handlers cm_group (WithKind cm_gv ''MetricValue'') ! 2) \<and>
    selected_handler (route_by_method (\<lambda>p s. False) ws ''GET''
      ''/apis/custom.metrics.k8s.io/v1beta1/nodes/n'') = Inl 404"
proof -
  have clash: "\<forall>s \<in> set ([] :: string metrics_service list).
      ws_rootPath s \<noteq> ins_prefix (newDynamicInstaller cm_group)" by simp
  from custom_api_installed [of cm_group, OF _ _ _ cm_group_objects _ clash, of "[]" "\<lambda>p s. False",
      unfolded cm_group_simps(2)]
  obtain ws where ws: "InstallREST CMHandlers_registerResourceHandlers cm_group [] = ([ws], Ok ())"
    and route: "\<And>m path segs. tokenizePath path = api_root cm_gv @ segs \<Longrightarrow>
       selected_handler (route_by_method (\<lambda>p s. False) ws m path) =
       (case custom_route segs of
          None \<Rightarrow> Inl 404
        | Some i \<Rightarrow> if m = ''GET'' then Inr ((custom_handlers cm_group (WithKind cm_gv ''MetricValue'') @ [VersionDiscovery cm_gv []]) ! i)
                    else Inl 405)"
    by auto
  have "length (custom_handlers cm_group (WithKind cm_gv ''MetricValue'')) = 3"
    by (simp add: custom_handlers_def Let_def)
  moreover have "tokenizePath ''/apis/custom.metrics.k8s.io/v1beta1/namespaces/ns/metrics/queue'' =
      api_root cm_gv @ [''namespaces'', ''ns'', ''metrics'', ''queue'']"
    "tokenizePath ''/apis/custom.metrics.k8s.io/v1beta1/nodes/n'' = api_root cm_gv @ [''nodes'', ''n'']"
    by (simp_all add: tokenizePath_def trim_byte_def trim_left_byte_def trim_right_byte_def api_root_def)
  ultimately show ?thesis using ws by (simp add: route nth_append)
qed

section \<open>What any handlers leave in the container\<close>

context api_handlers begin

lemma InstallREST_no_lister:
  "mg_ResourceLister g = None \<Longrightarrow> fst (InstallREST register g container) = container"
  by (auto simp: InstallREST_def Let_def split: result.splits prod.splits)

lemma InstallREST_adds:
  assumes "InstallREST register g container = (container', r)"
  shows "container' = container \<or>
    (\<exists>ws. container' = container @ [ws] \<and> (\<forall>x \<in> set (ws_routes ws). r_Method x = ''GET''))"
proof (cases "container' = container")
  case False
  let ?i = "newDynamicInstaller g"
  let ?ws = "fst (register ?i (NewWebService ?i))"
  have "fst (Install register ?i (NewWebService ?i)) = ?ws"
    by (auto simp: Install_def split: result.splits prod.splits)
  then obtain l ws' where add: "AddToWebService (mg_APIGroupVersion g) l ?ws = Ok ws'"
    and cont: "container_Add container ws' = Ok container'"
    using assms False
    by (auto simp: InstallREST_def Let_def split: result.splits prod.splits option.splits)
  obtain x where x: "ws' = ?ws\<lparr>ws_routes := ws_routes ?ws @ [x]\<rparr>" "r_Method x = ''GET''"
    using AddToWebService_Ok [of "mg_APIGroupVersion g" l ?ws] add by (auto simp: route_summary_def)
  have "\<forall>y \<in> set (ws_routes ?ws). r_Method y = ''GET''"
    using adds_gets [of ?i "NewWebService ?i"]
    by (auto simp: NewWebService_def ws_Path_def new_web_service_def Let_def)
  then have "\<forall>y \<in> set (ws_routes ws'). r_Method y = ''GET''" using x by simp
  moreover have "\<exists>ws. container' = container @ [ws] \<and> ws_routes ws = ws_routes ws'"
    using cont by (auto simp: container_Add_def Let_def ws_Path_def split: if_splits)
  ultimately show ?thesis by auto
qed simp

lemma InstallREST_failed:
  assumes "versioned_objects (newDynamicInstaller g) = Err e"
    and "mg_ResourceLister g = Some l" and "serves_under_apis g"
    and "\<forall>s \<in> set container. ws_rootPath s \<noteq> ins_prefix (newDynamicInstaller g)"
  shows "\<exists>ws. InstallREST register g container = (container @ [ws],
      Err (Aggregate [Errorf ''error in registering custom metrics resource: %v'' [] [e]])) \<and>
    ws_rootPath ws = ins_prefix (newDynamicInstaller g) \<and>
    map route_summary (ws_routes ws) = [(''GET'', api_root (agv_GroupVersion (mg_APIGroupVersion g)),
      VersionDiscovery (agv_GroupVersion (mg_APIGroupVersion g)) l)]"
  using InstallREST_registered [where register = register and g = g and e = e,
      OF fails_early [OF assms(1)] disjI2 [OF refl] NewWebService_simps(1) [OF assms(3)] assms(2,3,4)]
  by (simp add: NewWebService_simps [OF assms(3)])

end

lemma route_by_method_only:
  assumes "\<forall>x \<in> set (ws_routes ws). r_Method x = ''GET''" and "route_by_method rx ws m path = Selected r"
  shows "m = ''GET''"
proof -
  let ?c = "List.map_filter (\<lambda>r. map_option (\<lambda>c. (c, r))
      (matchesRouteByPathTokens rx (r_pathParts r) (tokenizePath path))) (ws_routes ws)"
  have "set (selectRoutes rx ws (tokenizePath path)) = set (map snd ?c)"
    by (simp add: selectRoutes_def)
  then have sub: "set (selectRoutes rx ws (tokenizePath path)) \<subseteq> set (ws_routes ws)"
    unfolding map_filter_filter by auto
  let ?f = "filter (\<lambda>r. r_Method r = m) (selectRoutes rx ws (tokenizePath path))"
  have "?f \<noteq> [] \<and> r = hd ?f"
    using assms(2) by (auto simp: route_by_method_def split: list.splits)
  then have "r \<in> set ?f" using hd_in_set by blast
  then show ?thesis using assms(1) sub by auto
qed

text \<open>
  The only verb accepted is \<open>GET\<close>. Whatever the outcome of installing either API, a service that is
  new in the container selects no route for a request with another method.
\<close>

lemma installed_services_only_get:
  assumes "register \<in> {CMHandlers_registerResourceHandlers, EMHandlers_registerResourceHandlers}"
    and "InstallREST register g container = (container @ new, r)"
    and "ws \<in> set new" and "route_by_method rx ws m path = Selected route"
  shows "m = ''GET''"
proof -
  have "container @ new = container \<or>
      (\<exists>ws. container @ new = container @ [ws] \<and> (\<forall>x \<in> set (ws_routes ws). r_Method x = ''GET''))"
    using assms(1,2) cm.InstallREST_adds [where container' = "container @ new" and r = r]
      em.InstallREST_adds [where container' = "container @ new" and r = r] by blast
  then have "\<forall>x \<in> set (ws_routes ws). r_Method x = ''GET''" using assms(3) by auto
  then show ?thesis using assms(4) by (rule route_by_method_only)
qed

text \<open>
  A failed registration leaves a service behind. When the kinds of the storage cannot be resolved,
  installing reports the aggregate of that error, but the container has the new service all the same,
  with nothing but the discovery of the version.
\<close>

lemma failed_registration_serves_discovery:
  assumes "register \<in> {CMHandlers_registerResourceHandlers, EMHandlers_registerResourceHandlers}"
    and "versioned_objects (newDynamicInstaller g) = Err e"
    and "mg_ResourceLister g = Some l" and "serves_under_apis g"
    and "\<forall>s \<in> set container. ws_rootPath s \<noteq> ins_prefix (newDynamicInstaller g)"
  shows "\<exists>ws err. InstallREST register g container = (container @ [ws], Err err) \<and>
    error_text err = ''error in registering custom metrics resource: '' @ error_text e \<and>
    map route_summary (ws_routes ws) = [(''GET'', api_root (agv_GroupVersion (mg_APIGroupVersion g)),
      VersionDiscovery (agv_GroupVersion (mg_APIGroupVersion g)) l)]"
  using assms(1) cm.InstallREST_failed [OF assms(2-5)] em.InstallREST_failed [OF assms(2-5)] by fastforce

definition failing_group :: "string metrics_api_group_version" where
  "failing_group = cm_group\<lparr>mg_APIGroupVersion :=
     (mg_APIGroupVersion cm_group)\<lparr>agv_ObjectKinds := (\<lambda>t. Err (OtherError ''no kind is registered''))\<rparr>\<rparr>"

lemma failing_group_simps [simp]:
  "serves_under_apis failing_group" "mg_ResourceLister failing_group = Some []"
  "agv_GroupVersion (mg_APIGroupVersion failing_group) = cm_gv"
  "versioned_objects (newDynamicInstaller failing_group) = Err (OtherError ''no kind is registered'')"
  by (simp_all add: failing_group_def cm_group_def serves_under_apis_def plain_element_def
      versioned_objects_def getResourceKind_def)

lemma failed_registration_serves_discovery_example:
  "\<exists>ws err. InstallREST EMHandlers_registerResourceHandlers failing_group [] = ([ws], Err err) \<and>
    error_text err = ''error in registering custom metrics resource: no kind is registered'' \<and>
    map route_summary (ws_routes ws) = [(''GET'', api_root cm_gv, VersionDiscovery cm_gv [])]"
  using failed_registration_serves_discovery [of EMHandlers_registerResourceHandlers failing_group
      "OtherError ''no kind is registered''" "[]" "[]"]
  by simp

lemma installed_services_only_get_witness:
  "\<exists>ws. InstallREST CMHandlers_registerResourceHandlers cm_group [] = ([ws], Ok ()) \<and>
    (\<forall>r. route_by_method (\<lambda>p s. False) ws ''POST'' ''/apis'' \<noteq> Selected r)"
proof -
  have clash: "\<forall>s \<in> set ([] :: string metrics_service list).
      ws_rootPath s \<noteq> ins_prefix (newDynamicInstaller cm_group)" by simp
  obtain ws where ws: "CMHandlers_registerResourceHandlers (newDynamicInstaller cm_group)
      (NewWebService (newDynamicInstaller cm_group)) = (ws, Ok ())"
    and root: "ws_rootPath ws = ins_prefix (newDynamicInstaller cm_group)"
    using custom_registers [OF _ cm_group_objects] by auto
  obtain ws' where inst: "InstallREST CMHandlers_registerResourceHandlers cm_group [] = ([] @ [ws'], Ok ())"
    using InstallREST_registered [where register = CMHandlers_registerResourceHandlers and g = cm_group,
        OF ws disjI1 [OF refl] root cm_group_simps(3,1) clash] by auto
  have "route_by_method (\<lambda>p s. False) ws' ''POST'' ''/apis'' \<noteq> Selected r" for r
    using installed_services_only_get [OF _ inst, of ws' "\<lambda>p s. False" "''POST''" "''/apis''" r] by auto
  then show ?thesis using inst by auto
qed

section \<open>Documented parameters\<close>

text \<open>The parameters in the braces of a template, and the path parameters a route documents.\<close>

definition template_params :: "string list \<Rightarrow> string list" where
  "template_params ts = map (\<lambda>t. butlast (tl t)) (filter (\<lambda>t. has_prefix t ''{'') ts)"

definition documented_params :: "parameter list \<Rightarrow> string list" where
  "documented_params ps = map param_Name (filter (\<lambda>p. param_Kind p = PathKind) ps)"

lemma field_param_query: "field_param docs f = Some p \<Longrightarrow> param_Kind p = QueryKind"
  by (auto simp: field_param_def QueryParameter_def DataType_def Let_def split: if_splits)

lemma fields_loop_documented:
  "documented_params (b_parameters (fields_loop docs all fs route)) = documented_params (b_parameters route)"
  by (induction docs all fs route rule: fields_loop.induct)
    (auto simp: Param_def documented_params_def dest: field_param_query split: option.splits)

lemma list_route_documented:
  assumes "list_route ws path h doc op media vl opts ps = Ok b"
  shows "documented_params (b_parameters b) = documented_params ps"
proof -
  have "documented_params (b_parameters route') = documented_params (b_parameters route)"
    if "addObjectParams route opts = Ok route'"
    for route route' :: "('a metrics_handler, string) route_builder"
    using that by (cases opts)
      (auto simp: addObjectParams_def EnforcePtr_def fields_loop_documented split: go_value.splits)
  then show ?thesis
    using assms by (auto simp: list_route_def addParams_parameters builder_defs documented_params_def
        QueryParameter_def)
qed

lemma install_routes_documented:
  assumes "install_routes (list_routes media vl opts specs) ws = (ws', Ok ())"
  shows "map (\<lambda>r. documented_params (r_ParameterDocs r)) (ws_routes ws') =
    map (\<lambda>r. documented_params (r_ParameterDocs r)) (ws_routes ws) @
    map (\<lambda>(_, _, _, _, ps). documented_params ps) specs"
  using assms
proof (induction specs arbitrary: ws)
  case Nil
  then show ?case by (simp add: list_routes_def)
next
  case (Cons spec specs)
  obtain path h doc op ps where spec: "spec = (path, h, doc, op, ps)" by (cases spec)
  obtain b ws1 where b: "list_route ws path h doc op media vl opts ps = Ok b"
    and ws1: "ws_Route ws b = Ok ws1"
    and rest: "install_routes (list_routes media vl opts specs) ws1 = (ws', Ok ())"
    using Cons.prems by (auto simp: list_routes_def spec split: result.splits)
  obtain r where r: "ws1 = ws\<lparr>ws_routes := ws_routes ws @ [r]\<rparr>" "r_ParameterDocs r = b_parameters b"
    using ws_Route_builder [OF ws1] by auto
  show ?case
    using Cons.IH [OF rest] r list_route_documented [OF b] by (simp add: spec)
qed

lemma documented_simps [simp]:
  "documented_params [] = []"
  "documented_params (resource_param # ps) = ''resource'' # documented_params ps"
  "documented_params (name_param # ps) = ''name'' # documented_params ps"
  "documented_params (subresource_param # ps) = ''subresource'' # documented_params ps"
  "documented_params (namespace_param # ps) = ''namespace'' # documented_params ps"
  by (simp_all add: documented_params_def resource_param_def name_param_def subresource_param_def
      namespace_param_def DataType_def PathParameter_def)

lemma CMHandlers_documented:
  assumes "CMHandlers_registerResourceHandlers a ws = (ws', Ok ())"
  shows "map (\<lambda>r. documented_params (r_ParameterDocs r)) (ws_routes ws') =
    map (\<lambda>r. documented_params (r_ParameterDocs r)) (ws_routes ws) @
    [[''resource'', ''name'', ''subresource''], [''namespace'', ''resource'', ''name'', ''subresource''],
     [''namespace'', ''name'']]"
proof -
  obtain k vl opts where vo: "versioned_objects a = Ok (k, vl, opts)"
    using assms by (auto simp: CMHandlers_registerResourceHandlers_def split: result.splits)
  let ?media = "all_media_types (agv_SupportedMediaTypes (mg_APIGroupVersion (ins_group a)))"
  let ?h = "\<lambda>r sc c p. ListHandler ''LIST'' r [] sc (mg_DynamicStorage (ins_group a)) (request_scope_of a k c p) (ins_minRequestTimeout a)"
  let ?p = "path_join [ins_prefix a, ''namespaces''] @ ''/''"
  let ?doc = "''list custom metrics describing an object or objects''"
  have "install_routes (list_routes ?media vl opts
      [(''{resource}/{name}/{subresource}'', ?h ''custom-metrics'' ''cluster'' True (ins_prefix a @ ''/''),
        ?doc, ''list'' @ gvk_Kind k, [resource_param, name_param, subresource_param]),
       (''namespaces/{namespace}/{resource}/{name}/{subresource}'',
        ?h ''custom-metrics-namespaced'' ''namespace'' False ?p, ?doc, ''listNamespaced'' @ gvk_Kind k,
        [namespace_param, resource_param, name_param, subresource_param]),
       (''namespaces/{namespace}/metrics/{name}'', ?h ''custom-metrics-for-namespace'' ''cluster'' False ?p,
        ?doc, ''read'' @ gvk_Kind k @ ''ForNamespace'', [namespace_param, name_param])])
      (ws\<lparr>ws_produces := ?media\<rparr>) = (ws', Ok ())"
    using assms unfolding CMHandlers_registerResourceHandlers_def vo
    by (simp add: list_routes_def Let_def del: install_routes.simps)
  from install_routes_documented [OF this] show ?thesis by simp
qed

lemma EMHandlers_documented:
  assumes "EMHandlers_registerResourceHandlers a ws = (ws', Ok ())"
  shows "map (\<lambda>r. documented_params (r_ParameterDocs r)) (ws_routes ws') =
    map (\<lambda>r. documented_params (r_ParameterDocs r)) (ws_routes ws) @ [[''namespace'', ''name'']]"
proof -
  obtain k vl opts where vo: "versioned_objects a = Ok (k, vl, opts)"
    using assms by (auto simp: EMHandlers_registerResourceHandlers_def split: result.splits)
  let ?media = "all_media_types (agv_SupportedMediaTypes (mg_APIGroupVersion (ins_group a)))"
  let ?h = "ListHandler ''LIST'' ''external-metrics'' [] [] (mg_DynamicStorage (ins_group a))
      (request_scope_of a k False (path_join [ins_prefix a, ''namespaces''] @ ''/'')) (ins_minRequestTimeout a)"
  have "install_routes (list_routes ?media vl opts
      [(''namespaces/{namespace}/{resource}'', ?h, ''list external metrics'', ''list'' @ gvk_Kind k,
        [namespace_param, name_param])])
      (ws\<lparr>ws_produces := ?media\<rparr>) = (ws', Ok ())"
    using assms unfolding EMHandlers_registerResourceHandlers_def vo
    by (simp add: list_routes_def Let_def del: install_routes.simps)
  from install_routes_documented [OF this] show ?thesis by simp
qed

lemma template_params_root:
  assumes "literal (gv_Group gv)" and "literal (gv_Version gv)"
  shows "template_params (api_root gv @ t) = template_params t"
  using assms by (simp add: template_params_def api_root_def literal_def has_prefix_def)

text \<open>
  C38: Documented path parameters. For APIs under \<open>/apis\<close>, of group versions without template variables whose kinds
  resolve, all three routes that the custom metrics handler adds to the service of its version document exactly the
  parameters of their own paths. The one route of the external metrics handler does not: its path has the
  namespace and the resource, but what is documented beside the namespace is the name of a described object.
\<close>

theorem documented_path_parameters:
  assumes "serves_under_apis g" and "literal (gv_Group (agv_GroupVersion (mg_APIGroupVersion g)))"
    and "literal (gv_Version (agv_GroupVersion (mg_APIGroupVersion g)))"
    and "versioned_objects (newDynamicInstaller g) = Ok (kind, vl, Pointer v docs)"
  shows "(\<exists>cws. CMHandlers_registerResourceHandlers (newDynamicInstaller g) (NewWebService (newDynamicInstaller g)) = (cws, Ok ()) \<and>
      length (ws_routes cws) = 3 \<and>
      (\<forall>r \<in> set (ws_routes cws). documented_params (r_ParameterDocs r) = template_params (r_pathParts r))) \<and>
    (\<exists>ews r. EMHandlers_registerResourceHandlers (newDynamicInstaller g) (NewWebService (newDynamicInstaller g)) = (ews, Ok ()) \<and>
      ws_routes ews = [r] \<and> template_params (r_pathParts r) = [''namespace'', ''resource''] \<and>
      documented_params (r_ParameterDocs r) = [''namespace'', ''name''])"
proof
  let ?root = "api_root (agv_GroupVersion (mg_APIGroupVersion g))"
  note params = template_params_root [OF assms(2,3)]
  have parts: "map r_pathParts rs = map (fst \<circ> snd) (map route_summary rs)" for rs :: "('b metrics_handler, string) route list"
    by (simp add: route_summary_def)
  obtain cws where cws: "CMHandlers_registerResourceHandlers (newDynamicInstaller g) (NewWebService (newDynamicInstaller g)) = (cws, Ok ())"
    and summaries: "map route_summary (ws_routes cws) =
      map (\<lambda>(t, h). (''GET'', ?root @ t, h)) (zip custom_templates (custom_handlers g kind))"
    using custom_registers [OF assms(1,4)] by auto
  have "map r_pathParts (ws_routes cws) = map (\<lambda>t. ?root @ t) custom_templates"
    unfolding parts summaries by (simp add: custom_templates_def custom_handlers_def Let_def)
  then have "map template_params (map r_pathParts (ws_routes cws)) = map template_params custom_templates"
    by (simp add: params)
  moreover have docs: "map (\<lambda>r. documented_params (r_ParameterDocs r)) (ws_routes cws) = map template_params custom_templates"
    using CMHandlers_documented [OF cws] NewWebService_simps(2) [OF assms(1)]
    by (simp add: custom_templates_def template_params_def has_prefix_def)
  ultimately have "map (\<lambda>r. documented_params (r_ParameterDocs r)) (ws_routes cws) =
      map (\<lambda>r. template_params (r_pathParts r)) (ws_routes cws)" by (simp add: comp_def)
  moreover have "length (ws_routes cws) = 3"
    using arg_cong [OF docs, of length] by (simp add: custom_templates_def)
  ultimately show "\<exists>cws. CMHandlers_registerResourceHandlers (newDynamicInstaller g) (NewWebService (newDynamicInstaller g)) = (cws, Ok ()) \<and>
      length (ws_routes cws) = 3 \<and>
      (\<forall>r \<in> set (ws_routes cws). documented_params (r_ParameterDocs r) = template_params (r_pathParts r))"
    using cws by (intro exI [of _ cws]) (simp only: map_eq_conv simp_thms)
  obtain ews where ews: "EMHandlers_registerResourceHandlers (newDynamicInstaller g) (NewWebService (newDynamicInstaller g)) = (ews, Ok ())"
    and esummaries: "map route_summary (ws_routes ews) = [(''GET'', ?root @ external_template, external_handler g kind)]"
    using external_registers [OF assms(1,4)] by auto
  obtain r where r: "ws_routes ews = [r]" "r_pathParts r = ?root @ external_template"
    using esummaries by (auto simp: route_summary_def)
  moreover have "documented_params (r_ParameterDocs r) = [''namespace'', ''name'']"
    using EMHandlers_documented [OF ews] NewWebService_simps(2) [OF assms(1)] r(1) by simp
  ultimately show "\<exists>ews r. EMHandlers_registerResourceHandlers (newDynamicInstaller g) (NewWebService (newDynamicInstaller g)) = (ews, Ok ()) \<and>
      ws_routes ews = [r] \<and> template_params (r_pathParts r) = [''namespace'', ''resource''] \<and>
      documented_params (r_ParameterDocs r) = [''namespace'', ''name'']"
    using ews by (intro exI [of _ ews] exI [of _ r]) (simp add: params, simp add: external_template_def template_params_def has_prefix_def)
qed

theorem documented_path_parameters_witness:
  "\<exists>cws ews. CMHandlers_registerResourceHandlers (newDynamicInstaller cm_group)
      (NewWebService (newDynamicInstaller cm_group)) = (cws, Ok ()) \<and>
    (\<forall>r \<in> set (ws_routes cws). documented_params (r_ParameterDocs r) = template_params (r_pathParts r)) \<and>
    EMHandlers_registerResourceHandlers (newDynamicInstaller cm_group)
      (NewWebService (newDynamicInstaller cm_group)) = (ews, Ok ()) \<and>
    map (\<lambda>r. documented_params (r_ParameterDocs r)) (ws_routes ews) = [[''namespace'', ''name'']]"
  using documented_path_parameters [OF cm_group_simps(1) _ _ cm_group_objects] by auto

section \<open>Self links\<close>

text \<open>A name that \<open>url.QueryEscape\<close> leaves as it is.\<close>

definition url_plain :: "string \<Rightarrow> bool" where
  "url_plain s \<longleftrightarrow> (\<forall>c \<in> set s. unreserved (of_char c))"

lemma QueryEscape_plain: "url_plain s \<Longrightarrow> QueryEscape s = s"
  by (induction s) (auto simp: url_plain_def QueryEscape_def escape_byte_def Let_def)

text \<open>The naming of the route a path of custom metrics gets.\<close>

definition route_naming :: "'o self_linker \<Rightarrow> group_version \<Rightarrow> string list \<Rightarrow> 'o context_based_naming" where
  "route_naming lk gv segs =
     \<lparr>cbn_SelfLinker = lk, cbn_ClusterScoped = (length segs = 3),
      cbn_SelfLinkPathPrefix = CHR ''/'' # join_byte (CHR ''/'') (api_root gv) @
        (if length segs = 3 then ''/'' else ''/namespaces/''),
      cbn_SelfLinkPathSuffix = []\<rparr>"

lemma route_naming_handlers:
  assumes "h = custom_handlers g kind ! i" and "custom_route segs = Some i" and "segs \<noteq> []"
  shows "\<exists>verb res sub sc st scope t. h = ListHandler verb res sub sc st scope t \<and>
    rs_Namer scope = route_naming (agv_Linker (mg_APIGroupVersion g)) (agv_GroupVersion (mg_APIGroupVersion g)) segs"
  using assms
  by (cases segs rule: custom_route.cases)
    (auto simp: custom_handlers_def route_naming_def request_scope_of_def Let_def split: if_splits)

text \<open>
  Self links lead back. For a documented path of plain names (a root-scoped resource not being called
  \<open>metrics\<close>) the link generated under the naming of its route, for the object the request names, is the
  path of the request.
\<close>

lemma self_link_is_path:
  assumes "custom_query segs sel = Some q" and "list_all url_plain segs" and "list_all segment segs"
    and "length segs = 3 \<longrightarrow> hd segs \<noteq> ''metrics''"
    and "ri = ri_parts (api_info (gv_Group gv) (gv_Version gv) segs) segs"
    and "sl_Name lk obj = Ok (ri_Name ri)" and "sl_Namespace lk obj = Ok (ri_Namespace ri)"
  shows "MetricsNaming_GenerateLink (route_naming lk gv segs) ri obj
    = Ok (CHR ''/'' # join_byte (CHR ''/'') (api_root gv @ segs))"
  using assms(1)
proof (rule custom_query_SomeE, goal_cases)
  case (1 resource name metric)
  then have "resource \<noteq> ''namespaces''" by (auto split: if_splits)
  then show ?case
    using assms(2-7) 1(1)
    by (simp add: ri_parts_root MetricsNaming_GenerateLink_def GenerateLink_def ObjectName_def
        route_naming_def QueryEscape_plain segment_def api_root_def Let_def)
next
  case (2 nss ns metrics metric)
  then have "nss = ''namespaces''" "metrics = ''metrics''" by (auto split: if_splits)
  moreover have "''metrics'' \<notin> set namespaceSubresources" by (simp add: namespaceSubresources_def)
  ultimately show ?case
    using assms(2-7) 2(1)
    by (simp add: ri_parts_namespace_metric MetricsNaming_GenerateLink_def GenerateLink_def ObjectName_def
        route_naming_def QueryEscape_plain segment_def api_root_def Let_def)
next
  case (3 nss ns resource name metric)
  then have "nss = ''namespaces''" "resource \<noteq> ''metrics''" "resource \<notin> set namespaceSubresources"
    by (auto split: if_splits)
  then show ?case
    using assms(2-7) 3(1)
    by (simp add: ri_parts_namespaced MetricsNaming_GenerateLink_def GenerateLink_def ObjectName_def
        route_naming_def QueryEscape_plain segment_def api_root_def Let_def)
qed

lemma self_link_is_path_witness:
  "MetricsNaming_GenerateLink
     (route_naming \<lparr>sl_Name = (\<lambda>x. Ok (fst x)), sl_Namespace = (\<lambda>x. Ok (snd x)), sl_SetSelfLink = (\<lambda>_ _. Ok ())\<rparr> cm_gv
       [''namespaces'', ''ns'', ''pods'', ''web-1'', ''queue'']) 
     (ri_parts (api_info ''custom.metrics.k8s.io'' ''v1beta1'' [''namespaces'', ''ns'', ''pods'', ''web-1'', ''queue''])
       [''namespaces'', ''ns'', ''pods'', ''web-1'', ''queue''])
     (''web-1'', ''ns'')
   = Ok ''/apis/custom.metrics.k8s.io/v1beta1/namespaces/ns/pods/web-1/queue''"
proof -
  let ?segs = "[''namespaces'', ''ns'', ''pods'', ''web-1'', ''queue'']"
  have "custom_query ?segs labels_Everything = Some (ByName \<lparr>nn_Namespace = ''ns'', nn_Name = ''web-1''\<rparr>
      (example_info ''pods'' True ''queue''))"
    by (simp add: namespaceSubresources_def object_query_def example_info_def)
  moreover have "list_all url_plain ?segs" by (simp add: url_plain_def unreserved_def)
  moreover have "list_all segment ?segs" by (simp add: segment_def)
  ultimately show ?thesis
    by (subst self_link_is_path [where segs = ?segs and gv = cm_gv])
      (simp_all add: ri_parts_namespaced namespaceSubresources_def api_root_def)
qed

end
