(* ===== verification/Api_Server.thy ===== *)
theory Api_Server
  imports Installer_Correct
begin

text \<open>
  \<open>pkg/apiserver\<close>: \<open>apiserver.go\<close> makes the server from a completed configuration and installs the API
  of each provider it is given, \<open>cmapis.go\<close> and \<open>emapis.go\<close> describe the two API groups. The generic
  API server is seen as the services of its container and its list of discovery groups; the global
  scheme (vendored types registered by \<open>init\<close>) and the generic server's constructor are parameters.
\<close>

section \<open>State\<close>

text \<open>
  The objects of the two APIs. A nil pointer to a list, which a provider may answer, is a non-nil
  \<open>runtime.Object\<close>.
\<close>

datatype runtime_object =
    MetricValueObject metric_value
  | MetricValueListObject metric_value_list
  | ExternalMetricValueObject external_metric_value
  | ExternalMetricValueListObject external_metric_value_list
  | NilMetricValueList
  | NilExternalMetricValueList

record runtime_scheme =
  sch_PrioritizedVersionsForGroup :: "string \<Rightarrow> group_version list"
  sch_ObjectKinds :: "runtime_object \<Rightarrow> group_version_kind list result"
  sch_TypeOf :: "runtime_object \<Rightarrow> string"
  sch_New :: "group_version_kind \<Rightarrow> go_object result"
  sch_SupportedMediaTypes :: "(string \<times> bool) list"
  sch_ConvertFieldLabel :: "group_version_kind \<Rightarrow> string \<Rightarrow> string \<Rightarrow> (string \<times> string) result"

record api_group_info =
  gi_PrioritizedVersions :: "group_version list"
  gi_MetaGroupVersion :: "group_version option"
  gi_Scheme :: runtime_scheme

record generic_api_server =
  gs_Container :: "runtime_object metrics_service list"
  gs_apiGroups :: "(string, api_group) go_map"
  gs_apiGroupNames :: "string list"
  gs_SupportedMediaTypes :: "(string \<times> bool) list"

record adapter_server =
  GenericAPIServer :: generic_api_server
  customMetricsProvider :: "custom_metrics_provider option"
  externalMetricsProvider :: "external_metrics_provider option"

section \<open>The generic API server\<close>

definition NewDefaultAPIGroupInfo :: "string \<Rightarrow> runtime_scheme \<Rightarrow> api_group_info" where
  "NewDefaultAPIGroupInfo g scheme =
     \<lparr>gi_PrioritizedVersions = sch_PrioritizedVersionsForGroup scheme g, gi_MetaGroupVersion = None,
      gi_Scheme = scheme\<rparr>"

definition AddGroup :: "api_group \<Rightarrow> generic_api_server \<Rightarrow> generic_api_server" where
  "AddGroup apiGroup s =
     s\<lparr>gs_apiGroups := go_put (ag_Name apiGroup) apiGroup (gs_apiGroups s),
       gs_apiGroupNames := (if go_get (gs_apiGroups s) (ag_Name apiGroup) \<noteq> None then gs_apiGroupNames s
                            else gs_apiGroupNames s @ [ag_Name apiGroup])\<rparr>"

definition group_web_service ::
  "(string \<times> bool) list \<Rightarrow> api_group \<Rightarrow> runtime_object metrics_service result" where
  "group_web_service infos g =
     (let mediaTypes = fst (MediaTypesForSerializer infos);
          ws = (ws_Path (''/apis'' @ ''/'' @ ag_Name g) new_web_service)
                 \<lparr>ws_documentation := ''get information of a group''\<rparr>
      in ws_Route ws (Writes ''v1.APIGroup'' (Consumes mediaTypes (Produces mediaTypes
           (Operation ''getAPIGroup'' (Doc ''get information of a group''
             (To (GroupDiscovery g) (ws_method ''GET'' ws ''/''))))))))"

section \<open>The two APIs\<close>

definition custom_GroupName :: string where
  "custom_GroupName = ''custom.metrics.k8s.io''"

definition external_GroupName :: string where
  "external_GroupName = ''external.metrics.k8s.io''"

text \<open>
  \<open>meta.NewAccessor\<close> on these objects: none has the metadata of an object, and only the lists have the
  metadata of a list, where a self link can be set. (A nil list has nothing to set it on, and is not
  asked to.)
\<close>

definition errNotObject :: go_error where
  "errNotObject = Errorf ''object does not implement the Object interfaces'' [] []"

definition errNotCommon :: go_error where
  "errNotCommon = Errorf ''object does not implement the common interface for accessing the SelfLink'' [] []"

fun set_self_link :: "runtime_object \<Rightarrow> string \<Rightarrow> unit result" where
  "set_self_link (MetricValueListObject l) link = Ok ()"
| "set_self_link (ExternalMetricValueListObject l) link = Ok ()"
| "set_self_link (MetricValueObject v) link = Err errNotCommon"
| "set_self_link (ExternalMetricValueObject v) link = Err errNotCommon"
| "set_self_link NilMetricValueList link = Abort ''nil pointer dereference''"
| "set_self_link NilExternalMetricValueList link = Abort ''nil pointer dereference''"

definition meta_NewAccessor :: "runtime_object self_linker" where
  "meta_NewAccessor =
     \<lparr>sl_Name = (\<lambda>_. Err errNotObject), sl_Namespace = (\<lambda>_. Err errNotObject), sl_SetSelfLink = set_self_link\<rparr>"

text \<open>The two \<open>NewREST\<close>: a storage that answers from the provider.\<close>

definition metric_list_object :: "metric_value_list option \<Rightarrow> runtime_object" where
  "metric_list_object a = (case a of None \<Rightarrow> NilMetricValueList | Some l \<Rightarrow> MetricValueListObject l)"

definition external_list_object :: "external_metric_value_list option \<Rightarrow> runtime_object" where
  "external_list_object a =
     (case a of None \<Rightarrow> NilExternalMetricValueList | Some l \<Rightarrow> ExternalMetricValueListObject l)"

definition custom_NewREST :: "custom_metrics_provider \<Rightarrow> runtime_object rest_storage" where
  "custom_NewREST cmProvider =
     \<lparr>st_New = MetricValueObject custom_New,
      st_Lister = Some
        \<lparr>rl_NewList = MetricValueListObject custom_NewList,
         rl_List = (\<lambda>ctx options.
           bind_result (REST_List cmProvider ctx options) (\<lambda>a. Ok (metric_list_object a)))\<rparr>\<rparr>"

definition external_NewREST :: "external_metrics_provider \<Rightarrow> runtime_object rest_storage" where
  "external_NewREST emProvider =
     \<lparr>st_New = ExternalMetricValueObject external_New,
      st_Lister = Some
        \<lparr>rl_NewList = ExternalMetricValueListObject external_NewList,
         rl_List = (\<lambda>ctx options.
           bind_result (external_List emProvider ctx options) (\<lambda>a. Ok (external_list_object a)))\<rparr>\<rparr>"

lemma NewREST_simps [simp]:
  "st_New (custom_NewREST prov) = MetricValueObject custom_New"
  "st_Lister (custom_NewREST prov) = Some
     \<lparr>rl_NewList = MetricValueListObject custom_NewList,
      rl_List = (\<lambda>ctx options. bind_result (REST_List prov ctx options) (\<lambda>a. Ok (metric_list_object a)))\<rparr>"
  "st_New (external_NewREST eprov) = ExternalMetricValueObject external_New"
  "st_Lister (external_NewREST eprov) = Some
     \<lparr>rl_NewList = ExternalMetricValueListObject external_NewList,
      rl_List = (\<lambda>ctx options. bind_result (external_List eprov ctx options) (\<lambda>a. Ok (external_list_object a)))\<rparr>"
  by (simp_all add: custom_NewREST_def external_NewREST_def)

text \<open>
  A lister and a storage hold the provider; a nil one would panic when it is called, which only happens
  in a server that installs the API of no provider, so here the provider is there.
\<close>

definition api_group_version_of :: "api_group_info \<Rightarrow> group_version \<Rightarrow> runtime_object api_group_version" where
  "api_group_version_of groupInfo groupVersion =
     \<lparr>agv_Root = ''/apis'', agv_GroupVersion = groupVersion, agv_OptionsExternalVersion = None,
      agv_MetaGroupVersion = gi_MetaGroupVersion groupInfo,
      agv_SupportedMediaTypes = sch_SupportedMediaTypes (gi_Scheme groupInfo),
      agv_ObjectKinds = sch_ObjectKinds (gi_Scheme groupInfo),
      agv_TypeOf = sch_TypeOf (gi_Scheme groupInfo),
      agv_New = sch_New (gi_Scheme groupInfo),
      agv_ConvertFieldLabel = sch_ConvertFieldLabel (gi_Scheme groupInfo),
      agv_Linker = meta_NewAccessor,
      agv_MinRequestTimeout = 0\<rparr>"

definition cmAPI ::
  "custom_metrics_provider \<Rightarrow> api_group_info \<Rightarrow> group_version \<Rightarrow> runtime_object metrics_api_group_version" where
  "cmAPI prov groupInfo groupVersion =
     \<lparr>mg_DynamicStorage = custom_NewREST prov,
      mg_APIGroupVersion = api_group_version_of groupInfo groupVersion,
      mg_ResourceLister = Some (customMetrics_ListAPIResources prov)\<rparr>"

definition emAPI ::
  "external_metrics_provider \<Rightarrow> api_group_info \<Rightarrow> group_version \<Rightarrow> runtime_object metrics_api_group_version" where
  "emAPI prov groupInfo groupVersion =
     \<lparr>mg_DynamicStorage = external_NewREST prov,
      mg_APIGroupVersion = api_group_version_of groupInfo groupVersion,
      mg_ResourceLister = Some (externalMetrics_ListAPIResources prov)\<rparr>"

definition api_group_of :: "group_version \<Rightarrow> api_group" where
  "api_group_of mainGroupVer =
     (let groupVersion = \<lparr>gvd_GroupVersion = gv_String mainGroupVer, gvd_Version = gv_Version mainGroupVer\<rparr>
      in \<lparr>ag_Name = gv_Group mainGroupVer, ag_Versions = [groupVersion], ag_PreferredVersion = groupVersion\<rparr>)"

text \<open>
  The two installations differ in the group, the storage and the handlers. A panic of \<open>container.Add\<close>
  leaves no server to look at; the state beside an error is the one the error leaves behind.
\<close>

definition install_group ::
  "string \<Rightarrow>
   (runtime_object metrics_api_installer \<Rightarrow> runtime_object metrics_service \<Rightarrow> runtime_object metrics_service \<times> unit result) \<Rightarrow>
   (api_group_info \<Rightarrow> group_version \<Rightarrow> runtime_object metrics_api_group_version) \<Rightarrow>
   runtime_scheme \<Rightarrow> adapter_server \<Rightarrow> adapter_server \<times> unit result" where
  "install_group groupName register api scheme s =
     (let groupInfo = NewDefaultAPIGroupInfo groupName scheme
      in (case index_slice (gi_PrioritizedVersions groupInfo) 0 of
            Abort e \<Rightarrow> (s, Abort e)
          | Err err \<Rightarrow> (s, Err err)
          | Ok mainGroupVer \<Rightarrow>
              let generic = GenericAPIServer s;
                  apiGroup = api_group_of mainGroupVer
              in (case InstallREST register (api groupInfo mainGroupVer) (gs_Container generic) of
                    (container, Abort e) \<Rightarrow> (s, Abort e)
                  | (container, Err err) \<Rightarrow> (s\<lparr>GenericAPIServer := generic\<lparr>gs_Container := container\<rparr>\<rparr>, Err err)
                  | (container, Ok _) \<Rightarrow>
                      let generic' = AddGroup apiGroup (generic\<lparr>gs_Container := container\<rparr>)
                      in (case bind_result (group_web_service (gs_SupportedMediaTypes generic) apiGroup)
                                 (container_Add container) of
                            Abort e \<Rightarrow> (s, Abort e)
                          | Err err \<Rightarrow> (s, Err err)
                          | Ok container' \<Rightarrow>
                              (s\<lparr>GenericAPIServer := generic'\<lparr>gs_Container := container'\<rparr>\<rparr>, Ok ())))))"

definition InstallCustomMetricsAPI ::
  "runtime_scheme \<Rightarrow> custom_metrics_provider \<Rightarrow> adapter_server \<Rightarrow> adapter_server \<times> unit result" where
  "InstallCustomMetricsAPI scheme prov s =
     install_group custom_GroupName CMHandlers_registerResourceHandlers (cmAPI prov) scheme s"

definition InstallExternalMetricsAPI ::
  "runtime_scheme \<Rightarrow> external_metrics_provider \<Rightarrow> adapter_server \<Rightarrow> adapter_server \<times> unit result" where
  "InstallExternalMetricsAPI scheme prov s =
     install_group external_GroupName EMHandlers_registerResourceHandlers (emAPI prov) scheme s"

section \<open>Configuration and construction\<close>

text \<open>A \<open>genericapiserver.Config\<close>: its version (major, minor), which \<open>Complete\<close> sets, and the rest.\<close>

record 'c generic_config =
  gc_Version :: "(string \<times> string) option"
  gc_rest :: 'c

definition Complete ::
  "('i \<Rightarrow> 'c generic_config \<Rightarrow> 'd) \<Rightarrow> 'i \<Rightarrow> 'c generic_config \<Rightarrow> 'c generic_config \<times> 'd" where
  "Complete generic_complete informers c =
     (let c' = c\<lparr>gc_Version := Some (''1'', ''0'')\<rparr> in (c', generic_complete informers c'))"

definition New ::
  "(string \<Rightarrow> generic_api_server result) \<Rightarrow> runtime_scheme \<Rightarrow> string \<Rightarrow>
   custom_metrics_provider option \<Rightarrow> external_metrics_provider option \<Rightarrow> adapter_server result" where
  "New generic_new scheme name cmProvider emProvider =
     bind_result (generic_new name) (\<lambda>genericServer.
       let s = \<lparr>GenericAPIServer = genericServer, customMetricsProvider = cmProvider,
                externalMetricsProvider = emProvider\<rparr>;
           withCustom = (case cmProvider of
               None \<Rightarrow> Ok s
             | Some prov \<Rightarrow>
                 (case InstallCustomMetricsAPI scheme prov s of
                    (s', Abort e) \<Rightarrow> Abort e | (s', Err err) \<Rightarrow> Err err | (s', Ok _) \<Rightarrow> Ok s'))
       in bind_result withCustom (\<lambda>s.
            case emProvider of
              None \<Rightarrow> Ok s
            | Some prov \<Rightarrow>
                (case InstallExternalMetricsAPI scheme prov s of
                   (s', Abort e) \<Rightarrow> Abort e | (s', Err err) \<Rightarrow> Err err | (s', Ok _) \<Rightarrow> Ok s')))"

end
