(* ===== verification/Api_Server_Correct.thy ===== *)
theory Api_Server_Correct
  imports Api_Server
begin

text \<open>
  Which APIs a new server serves: the services in its container by their root paths, and the groups its
  discovery lists.
\<close>

definition server_roots :: "generic_api_server \<Rightarrow> string list" where
  "server_roots s = map ws_rootPath (gs_Container s)"

definition resolves :: "runtime_object metrics_api_group_version \<Rightarrow> bool" where
  "resolves g \<longleftrightarrow>
     (case versioned_objects (newDynamicInstaller g) of Ok (k, vl, Pointer v docs) \<Rightarrow> True | _ \<Rightarrow> False)"

lemma resolvesD:
  "resolves g \<Longrightarrow> \<exists>k vl v docs. versioned_objects (newDynamicInstaller g) = Ok (k, vl, Pointer v docs)"
  by (auto simp: resolves_def split: result.splits prod.splits go_object.splits)

definition version_root :: "group_version \<Rightarrow> string" where
  "version_root gv = ''/apis/'' @ gv_Group gv @ ''/'' @ gv_Version gv"

definition group_root :: "group_version \<Rightarrow> string" where
  "group_root gv = ''/apis/'' @ gv_Group gv"

lemma version_root_prefix:
  "serves_under_apis g \<Longrightarrow> ins_prefix (newDynamicInstaller g) = version_root (agv_GroupVersion (mg_APIGroupVersion g))"
  by (simp add: installer_prefix api_root_def version_root_def)

lemma InstallREST_resolves:
  assumes "register = CMHandlers_registerResourceHandlers \<or> register = EMHandlers_registerResourceHandlers"
    and "serves_under_apis g" and "resolves g" and "mg_ResourceLister g = Some l"
    and "\<forall>s \<in> set container. ws_rootPath s \<noteq> version_root (agv_GroupVersion (mg_APIGroupVersion g))"
  shows "\<exists>ws. InstallREST register g container = (container @ [ws], Ok ()) \<and>
    ws_rootPath ws = version_root (agv_GroupVersion (mg_APIGroupVersion g))"
proof -
  obtain k vl v docs where vo: "versioned_objects (newDynamicInstaller g) = Ok (k, vl, Pointer v docs)"
    using resolvesD [OF assms(3)] by blast
  obtain ws where ws: "register (newDynamicInstaller g) (NewWebService (newDynamicInstaller g)) = (ws, Ok ())"
    and root: "ws_rootPath ws = ins_prefix (newDynamicInstaller g)"
    using assms(1) custom_registers [OF assms(2) vo] external_registers [OF assms(2) vo] by blast
  have clash: "\<forall>s \<in> set container. ws_rootPath s \<noteq> ins_prefix (newDynamicInstaller g)"
    using assms(5) by (simp add: version_root_prefix [OF assms(2)])
  show ?thesis
    using InstallREST_registered [where register = register and g = g,
        OF ws disjI1 [OF refl] root assms(4,2) clash]
    by (auto simp: version_root_prefix [OF assms(2)])
qed

lemma group_web_service_Ok:
  "\<exists>ws. group_web_service infos g = Ok ws \<and> ws_rootPath ws = ''/apis/'' @ ag_Name g"
  by (simp add: group_web_service_def Let_def ws_Path_def ws_Route_def Build_def builder_defs)

text \<open>What one installation adds to a server, and where it can be added.\<close>

definition adds_api ::
  "(runtime_object metrics_api_installer \<Rightarrow> runtime_object metrics_service \<Rightarrow> runtime_object metrics_service \<times> unit result) \<Rightarrow>
   runtime_object metrics_api_group_version \<Rightarrow> generic_api_server \<Rightarrow> generic_api_server \<Rightarrow> bool" where
  "adds_api register g base base' \<longleftrightarrow>
     (let gv = agv_GroupVersion (mg_APIGroupVersion g) in
      (\<exists>ws gws. gs_Container base' = gs_Container base @ [ws, gws] \<and>
         InstallREST register g (gs_Container base) = (gs_Container base @ [ws], Ok ()) \<and>
         ws_rootPath ws = version_root gv \<and> ws_rootPath gws = group_root gv) \<and>
      gs_apiGroupNames base' = gs_apiGroupNames base @ [gv_Group gv] \<and>
      gs_apiGroups base' = go_put (gv_Group gv) (api_group_of gv) (gs_apiGroups base))"

definition api_free :: "group_version \<Rightarrow> generic_api_server \<Rightarrow> bool" where
  "api_free gv base \<longleftrightarrow>
     version_root gv \<notin> set (server_roots base) \<and> group_root gv \<notin> set (server_roots base) \<and>
     gv_Group gv \<notin> dom (go_get (gs_apiGroups base))"

lemma adds_apiD:
  assumes "adds_api register g base base'" and "agv_GroupVersion (mg_APIGroupVersion g) = gv"
  shows "server_roots base' = server_roots base @ [version_root gv, group_root gv]"
    and "gs_apiGroupNames base' = gs_apiGroupNames base @ [gv_Group gv]"
    and "gs_apiGroups base' = go_put (gv_Group gv) (api_group_of gv) (gs_apiGroups base)"
  using assms by (auto simp: adds_api_def server_roots_def Let_def)

text \<open>One API on a server that has neither of its two roots, nor its group.\<close>

lemma install_group_Ok:
  fixes s :: adapter_server
  defines "base \<equiv> GenericAPIServer s"
  assumes "register = CMHandlers_registerResourceHandlers \<or> register = EMHandlers_registerResourceHandlers"
    and "sch_PrioritizedVersionsForGroup scheme groupName = gv # gvs"
    and "g = api (NewDefaultAPIGroupInfo groupName scheme) gv"
    and "agv_GroupVersion (mg_APIGroupVersion g) = gv"
    and "serves_under_apis g" and "resolves g" and "mg_ResourceLister g = Some l"
    and "api_free gv base"
  shows "\<exists>base'. install_group groupName register api scheme s = (s\<lparr>GenericAPIServer := base'\<rparr>, Ok ()) \<and>
    adds_api register g base base'"
proof -
  have free: "\<forall>x \<in> set (gs_Container base). ws_rootPath x \<noteq> version_root gv \<and> ws_rootPath x \<noteq> group_root gv"
    using assms(9) unfolding server_roots_def api_free_def by (metis image_eqI set_map)
  then have "\<forall>x \<in> set (gs_Container base). ws_rootPath x \<noteq> version_root (agv_GroupVersion (mg_APIGroupVersion g))"
    by (simp add: assms(5))
  from InstallREST_resolves [OF assms(2,6,7,8) this] obtain ws where
    inst: "InstallREST register g (gs_Container base) = (gs_Container base @ [ws], Ok ())"
    and root: "ws_rootPath ws = version_root gv" by (auto simp: assms(5))
  have name: "ag_Name (api_group_of gv) = gv_Group gv" by (simp add: api_group_of_def Let_def)
  obtain gws where gws: "group_web_service (gs_SupportedMediaTypes base) (api_group_of gv) = Ok gws"
    and groot: "ws_rootPath gws = group_root gv"
    using group_web_service_Ok [of "gs_SupportedMediaTypes base" "api_group_of gv"]
    by (auto simp: name group_root_def)
  have "version_root gv \<noteq> group_root gv" "group_root gv \<noteq> []"
    by (simp_all add: version_root_def group_root_def)
  then have add: "container_Add (gs_Container base @ [ws]) gws = Ok ((gs_Container base @ [ws]) @ [gws])"
    using root groot free by (intro container_Add_Ok) auto
  let ?base = "(AddGroup (api_group_of gv) base)\<lparr>gs_Container := gs_Container base @ [ws, gws]\<rparr>"
  have "install_group groupName register api scheme s = (s\<lparr>GenericAPIServer := ?base\<rparr>, Ok ())"
    using inst gws add assms(3)
    by (simp add: install_group_def NewDefaultAPIGroupInfo_def Let_def base_def AddGroup_def
        assms(4) [unfolded NewDefaultAPIGroupInfo_def])
  moreover have "adds_api register g base ?base"
    using inst root groot assms(9)
    by (simp add: adds_api_def assms(5) AddGroup_def name api_free_def domIff Let_def)
  ultimately show ?thesis by blast
qed

lemma plain_GroupNames [simp]:
  "plain_element custom_GroupName" "plain_element external_GroupName"
  by (simp_all add: plain_element_def custom_GroupName_def external_GroupName_def)

lemma api_simps [simp]:
  "agv_GroupVersion (mg_APIGroupVersion (cmAPI prov info gv)) = gv"
  "agv_GroupVersion (mg_APIGroupVersion (emAPI eprov info gv)) = gv"
  "mg_ResourceLister (cmAPI prov info gv) = Some (customMetrics_ListAPIResources prov)"
  "mg_ResourceLister (emAPI eprov info gv) = Some (externalMetrics_ListAPIResources eprov)"
  "serves_under_apis (cmAPI prov info gv) \<longleftrightarrow> plain_element (gv_Group gv) \<and> plain_element (gv_Version gv)"
  "serves_under_apis (emAPI eprov info gv) \<longleftrightarrow> plain_element (gv_Group gv) \<and> plain_element (gv_Version gv)"
  by (simp_all add: cmAPI_def emAPI_def api_group_version_of_def serves_under_apis_def)

section \<open>A new server\<close>

text \<open>
  What a scheme has to know for a group: a first version, and the kinds of the group's objects (which do
  not depend on the provider).
\<close>

definition custom_scheme :: "runtime_scheme \<Rightarrow> string \<Rightarrow> bool" where
  "custom_scheme scheme v \<longleftrightarrow>
     (case sch_PrioritizedVersionsForGroup scheme custom_GroupName of
        [] \<Rightarrow> False
      | gv # _ \<Rightarrow> gv = \<lparr>gv_Group = custom_GroupName, gv_Version = v\<rparr> \<and> plain_element v \<and>
          resolves (cmAPI example_provider (NewDefaultAPIGroupInfo custom_GroupName scheme) gv))"

definition no_external :: external_metrics_provider where
  "no_external = \<lparr>GetExternalMetric = (\<lambda>_ _ _. Ok (Some \<lparr>emvl_Items = []\<rparr>)), ListAllExternalMetrics = []\<rparr>"

definition external_scheme :: "runtime_scheme \<Rightarrow> string \<Rightarrow> bool" where
  "external_scheme scheme v \<longleftrightarrow>
     (case sch_PrioritizedVersionsForGroup scheme external_GroupName of
        [] \<Rightarrow> False
      | gv # _ \<Rightarrow> gv = \<lparr>gv_Group = external_GroupName, gv_Version = v\<rparr> \<and> plain_element v \<and>
          resolves (emAPI no_external (NewDefaultAPIGroupInfo external_GroupName scheme) gv))"

text \<open>Of the storage only the objects matter for what a group registers.\<close>

lemma versioned_objects_cong:
  assumes "mg_APIGroupVersion g = mg_APIGroupVersion g'"
    and "st_New (mg_DynamicStorage g) = st_New (mg_DynamicStorage g')"
    and "map_option rl_NewList (st_Lister (mg_DynamicStorage g)) = map_option rl_NewList (st_Lister (mg_DynamicStorage g'))"
  shows "versioned_objects (newDynamicInstaller g) = versioned_objects (newDynamicInstaller g')"
  using assms
  by (cases "st_Lister (mg_DynamicStorage g)"; cases "st_Lister (mg_DynamicStorage g')")
    (simp_all add: versioned_objects_def getResourceKind_def)

lemma versioned_objects_any_provider:
  "versioned_objects (newDynamicInstaller (cmAPI prov info gv)) = versioned_objects (newDynamicInstaller (cmAPI prov' info gv))"
  "versioned_objects (newDynamicInstaller (emAPI eprov info gv)) = versioned_objects (newDynamicInstaller (emAPI eprov' info gv))"
  by (rule versioned_objects_cong; simp add: cmAPI_def emAPI_def)+

lemma resolves_any_provider:
  "resolves (cmAPI prov info gv) = resolves (cmAPI prov' info gv)"
  "resolves (emAPI eprov info gv) = resolves (emAPI eprov' info gv)"
  unfolding resolves_def
  by (simp_all only: versioned_objects_any_provider(1) [of prov _ _ prov'] versioned_objects_any_provider(2) [of eprov _ _ eprov'])

lemma InstallCustomMetricsAPI_Ok:
  assumes "custom_scheme scheme v" and "gv = \<lparr>gv_Group = custom_GroupName, gv_Version = v\<rparr>"
    and "api_free gv (GenericAPIServer s)"
  shows "\<exists>base'. InstallCustomMetricsAPI scheme prov s = (s\<lparr>GenericAPIServer := base'\<rparr>, Ok ()) \<and>
    adds_api CMHandlers_registerResourceHandlers (cmAPI prov (NewDefaultAPIGroupInfo custom_GroupName scheme) gv)
      (GenericAPIServer s) base'"
proof -
  obtain gvs where gvs: "sch_PrioritizedVersionsForGroup scheme custom_GroupName = gv # gvs"
    and v: "plain_element v" and res: "resolves (cmAPI prov (NewDefaultAPIGroupInfo custom_GroupName scheme) gv)"
    using assms(1,2) resolves_any_provider(1) [of prov _ _ example_provider]
    by (auto simp: custom_scheme_def split: list.splits)
  show ?thesis
    using install_group_Ok [where register = CMHandlers_registerResourceHandlers and api = "cmAPI prov",
        OF _ gvs refl _ _ res, of "customMetrics_ListAPIResources prov" s] assms(2,3) v
    by (simp add: InstallCustomMetricsAPI_def)
qed

lemma InstallExternalMetricsAPI_Ok:
  assumes "external_scheme scheme v" and "gv = \<lparr>gv_Group = external_GroupName, gv_Version = v\<rparr>"
    and "api_free gv (GenericAPIServer s)"
  shows "\<exists>base'. InstallExternalMetricsAPI scheme prov s = (s\<lparr>GenericAPIServer := base'\<rparr>, Ok ()) \<and>
    adds_api EMHandlers_registerResourceHandlers (emAPI prov (NewDefaultAPIGroupInfo external_GroupName scheme) gv)
      (GenericAPIServer s) base'"
proof -
  obtain gvs where gvs: "sch_PrioritizedVersionsForGroup scheme external_GroupName = gv # gvs"
    and v: "plain_element v" and res: "resolves (emAPI prov (NewDefaultAPIGroupInfo external_GroupName scheme) gv)"
    using assms(1,2) resolves_any_provider(2) [of prov _ _ no_external]
    by (auto simp: external_scheme_def split: list.splits)
  show ?thesis
    using install_group_Ok [where register = EMHandlers_registerResourceHandlers and api = "emAPI prov",
        OF _ gvs refl _ _ res, of "externalMetrics_ListAPIResources prov" s] assms(2,3) v
    by (simp add: InstallExternalMetricsAPI_def)
qed

lemma install_outcome:
  assumes "\<exists>base'. f = (s\<lparr>GenericAPIServer := base'\<rparr>, Ok ()) \<and> P base'"
  shows "(case f of (s', Abort e) \<Rightarrow> Abort e | (s', Err err) \<Rightarrow> Err err | (s', Ok _) \<Rightarrow> Ok s') = Ok (fst f) \<and>
    P (GenericAPIServer (fst f))"
  using assms by auto

text \<open>A base server that serves nothing below either group.\<close>

definition without_metrics :: "generic_api_server \<Rightarrow> bool" where
  "without_metrics s \<longleftrightarrow>
     (\<forall>r \<in> set (server_roots s). \<not> has_prefix r (''/apis/'' @ custom_GroupName) \<and>
        \<not> has_prefix r (''/apis/'' @ external_GroupName)) \<and>
     custom_GroupName \<notin> dom (go_get (gs_apiGroups s)) \<and>
     external_GroupName \<notin> dom (go_get (gs_apiGroups s))"

definition api_roots :: "string \<Rightarrow> string \<Rightarrow> string list" where
  "api_roots g v = [''/apis/'' @ g @ ''/'' @ v, ''/apis/'' @ g]"

definition custom_gv :: "string \<Rightarrow> group_version" where
  "custom_gv v = \<lparr>gv_Group = custom_GroupName, gv_Version = v\<rparr>"

definition external_gv :: "string \<Rightarrow> group_version" where
  "external_gv v = \<lparr>gv_Group = external_GroupName, gv_Version = v\<rparr>"

text \<open>What the two steps of \<open>New\<close> make of the generic server.\<close>

definition custom_step :: "runtime_scheme \<Rightarrow> string \<Rightarrow> custom_metrics_provider option \<Rightarrow>
   generic_api_server \<Rightarrow> generic_api_server \<Rightarrow> bool" where
  "custom_step scheme v cm base base' \<longleftrightarrow>
     (case cm of None \<Rightarrow> base' = base
      | Some prov \<Rightarrow> adds_api CMHandlers_registerResourceHandlers
          (cmAPI prov (NewDefaultAPIGroupInfo custom_GroupName scheme) (custom_gv v)) base base')"

definition external_step :: "runtime_scheme \<Rightarrow> string \<Rightarrow> external_metrics_provider option \<Rightarrow>
   generic_api_server \<Rightarrow> generic_api_server \<Rightarrow> bool" where
  "external_step scheme v em base base' \<longleftrightarrow>
     (case em of None \<Rightarrow> base' = base
      | Some prov \<Rightarrow> adds_api EMHandlers_registerResourceHandlers
          (emAPI prov (NewDefaultAPIGroupInfo external_GroupName scheme) (external_gv v)) base base')"

lemma custom_stepD:
  assumes "custom_step scheme v cm base base'"
  shows "server_roots base' = server_roots base @
      (if cm \<noteq> None then [version_root (custom_gv v), group_root (custom_gv v)] else [])"
    and "gs_apiGroupNames base' = gs_apiGroupNames base @ (if cm \<noteq> None then [custom_GroupName] else [])"
    and "gs_apiGroups base' =
      (if cm \<noteq> None then go_put custom_GroupName (api_group_of (custom_gv v)) (gs_apiGroups base) else gs_apiGroups base)"
  using assms adds_apiD [where register = CMHandlers_registerResourceHandlers and base = base and base' = base'
      and gv = "custom_gv v", OF _ api_simps(1)]
  by (auto simp: custom_step_def custom_gv_def split: option.splits)

lemma external_stepD:
  assumes "external_step scheme v em base base'"
  shows "server_roots base' = server_roots base @
      (if em \<noteq> None then [version_root (external_gv v), group_root (external_gv v)] else [])"
    and "gs_apiGroupNames base' = gs_apiGroupNames base @ (if em \<noteq> None then [external_GroupName] else [])"
    and "gs_apiGroups base' =
      (if em \<noteq> None then go_put external_GroupName (api_group_of (external_gv v)) (gs_apiGroups base) else gs_apiGroups base)"
  using assms adds_apiD [where register = EMHandlers_registerResourceHandlers and base = base and base' = base'
      and gv = "external_gv v", OF _ api_simps(2)]
  by (auto simp: external_step_def external_gv_def split: option.splits)

lemma New_steps:
  assumes "generic_new name = Ok base" and "without_metrics base"
    and "custom_scheme scheme cv" and "external_scheme scheme ev"
  shows "\<exists>s base'. New generic_new scheme name cm em = Ok s \<and> custom_step scheme cv cm base base' \<and>
    external_step scheme ev em base' (GenericAPIServer s)"
proof -
  let ?s0 = "\<lparr>GenericAPIServer = base, customMetricsProvider = cm, externalMetricsProvider = em\<rparr>"
  have free: "api_free (custom_gv cv) base" "api_free (external_gv ev) base"
    using assms(2)
    by (auto simp: without_metrics_def api_free_def version_root_def group_root_def has_prefix_def
        custom_gv_def external_gv_def)
  define s1 where "s1 = (case cm of None \<Rightarrow> ?s0
      | Some prov \<Rightarrow> fst (InstallCustomMetricsAPI scheme prov ?s0))"
  have custom: "(case cm of None \<Rightarrow> Ok ?s0 | Some prov \<Rightarrow>
      (case InstallCustomMetricsAPI scheme prov ?s0 of
         (s', Abort e) \<Rightarrow> Abort e | (s', Err err) \<Rightarrow> Err err | (s', Ok _) \<Rightarrow> Ok s')) = Ok s1"
    and s1: "custom_step scheme cv cm base (GenericAPIServer s1)"
    using install_outcome [OF InstallCustomMetricsAPI_Ok [OF assms(3) custom_gv_def, of ?s0]] free(1)
    by (cases cm; simp add: s1_def custom_step_def)+
  have free1: "api_free (external_gv ev) (GenericAPIServer s1)"
    using free(2) custom_stepD [OF s1]
    by (auto simp: api_free_def version_root_def group_root_def custom_gv_def external_gv_def
        custom_GroupName_def external_GroupName_def)
  define s2 where "s2 = (case em of None \<Rightarrow> s1
      | Some prov \<Rightarrow> fst (InstallExternalMetricsAPI scheme prov s1))"
  have external: "(case em of None \<Rightarrow> Ok s1 | Some prov \<Rightarrow>
      (case InstallExternalMetricsAPI scheme prov s1 of
         (s', Abort e) \<Rightarrow> Abort e | (s', Err err) \<Rightarrow> Err err | (s', Ok _) \<Rightarrow> Ok s')) = Ok s2"
    and s2: "external_step scheme ev em (GenericAPIServer s1) (GenericAPIServer s2)"
    using install_outcome [OF InstallExternalMetricsAPI_Ok [OF assms(4) external_gv_def free1]]
    by (cases em; simp add: s2_def external_step_def)+
  have "New generic_new scheme name cm em = Ok s2"
    using assms(1) custom external by (simp add: New_def Let_def)
  then show ?thesis using s1 s2 by blast
qed

lemma New_installs:
  assumes "generic_new name = Ok base" and "without_metrics base"
    and "custom_scheme scheme cv" and "external_scheme scheme ev"
  shows "\<exists>s. New generic_new scheme name cm em = Ok s \<and>
    server_roots (GenericAPIServer s) = server_roots base @
      (if cm \<noteq> None then api_roots custom_GroupName cv else []) @
      (if em \<noteq> None then api_roots external_GroupName ev else []) \<and>
    gs_apiGroupNames (GenericAPIServer s) = gs_apiGroupNames base @
      (if cm \<noteq> None then [custom_GroupName] else []) @ (if em \<noteq> None then [external_GroupName] else []) \<and>
    go_get (gs_apiGroups (GenericAPIServer s)) custom_GroupName =
      (if cm \<noteq> None then Some (api_group_of \<lparr>gv_Group = custom_GroupName, gv_Version = cv\<rparr>) else None) \<and>
    go_get (gs_apiGroups (GenericAPIServer s)) external_GroupName =
      (if em \<noteq> None then Some (api_group_of \<lparr>gv_Group = external_GroupName, gv_Version = ev\<rparr>) else None)"
proof -
  from New_steps [where generic_new = generic_new and name = name, OF assms, of cm em] obtain s base' where new: "New generic_new scheme name cm em = Ok s"
    and steps: "custom_step scheme cv cm base base'" "external_step scheme ev em base' (GenericAPIServer s)" by blast
  have "custom_GroupName \<noteq> external_GroupName"
    by (simp add: custom_GroupName_def external_GroupName_def)
  with new assms(2) show ?thesis
    unfolding custom_gv_def [symmetric] external_gv_def [symmetric]
    by (auto simp: custom_stepD [OF steps(1)] external_stepD [OF steps(2)] without_metrics_def version_root_def
        group_root_def api_roots_def domIff)
      (auto simp: custom_gv_def external_gv_def)
qed

text \<open>
  C9: A server serves the APIs of the providers it is given. On a generic server that serves nothing
  below the two groups, constructing the adapter's server succeeds, and adds for each provider that is
  not nil, custom metrics first, the service of the group version, the service of the group, and the
  group to discovery, with the served version as its only and preferred one; for a nil provider it adds
  nothing.
\<close>

theorem New_installs_given_apis:
  assumes "generic_new name = Ok base" and "without_metrics base"
    and "custom_scheme scheme cv" and "external_scheme scheme ev"
  shows "\<exists>s. New generic_new scheme name cm em = Ok s \<and>
    server_roots (GenericAPIServer s) = server_roots base @
      (if cm \<noteq> None then api_roots custom_GroupName cv else []) @
      (if em \<noteq> None then api_roots external_GroupName ev else []) \<and>
    gs_apiGroupNames (GenericAPIServer s) = gs_apiGroupNames base @
      (if cm \<noteq> None then [custom_GroupName] else []) @ (if em \<noteq> None then [external_GroupName] else []) \<and>
    go_get (gs_apiGroups (GenericAPIServer s)) custom_GroupName =
      (if cm \<noteq> None then Some (api_group_of \<lparr>gv_Group = custom_GroupName, gv_Version = cv\<rparr>) else None) \<and>
    go_get (gs_apiGroups (GenericAPIServer s)) external_GroupName =
      (if em \<noteq> None then Some (api_group_of \<lparr>gv_Group = external_GroupName, gv_Version = ev\<rparr>) else None)"
  using assms by (rule New_installs)

text \<open>A scheme like the one \<open>init\<close> fills, and a generic server that serves the root of \<open>/apis\<close>.\<close>

fun object_kind :: "runtime_object \<Rightarrow> string \<times> string" where
  "object_kind (MetricValueObject v) = (custom_GroupName, ''MetricValue'')"
| "object_kind (MetricValueListObject l) = (custom_GroupName, ''MetricValueList'')"
| "object_kind (ExternalMetricValueObject v) = (external_GroupName, ''ExternalMetricValue'')"
| "object_kind (ExternalMetricValueListObject l) = (external_GroupName, ''ExternalMetricValueList'')"
| "object_kind NilMetricValueList = (custom_GroupName, ''MetricValueList'')"
| "object_kind NilExternalMetricValueList = (external_GroupName, ''ExternalMetricValueList'')"

definition example_scheme :: runtime_scheme where
  "example_scheme =
     \<lparr>sch_PrioritizedVersionsForGroup = (\<lambda>g.
        if g = custom_GroupName then map (\<lambda>v. \<lparr>gv_Group = g, gv_Version = v\<rparr>) [''v1beta1'', ''v1beta2'']
        else if g = external_GroupName then [\<lparr>gv_Group = g, gv_Version = ''v1beta1''\<rparr>] else []),
      sch_ObjectKinds = (\<lambda>x. Ok [\<lparr>gvk_Group = fst (object_kind x), gvk_Version = ''__internal'',
                                  gvk_Kind = snd (object_kind x)\<rparr>]),
      sch_TypeOf = (\<lambda>x. ''*'' @ snd (object_kind x)),
      sch_New = (\<lambda>k. if gvk_Kind k = ''ListOptions'' then Ok list_options_object
                      else Ok (Pointer (StructValue (gvk_Version k @ ''.'' @ gvk_Kind k) []) None)),
      sch_SupportedMediaTypes = [(''application/json'', True)],
      sch_ConvertFieldLabel = (\<lambda>_ l v. Ok (l, v))\<rparr>"

lemma example_schemes: "custom_scheme example_scheme ''v1beta1''" "external_scheme example_scheme ''v1beta1''"
proof -
  note defs = resolves_def versioned_objects_def getResourceKind_def cmAPI_def emAPI_def
    api_group_version_of_def NewDefaultAPIGroupInfo_def WithKind_def gvk_Empty_def
    indirectArbitraryPointer_def list_options_object_def
  have ne: "external_GroupName \<noteq> custom_GroupName"
    by (simp add: custom_GroupName_def external_GroupName_def)
  have v: "plain_element ''v1beta1''" by (simp add: plain_element_def)
  have "resolves (cmAPI example_provider (NewDefaultAPIGroupInfo custom_GroupName example_scheme)
      \<lparr>gv_Group = custom_GroupName, gv_Version = ''v1beta1''\<rparr>)"
    by (simp add: defs example_scheme_def)
  then show "custom_scheme example_scheme ''v1beta1''"
    using v by (simp add: custom_scheme_def example_scheme_def)
  have "resolves (emAPI no_external (NewDefaultAPIGroupInfo external_GroupName example_scheme)
      \<lparr>gv_Group = external_GroupName, gv_Version = ''v1beta1''\<rparr>)"
    by (simp add: defs example_scheme_def)
  then show "external_scheme example_scheme ''v1beta1''"
    using v ne by (simp add: external_scheme_def example_scheme_def)
qed

definition example_base :: generic_api_server where
  "example_base = \<lparr>gs_Container = [ws_Path ''/apis'' new_web_service], gs_apiGroups = [],
     gs_apiGroupNames = [], gs_SupportedMediaTypes = [(''application/json'', True)]\<rparr>"

lemma example_base_without_metrics: "without_metrics example_base"
  by (simp add: example_base_def without_metrics_def server_roots_def ws_Path_def new_web_service_def
      has_prefix_def custom_GroupName_def external_GroupName_def)

theorem New_installs_given_apis_witness:
  "\<exists>s. New (\<lambda>_. Ok example_base) example_scheme ''adapter'' (Some example_provider) None = Ok s \<and>
    server_roots (GenericAPIServer s) =
      [''/apis'', ''/apis/custom.metrics.k8s.io/v1beta1'', ''/apis/custom.metrics.k8s.io''] \<and>
    gs_apiGroupNames (GenericAPIServer s) = [''custom.metrics.k8s.io'']"
proof -
  from New_installs_given_apis [OF refl example_base_without_metrics example_schemes, of "''adapter''" "Some example_provider" None]
  obtain s where "New (\<lambda>_. Ok example_base) example_scheme ''adapter'' (Some example_provider) None = Ok s"
    and "server_roots (GenericAPIServer s) = server_roots example_base @ api_roots custom_GroupName ''v1beta1''"
    and "gs_apiGroupNames (GenericAPIServer s) = gs_apiGroupNames example_base @ [custom_GroupName]"
    by auto
  then show ?thesis
    by (simp add: api_roots_def custom_GroupName_def server_roots_def example_base_def ws_Path_def new_web_service_def)
qed

end
