(* ===== verification/Server_Options.thy ===== *)
theory Server_Options
  imports Api_Server_Correct
begin

text \<open>
  \<open>pkg/cmd/server/start.go\<close>: the options of the server of an adapter, made with their defaults, offered
  as flags and turned into the configuration of the generic API server. The options for serving,
  authentication and authorization are vendored and stay opaque (of type \<open>'o\<close>), as are the parts of a
  configuration they write to (\<open>'gc\<close>); the feature options (\<open>options/feature.go\<close>) are three switches.
\<close>

section \<open>Data\<close>

record feature_options =
  EnableProfiling :: bool
  EnableContentionProfiling :: bool
  EnableSwaggerUI :: bool

text \<open>The options of \<open>start.go\<close>; a nil pointer to the opaque ones is one of their values.\<close>

record 'o server_options =
  so_SecureServing :: 'o
  so_Authentication :: 'o
  so_Authorization :: 'o
  so_Features :: "feature_options option"

text \<open>
  What the options write of the generic configuration, besides its version, which \<open>Complete\<close> sets, and
  its switches.
\<close>

record 'gc config_parts =
  cp_SecureServing :: 'gc
  cp_LoopbackClientConfig :: 'gc
  cp_Authentication :: 'gc
  cp_Authorization :: 'gc
  cp_OpenAPIConfig :: 'gc
  cp_Features :: feature_options

type_synonym 'gc server_config = "'gc config_parts generic_config"

text \<open>
  The vendored operations. Each one sees just the parts of the configuration the code hands to it;
  authentication also writes to the serving information, where it stores the authority of client
  certificates.
\<close>

record ('o, 'gc) options_env =
  oe_NewSecureServingOptions :: 'o
  oe_WithLoopback :: "'o \<Rightarrow> 'o"
  oe_NewDelegatingAuthenticationOptions :: 'o
  oe_NewDelegatingAuthorizationOptions :: 'o
  oe_SecureServing_flags :: "'o \<Rightarrow> string list"
  oe_Authentication_flags :: "'o \<Rightarrow> string list"
  oe_Authorization_flags :: "'o \<Rightarrow> string list"
  oe_MaybeDefaultWithSelfSignedCerts :: "'o \<Rightarrow> string \<Rightarrow> string list \<Rightarrow> string list \<Rightarrow> 'o result"
  oe_SecureServing_ApplyTo :: "'o \<Rightarrow> 'gc \<times> 'gc \<Rightarrow> ('gc \<times> 'gc) result"
  oe_Authentication_ApplyTo :: "'o \<Rightarrow> 'gc \<times> 'gc \<Rightarrow> 'gc \<Rightarrow> ('gc \<times> 'gc) result"
  oe_Authorization_ApplyTo :: "'o \<Rightarrow> 'gc \<Rightarrow> 'gc result"
  oe_NewConfig_parts :: "feature_options \<Rightarrow> 'gc config_parts"

section \<open>Feature options\<close>

text \<open>The switches of a new generic configuration (\<open>config.go\<close>): profiling is on.\<close>

definition default_features :: feature_options where
  "default_features = \<lparr>EnableProfiling = True, EnableContentionProfiling = False, EnableSwaggerUI = False\<rparr>"

definition NewConfig :: "('o, 'gc) options_env \<Rightarrow> 'gc server_config" where
  "NewConfig env = \<lparr>gc_Version = None,
     gc_rest = (oe_NewConfig_parts env default_features)\<lparr>cp_Features := default_features\<rparr>\<rparr>"

definition NewFeatureOptions :: "('o, 'gc) options_env \<Rightarrow> feature_options" where
  "NewFeatureOptions env =
     (let defaults = cp_Features (gc_rest (NewConfig env))
      in \<lparr>EnableProfiling = EnableProfiling defaults,
          EnableContentionProfiling = EnableContentionProfiling defaults,
          EnableSwaggerUI = EnableSwaggerUI defaults\<rparr>)"

definition FeatureOptions_flags :: "feature_options option \<Rightarrow> string list" where
  "FeatureOptions_flags f =
     (case f of None \<Rightarrow> [] | Some _ \<Rightarrow> [''profiling'', ''contention-profiling'', ''enable-swagger-ui''])"

text \<open>\<open>FeatureOptions.ApplyTo\<close>, which is there to be called with the configuration.\<close>

definition FeatureOptions_ApplyTo :: "feature_options option \<Rightarrow> 'gc server_config \<Rightarrow> 'gc server_config" where
  "FeatureOptions_ApplyTo f c =
     (case f of None \<Rightarrow> c | Some feats \<Rightarrow> c\<lparr>gc_rest := (gc_rest c)\<lparr>cp_Features := feats\<rparr>\<rparr>)"

section \<open>Server options\<close>

definition NewCustomMetricsAdapterServerOptions :: "('o, 'gc) options_env \<Rightarrow> 'o server_options" where
  "NewCustomMetricsAdapterServerOptions env =
     \<lparr>so_SecureServing = oe_WithLoopback env (oe_NewSecureServingOptions env),
      so_Authentication = oe_NewDelegatingAuthenticationOptions env,
      so_Authorization = oe_NewDelegatingAuthorizationOptions env,
      so_Features = Some (NewFeatureOptions env)\<rparr>"

definition options_Validate :: "'o server_options \<Rightarrow> string list \<Rightarrow> go_error option" where
  "options_Validate opts args = None"

definition options_Complete :: "'o server_options \<Rightarrow> 'o server_options \<times> go_error option" where
  "options_Complete opts = (opts, None)"

text \<open>
  \<open>Config\<close>: the certificates are put into the options for serving, which the result's first part holds;
  then each of three options is applied to its parts of a new configuration.
\<close>

definition apply_SecureServing ::
  "('o, 'gc) options_env \<Rightarrow> 'o server_options \<Rightarrow> 'gc server_config \<Rightarrow> 'gc server_config result" where
  "apply_SecureServing env opts c =
     bind_result (oe_SecureServing_ApplyTo env (so_SecureServing opts)
         (cp_SecureServing (gc_rest c), cp_LoopbackClientConfig (gc_rest c))) (\<lambda>(serving, loopback).
       Ok (c\<lparr>gc_rest := (gc_rest c)\<lparr>cp_SecureServing := serving, cp_LoopbackClientConfig := loopback\<rparr>\<rparr>))"

definition apply_Authentication ::
  "('o, 'gc) options_env \<Rightarrow> 'o server_options \<Rightarrow> 'gc server_config \<Rightarrow> 'gc server_config result" where
  "apply_Authentication env opts c =
     bind_result (oe_Authentication_ApplyTo env (so_Authentication opts)
         (cp_Authentication (gc_rest c), cp_SecureServing (gc_rest c)) (cp_OpenAPIConfig (gc_rest c)))
       (\<lambda>(authentication, serving).
         Ok (c\<lparr>gc_rest := (gc_rest c)\<lparr>cp_Authentication := authentication, cp_SecureServing := serving\<rparr>\<rparr>))"

definition apply_Authorization ::
  "('o, 'gc) options_env \<Rightarrow> 'o server_options \<Rightarrow> 'gc server_config \<Rightarrow> 'gc server_config result" where
  "apply_Authorization env opts c =
     bind_result (oe_Authorization_ApplyTo env (so_Authorization opts) (cp_Authorization (gc_rest c)))
       (\<lambda>authorization. Ok (c\<lparr>gc_rest := (gc_rest c)\<lparr>cp_Authorization := authorization\<rparr>\<rparr>))"

definition options_Config ::
  "('o, 'gc) options_env \<Rightarrow> 'o server_options \<Rightarrow> 'o server_options \<times> 'gc server_config result" where
  "options_Config env opts =
     (case oe_MaybeDefaultWithSelfSignedCerts env (so_SecureServing opts) ''localhost'' [] [''127.0.0.1''] of
        Abort e \<Rightarrow> (opts, Abort e)
      | Err err \<Rightarrow> (opts, Err (Errorf ''error creating self-signed certificates: %v'' [] [err]))
      | Ok serving \<Rightarrow>
          let opts' = opts\<lparr>so_SecureServing := serving\<rparr>
          in (opts', bind_result (apply_SecureServing env opts' (NewConfig env)) (\<lambda>c1.
                     bind_result (apply_Authentication env opts' c1) (\<lambda>c2.
                       apply_Authorization env opts' c2))))"

section \<open>The switches stay at their defaults\<close>

lemma apply_Features [simp]:
  "apply_SecureServing env opts c = Ok c' \<Longrightarrow> cp_Features (gc_rest c') = cp_Features (gc_rest c)"
  "apply_Authentication env opts c = Ok c' \<Longrightarrow> cp_Features (gc_rest c') = cp_Features (gc_rest c)"
  "apply_Authorization env opts c = Ok c' \<Longrightarrow> cp_Features (gc_rest c') = cp_Features (gc_rest c)"
  by (auto simp: apply_SecureServing_def apply_Authentication_def apply_Authorization_def split: prod.splits)

lemma options_Config_Features:
  "options_Config env opts = (opts', Ok c) \<Longrightarrow> cp_Features (gc_rest c) = default_features"
  by (auto simp: options_Config_def NewConfig_def Let_def split: result.splits)

text \<open>The switches have no part in it either.\<close>

lemma apply_ignores_Features [simp]:
  "apply_SecureServing env (opts\<lparr>so_Features := f, so_SecureServing := s\<rparr>) =
     apply_SecureServing env (opts\<lparr>so_SecureServing := s\<rparr>)"
  "apply_Authentication env (opts\<lparr>so_Features := f, so_SecureServing := s\<rparr>) =
     apply_Authentication env (opts\<lparr>so_SecureServing := s\<rparr>)"
  "apply_Authorization env (opts\<lparr>so_Features := f, so_SecureServing := s\<rparr>) =
     apply_Authorization env (opts\<lparr>so_SecureServing := s\<rparr>)"
  by (simp_all add: fun_eq_iff apply_SecureServing_def apply_Authentication_def apply_Authorization_def)

lemma options_Config_ignores_Features:
  "options_Config env (opts\<lparr>so_Features := f\<rparr>) =
     (let (opts', r) = options_Config env opts in (opts'\<lparr>so_Features := f\<rparr>, r))"
  by (simp add: options_Config_def Let_def split: result.splits)

end
