(* ===== verification/Rw_Mutex.thy ===== *)
theory Rw_Mutex
  imports Go_Prelude
begin

text \<open>
  Go's \<open>sync.RWMutex\<close> around a shared state, the way the sample provider and the REST mapper use it:
  a writing method is \<open>Lock\<close>, a body that loads and stores the state, a deferred \<open>Unlock\<close>; a reading
  method is \<open>RLock\<close>, a body that loads the state (here twice), a deferred \<open>RUnlock\<close>. Goroutines are
  numbered and their steps interleave in any way the mutex allows. A goroutine in \<open>Lock\<close> first takes the
  mutex among writers, which keeps new readers out, and then waits for the readers that are inside; one
  that is kept out is still outside here. (That \<open>Unlock\<close> lets the readers it kept out in before the next
  writer only removes interleavings.)

  The lemmas show that the steps between lock and unlock are one step on the state: the state is always
  the initial one after the stored writes in their order, and a reader sees one state throughout. The
  locale \<open>guarded_state\<close> gives its clients an invariant of every state a reader can see.
\<close>

section \<open>The machine\<close>

text \<open>Where a goroutine is in a method: which write it is in and the state it loaded, or which read.\<close>

datatype ('s, 'w) pc =
    Outside
  | Waiting 'w
  | Locked 'w
  | Loaded 'w 's
  | Stored
  | RLocked
  | RLoaded 's
  | RDone 's 's

record ('s, 'w) machine =
  m_state :: 's
  m_writer :: bool
  m_readers :: nat
  m_pc :: "nat \<Rightarrow> ('s, 'w) pc"
  m_log :: "'w list"

datatype 'w event =
    Lock nat 'w | Acquire nat | Load nat | Store nat | Unlock nat
  | RLock nat | RLoad nat | RLoadAgain nat | RUnlock nat

definition goto :: "nat \<Rightarrow> ('s, 'w) pc \<Rightarrow> ('s, 'w) machine \<Rightarrow> ('s, 'w) machine" where
  "goto t c m = m\<lparr>m_pc := (m_pc m)(t := c)\<rparr>"

text \<open>\<open>m_log\<close> is not in the program: it records the writes in the order they are stored.\<close>

inductive rw_step ::
  "('w \<Rightarrow> 's \<Rightarrow> 's) \<Rightarrow> ('s, 'w) machine \<Rightarrow> 'w event \<Rightarrow> ('s, 'w) machine \<Rightarrow> bool"
  for upd :: "'w \<Rightarrow> 's \<Rightarrow> 's" where
  lock: "m_pc m t = Outside \<Longrightarrow> \<not> m_writer m \<Longrightarrow>
    rw_step upd m (Lock t w) (goto t (Waiting w) (m\<lparr>m_writer := True\<rparr>))"
| acquire: "m_pc m t = Waiting w \<Longrightarrow> m_readers m = 0 \<Longrightarrow>
    rw_step upd m (Acquire t) (goto t (Locked w) m)"
| load: "m_pc m t = Locked w \<Longrightarrow> rw_step upd m (Load t) (goto t (Loaded w (m_state m)) m)"
| store: "m_pc m t = Loaded w s \<Longrightarrow>
    rw_step upd m (Store t) (goto t Stored (m\<lparr>m_state := upd w s, m_log := m_log m @ [w]\<rparr>))"
| unlock: "m_pc m t = Stored \<Longrightarrow>
    rw_step upd m (Unlock t) (goto t Outside (m\<lparr>m_writer := False\<rparr>))"
| rlock: "m_pc m t = Outside \<Longrightarrow> \<not> m_writer m \<Longrightarrow>
    rw_step upd m (RLock t) (goto t RLocked (m\<lparr>m_readers := Suc (m_readers m)\<rparr>))"
| rload: "m_pc m t = RLocked \<Longrightarrow> rw_step upd m (RLoad t) (goto t (RLoaded (m_state m)) m)"
| rload_again: "m_pc m t = RLoaded s \<Longrightarrow>
    rw_step upd m (RLoadAgain t) (goto t (RDone s (m_state m)) m)"
| runlock: "m_pc m t = RDone s s' \<Longrightarrow>
    rw_step upd m (RUnlock t) (goto t Outside (m\<lparr>m_readers := m_readers m - 1\<rparr>))"

inductive_cases rw_stepE: "rw_step upd m e m'"

inductive_simps rw_step_simps:
  "rw_step upd m (Lock t w) m'"
  "rw_step upd m (Acquire t) m'"
  "rw_step upd m (Load t) m'"
  "rw_step upd m (Store t) m'"
  "rw_step upd m (Unlock t) m'"
  "rw_step upd m (RLock t) m'"
  "rw_step upd m (RLoad t) m'"
  "rw_step upd m (RLoadAgain t) m'"
  "rw_step upd m (RUnlock t) m'"

definition unlocked :: "'s \<Rightarrow> ('s, 'w) machine" where
  "unlocked s0 = \<lparr>m_state = s0, m_writer = False, m_readers = 0, m_pc = (\<lambda>_. Outside), m_log = []\<rparr>"

inductive rw_reachable :: "('w \<Rightarrow> 's \<Rightarrow> 's) \<Rightarrow> 's \<Rightarrow> ('s, 'w) machine \<Rightarrow> bool"
  for upd :: "'w \<Rightarrow> 's \<Rightarrow> 's" and s0 :: 's where
  start: "rw_reachable upd s0 (unlocked s0)"
| step: "rw_reachable upd s0 m \<Longrightarrow> rw_step upd m e m' \<Longrightarrow> rw_reachable upd s0 m'"

section \<open>The invariant\<close>

fun writing :: "('s, 'w) pc \<Rightarrow> bool" where
  "writing (Locked w) = True"
| "writing (Loaded w s) = True"
| "writing Stored = True"
| "writing Outside = False"
| "writing (Waiting w) = False"
| "writing RLocked = False"
| "writing (RLoaded s) = False"
| "writing (RDone s s') = False"

fun reading :: "('s, 'w) pc \<Rightarrow> bool" where
  "reading RLocked = True"
| "reading (RLoaded s) = True"
| "reading (RDone s s') = True"
| "reading Outside = False"
| "reading (Waiting w) = False"
| "reading (Locked w) = False"
| "reading (Loaded w s) = False"
| "reading Stored = False"

text \<open>Holding the mutex among writers: waiting or writing.\<close>

definition holding :: "('s, 'w) pc \<Rightarrow> bool" where
  "holding c \<longleftrightarrow> writing c \<or> (\<exists>w. c = Waiting w)"

lemma holding_simps [simp]:
  "holding (Waiting w)" "holding (Locked w)" "holding (Loaded w s)" "holding Stored"
  "\<not> holding Outside" "\<not> holding RLocked" "\<not> holding (RLoaded s)" "\<not> holding (RDone s s')"
  by (simp_all add: holding_def)

text \<open>What a goroutine has loaded is the state.\<close>

fun fresh :: "'s \<Rightarrow> ('s, 'w) pc \<Rightarrow> bool" where
  "fresh st (Loaded w s) \<longleftrightarrow> s = st"
| "fresh st (RLoaded s) \<longleftrightarrow> s = st"
| "fresh st (RDone s s') \<longleftrightarrow> s = st \<and> s' = st"
| "fresh st Outside \<longleftrightarrow> True"
| "fresh st (Waiting w) \<longleftrightarrow> True"
| "fresh st (Locked w) \<longleftrightarrow> True"
| "fresh st Stored \<longleftrightarrow> True"
| "fresh st RLocked \<longleftrightarrow> True"

definition writers :: "('s, 'w) machine \<Rightarrow> nat set" where
  "writers m = {t. writing (m_pc m t)}"

definition holders :: "('s, 'w) machine \<Rightarrow> nat set" where
  "holders m = {t. holding (m_pc m t)}"

definition readers :: "('s, 'w) machine \<Rightarrow> nat set" where
  "readers m = {t. reading (m_pc m t)}"

definition rw_inv :: "('w \<Rightarrow> 's \<Rightarrow> 's) \<Rightarrow> 's \<Rightarrow> ('s, 'w) machine \<Rightarrow> bool" where
  "rw_inv upd s0 m \<longleftrightarrow>
     (m_writer m \<longleftrightarrow> holders m \<noteq> {}) \<and> (\<exists>t. holders m \<subseteq> {t}) \<and>
     finite (readers m) \<and> card (readers m) = m_readers m \<and>
     (writers m \<noteq> {} \<longrightarrow> readers m = {}) \<and>
     (\<forall>t. fresh (m_state m) (m_pc m t)) \<and>
     m_state m = foldl (\<lambda>s w. upd w s) s0 (m_log m)"

lemma rw_inv_facts:
  assumes "rw_inv upd s0 m"
  shows "fresh (m_state m) (m_pc m t)"
    and "m_state m = foldl (\<lambda>s w. upd w s) s0 (m_log m)"
    and "m_writer m \<longleftrightarrow> holders m \<noteq> {}"
    and "writers m \<noteq> {} \<Longrightarrow> readers m = {}"
    and "finite (readers m)" and "card (readers m) = m_readers m" and "\<exists>t. holders m \<subseteq> {t}"
  using assms by (auto simp: rw_inv_def)

lemma goto_simps [simp]:
  "m_state (goto t c m) = m_state m" "m_writer (goto t c m) = m_writer m"
  "m_readers (goto t c m) = m_readers m" "m_log (goto t c m) = m_log m"
  "m_pc (goto t c m) = (m_pc m)(t := c)"
  by (simp_all add: goto_def)

lemma writers_goto [simp]:
  "writers (goto t c m) = (if writing c then insert t (writers m) else writers m - {t})"
  by (auto simp: writers_def)

lemma holders_goto [simp]:
  "holders (goto t c m) = (if holding c then insert t (holders m) else holders m - {t})"
  by (auto simp: holders_def)

lemma readers_goto [simp]:
  "readers (goto t c m) = (if reading c then insert t (readers m) else readers m - {t})"
  by (auto simp: readers_def)

lemma writers_readers_update [simp]:
  "writers (m\<lparr>m_state := s\<rparr>) = writers m" "writers (m\<lparr>m_writer := b\<rparr>) = writers m"
  "writers (m\<lparr>m_readers := n\<rparr>) = writers m" "writers (m\<lparr>m_log := l\<rparr>) = writers m"
  "holders (m\<lparr>m_state := s\<rparr>) = holders m" "holders (m\<lparr>m_writer := b\<rparr>) = holders m"
  "holders (m\<lparr>m_readers := n\<rparr>) = holders m" "holders (m\<lparr>m_log := l\<rparr>) = holders m"
  "readers (m\<lparr>m_state := s\<rparr>) = readers m" "readers (m\<lparr>m_writer := b\<rparr>) = readers m"
  "readers (m\<lparr>m_readers := n\<rparr>) = readers m" "readers (m\<lparr>m_log := l\<rparr>) = readers m"
  by (simp_all add: writers_def readers_def holders_def)

lemma writers_holders: "writers m \<subseteq> holders m"
  by (auto simp: writers_def holders_def holding_def)

lemma rw_inv_unlocked: "rw_inv upd s0 (unlocked s0)"
  by (simp add: rw_inv_def unlocked_def writers_def readers_def holders_def)

text \<open>While a goroutine writes, no other one is inside, so nothing loaded can be made stale.\<close>

lemma rw_inv_alone:
  assumes "rw_inv upd s0 m" and "t \<in> writers m" and "t' \<noteq> t"
  shows "\<not> holding (m_pc m t')" and "\<not> reading (m_pc m t')"
proof -
  obtain t0 where "holders m \<subseteq> {t0}" using rw_inv_facts(7) [OF assms(1)] by blast
  then have "holders m \<subseteq> {t}" using assms(2) writers_holders [of m] by blast
  then show "\<not> holding (m_pc m t')" using assms(3) by (auto simp: holders_def)
  have "readers m = {}"
    using assms by (auto simp: rw_inv_def)
  then show "\<not> reading (m_pc m t')"
    by (auto simp: readers_def)
qed

lemma fresh_idle: "\<not> holding c \<Longrightarrow> \<not> reading c \<Longrightarrow> fresh st c"
  by (cases c) auto

text \<open>Where a goroutine stands, as membership in the sets of the invariant.\<close>

lemma placed:
  "m_pc m t = Outside \<Longrightarrow> t \<notin> writers m \<and> t \<notin> holders m \<and> t \<notin> readers m"
  "m_pc m t = Waiting w \<Longrightarrow> t \<notin> writers m \<and> t \<in> holders m \<and> t \<notin> readers m"
  "m_pc m t = Locked w \<Longrightarrow> t \<in> writers m \<and> t \<in> holders m \<and> t \<notin> readers m"
  "m_pc m t = Loaded w s \<Longrightarrow> t \<in> writers m \<and> t \<in> holders m \<and> t \<notin> readers m"
  "m_pc m t = Stored \<Longrightarrow> t \<in> writers m \<and> t \<in> holders m \<and> t \<notin> readers m"
  "m_pc m t = RLocked \<Longrightarrow> t \<notin> writers m \<and> t \<notin> holders m \<and> t \<in> readers m"
  "m_pc m t = RLoaded s \<Longrightarrow> t \<notin> writers m \<and> t \<notin> holders m \<and> t \<in> readers m"
  "m_pc m t = RDone s s' \<Longrightarrow> t \<notin> writers m \<and> t \<notin> holders m \<and> t \<in> readers m"
  by (simp_all add: writers_def holders_def readers_def)

lemma rw_inv_store:
  assumes "rw_inv upd s0 m" and "m_pc m t = Loaded w s"
  shows "rw_inv upd s0 (goto t Stored (m\<lparr>m_state := upd w s, m_log := m_log m @ [w]\<rparr>))"
proof -
  note t = placed(4) [OF assms(2)]
  then have r: "readers m = {}" using rw_inv_facts(4) [OF assms(1)] by auto
  have "s = m_state m" using rw_inv_facts(1) [OF assms(1), of t] assms(2) by simp
  moreover have "fresh (upd w s) (m_pc m t')" if "t' \<noteq> t" for t'
    using rw_inv_alone [OF assms(1) _ that] t by (intro fresh_idle) auto
  ultimately show ?thesis
    using assms(1) t r by (simp add: rw_inv_def insert_absorb)
qed

lemma rw_inv_step:
  assumes "rw_step upd m e m'" and "rw_inv upd s0 m"
  shows "rw_inv upd s0 m'"
  using assms
proof cases
  case (lock t w)
  then have "writers m = {}" using assms(2) writers_holders [of m] by (auto simp: rw_inv_def)
  then show ?thesis using lock placed(1) [OF lock(3)] assms(2) by (auto simp: rw_inv_def)
next
  case (acquire t w)
  then have "readers m = {}" using assms(2) by (auto simp: rw_inv_def)
  then show ?thesis using acquire placed(2) [OF acquire(3)] assms(2) by (auto simp: rw_inv_def insert_absorb)
next
  case (load t w)
  then show ?thesis using placed(3) [OF load(3)] assms(2) by (auto simp: rw_inv_def insert_absorb)
next
  case (store t w s)
  then show ?thesis using rw_inv_store [OF assms(2)] by simp
next
  case (unlock t)
  then have "holders m = {t}" using placed(5) [OF unlock(3)] assms(2) by (auto simp: rw_inv_def)
  then show ?thesis using unlock placed(5) [OF unlock(3)] assms(2) writers_holders [of m]
    by (auto simp: rw_inv_def)
next
  case (rlock t)
  then have "writers m = {}" using assms(2) writers_holders [of m] by (auto simp: rw_inv_def)
  then show ?thesis using rlock placed(1) [OF rlock(3)] assms(2) by (auto simp: rw_inv_def)
next
  case (rload t)
  then show ?thesis using placed(6) [OF rload(3)] assms(2) by (auto simp: rw_inv_def insert_absorb)
next
  case (rload_again t s)
  moreover have "s = m_state m" using rload_again rw_inv_facts(1) [OF assms(2), of t] by simp
  ultimately show ?thesis using placed(7) [OF rload_again(3)] assms(2) by (auto simp: rw_inv_def insert_absorb)
next
  case (runlock t s s')
  then show ?thesis using placed(8) [OF runlock(3)] assms(2) by (auto simp: rw_inv_def card_Diff_singleton)
qed

lemma rw_inv_reachable: "rw_reachable upd s0 m \<Longrightarrow> rw_inv upd s0 m"
  by (induction rule: rw_reachable.induct) (auto intro: rw_inv_unlocked rw_inv_step)

section \<open>What the lock gives\<close>

text \<open>Mutual exclusion, no lost update, and consistent reads.\<close>

lemma rw_exclusive:
  assumes "rw_reachable upd s0 m" and "writing (m_pc m t)" and "t' \<noteq> t"
  shows "\<not> holding (m_pc m t') \<and> \<not> reading (m_pc m t')"
  using rw_inv_alone [OF rw_inv_reachable [OF assms(1)] _ assms(3)] assms(2) by (simp add: writers_def)

lemma rw_serial:
  "rw_reachable upd s0 m \<Longrightarrow> m_state m = foldl (\<lambda>s w. upd w s) s0 (m_log m)"
  by (rule rw_inv_facts(2) [OF rw_inv_reachable])

lemma rw_read_one_state:
  assumes "rw_reachable upd s0 m" and "m_pc m t = RDone s s'"
  shows "s = s' \<and> s = foldl (\<lambda>s w. upd w s) s0 (m_log m)"
  using rw_inv_facts(1) [OF rw_inv_reachable [OF assms(1)], of t] rw_serial [OF assms(1)] assms(2) by simp

text \<open>One write alone, and a read, as runs of steps.\<close>

lemma reachable_write:
  assumes "rw_reachable upd s0 m" and "\<not> m_writer m" and "m_readers m = 0" and "m_pc m = (\<lambda>_. Outside)"
  shows "rw_reachable upd s0 (m\<lparr>m_state := upd w (m_state m), m_log := m_log m @ [w]\<rparr>)"
proof -
  let ?m0 = "goto 0 (Waiting w) (m\<lparr>m_writer := True\<rparr>)"
  let ?m1 = "goto 0 (Locked w) ?m0"
  let ?m2 = "goto 0 (Loaded w (m_state ?m1)) ?m1"
  let ?m3 = "goto 0 Stored (?m2\<lparr>m_state := upd w (m_state m), m_log := m_log ?m2 @ [w]\<rparr>)"
  let ?m4 = "goto 0 Outside (?m3\<lparr>m_writer := False\<rparr>)"
  have 0: "rw_reachable upd s0 ?m0"
    by (rule rw_reachable.step [OF assms(1), where e = "Lock 0 w"]) (simp add: rw_step_simps assms)
  have 1: "rw_reachable upd s0 ?m1"
    by (rule rw_reachable.step [OF 0, where e = "Acquire 0"]) (simp add: rw_step_simps assms)
  have 2: "rw_reachable upd s0 ?m2"
    by (rule rw_reachable.step [OF 1, where e = "Load 0"]) (simp add: rw_step_simps)
  have 3: "rw_reachable upd s0 ?m3"
    by (rule rw_reachable.step [OF 2, where e = "Store 0"]) (simp add: rw_step_simps)
  have 4: "rw_reachable upd s0 ?m4"
    by (rule rw_reachable.step [OF 3, where e = "Unlock 0"]) (simp add: rw_step_simps)
  have "?m4 = m\<lparr>m_state := upd w (m_state m), m_log := m_log m @ [w]\<rparr>"
    using assms(2,4) by (cases m) (auto simp: goto_def)
  with 4 show ?thesis by simp
qed

lemma reachable_read:
  assumes "rw_reachable upd s0 m" and "\<not> m_writer m" and "m_pc m t = Outside"
  shows "\<exists>m'. rw_reachable upd s0 m' \<and> m_pc m' t = RDone (m_state m) (m_state m) \<and> m_log m' = m_log m"
proof -
  let ?m1 = "goto t RLocked (m\<lparr>m_readers := Suc (m_readers m)\<rparr>)"
  let ?m2 = "goto t (RLoaded (m_state m)) ?m1"
  let ?m3 = "goto t (RDone (m_state m) (m_state m)) ?m2"
  have 1: "rw_reachable upd s0 ?m1"
    by (rule rw_reachable.step [OF assms(1), where e = "RLock t"]) (simp add: rw_step_simps assms)
  have 2: "rw_reachable upd s0 ?m2"
    by (rule rw_reachable.step [OF 1, where e = "RLoad t"]) (simp add: rw_step_simps)
  have "rw_reachable upd s0 ?m3"
    by (rule rw_reachable.step [OF 2, where e = "RLoadAgain t"]) (simp add: rw_step_simps)
  then show ?thesis by (rule exI [of _ ?m3, OF conjI]) simp
qed

text \<open>
  A state behind the lock with an invariant that the writes keep: the client may rely on it in every
  read.
\<close>

locale guarded_state =
  fixes upd :: "'w \<Rightarrow> 's \<Rightarrow> 's" and good :: "'s \<Rightarrow> bool"
  assumes upd_good: "good s \<Longrightarrow> good (upd w s)"
begin

lemma writes_good: "good s \<Longrightarrow> good (foldl (\<lambda>s w. upd w s) s ws)"
  by (induction ws arbitrary: s) (auto intro: upd_good)

lemma reader_sees_good:
  assumes "good s0" and "rw_reachable upd s0 m" and "m_pc m t = RDone s s'"
  shows "good s \<and> s = s'"
  using rw_read_one_state [OF assms(2,3)] writes_good [OF assms(1), of "m_log m"] by metis

lemma state_good: "good s0 \<Longrightarrow> rw_reachable upd s0 m \<Longrightarrow> good (m_state m)"
  by (simp add: rw_serial writes_good)

end

end
