(* ===== verification/Rw_Liveness.thy ===== *)
theory Rw_Liveness
  imports Rw_Mutex
begin

text \<open>
  Progress of the reader/writer lock: goroutines that are inside can always go on until all are out,
  after a number of steps that is known beforehand, and a writer that waits gets the lock after no more
  than that many steps, since no goroutine enters while it waits.
\<close>

section \<open>The work left\<close>

fun entering :: "'w event \<Rightarrow> bool" where
  "entering (Lock t w) = True"
| "entering (RLock t) = True"
| "entering (Acquire t) = False"
| "entering (Load t) = False"
| "entering (Store t) = False"
| "entering (Unlock t) = False"
| "entering (RLoad t) = False"
| "entering (RLoadAgain t) = False"
| "entering (RUnlock t) = False"

fun steps_left :: "('s, 'w) pc \<Rightarrow> nat" where
  "steps_left Outside = 0"
| "steps_left (Waiting w) = 4"
| "steps_left (Locked w) = 3"
| "steps_left (Loaded w s) = 2"
| "steps_left Stored = 1"
| "steps_left RLocked = 3"
| "steps_left (RLoaded s) = 2"
| "steps_left (RDone s s') = 1"

definition inside :: "('s, 'w) machine \<Rightarrow> nat set" where
  "inside m = {t. m_pc m t \<noteq> Outside}"

definition work :: "('s, 'w) machine \<Rightarrow> nat" where
  "work m = (\<Sum>t \<in> inside m. steps_left (m_pc m t))"

lemma steps_left_bounds: "steps_left c = 0 \<longleftrightarrow> c = Outside" "steps_left c \<le> 4"
  by (cases c; simp)+

lemma inside_holders_readers: "inside m = holders m \<union> readers m"
proof -
  have "c \<noteq> Outside \<longleftrightarrow> holding c \<or> reading c" for c :: "('s, 'w) pc" by (cases c) auto
  then show ?thesis by (auto simp: inside_def holders_def readers_def)
qed

lemma finite_inside: "rw_inv upd s0 m \<Longrightarrow> finite (inside m)"
  using rw_inv_facts(5,7) [of upd s0 m] by (auto simp: inside_holders_readers intro: finite_subset)

lemma work_bound: "rw_inv upd s0 m \<Longrightarrow> work m \<le> 4 * card (inside m)"
  unfolding work_def using sum_bounded_above [of "inside m" "\<lambda>t. steps_left (m_pc m t)" 4, OF steps_left_bounds(2)]
  by simp

lemma work_zero: "finite (inside m) \<Longrightarrow> work m = 0 \<longleftrightarrow> inside m = {}"
  by (auto simp: work_def inside_def steps_left_bounds(1))

lemma work_goto:
  assumes "finite (inside m)" and "m_pc m' = (m_pc m)(t := c)"
    and "steps_left (m_pc m t) = Suc (steps_left c)"
  shows "work m = Suc (work m')"
proof -
  have t: "t \<in> inside m" using assms(3) steps_left_bounds(1) [of "m_pc m t"] by (auto simp: inside_def)
  let ?f = "\<lambda>t. steps_left (m_pc m t)" and ?g = "\<lambda>t. steps_left (m_pc m' t)"
  have "work m' = (\<Sum>u \<in> inside m. ?g u)"
    unfolding work_def using assms(1,2) t
    by (intro sum.mono_neutral_left) (auto simp: inside_def split: if_splits)
  also have "\<dots> = ?g t + (\<Sum>u \<in> inside m - {t}. ?g u)" using assms(1) t by (rule sum.remove)
  also have "(\<Sum>u \<in> inside m - {t}. ?g u) = (\<Sum>u \<in> inside m - {t}. ?f u)"
    using assms(2) by (intro sum.cong) auto
  finally have "Suc (work m') = ?f t + (\<Sum>u \<in> inside m - {t}. ?f u)"
    using assms(2,3) by simp
  also have "\<dots> = work m" unfolding work_def by (rule sum.remove [OF assms(1) t, symmetric])
  finally show ?thesis by simp
qed

lemma leaving_moves:
  assumes "rw_step upd m e m'" and "\<not> entering e"
  shows "\<exists>t c. m_pc m' = (m_pc m)(t := c) \<and> steps_left (m_pc m t) = Suc (steps_left c)"
  using assms(1)
proof cases
  case (acquire t w)
  then show ?thesis by (intro exI [of _ t] exI [of _ "Locked w"]) simp
next
  case (load t w)
  then show ?thesis by (intro exI [of _ t] exI [of _ "Loaded w (m_state m)"]) simp
next
  case (store t w s)
  then show ?thesis by (intro exI [of _ t] exI [of _ Stored]) simp
next
  case (unlock t)
  then show ?thesis by (intro exI [of _ t] exI [of _ Outside]) simp
next
  case (rload t)
  then show ?thesis by (intro exI [of _ t] exI [of _ "RLoaded (m_state m)"]) simp
next
  case (rload_again t s)
  then show ?thesis by (intro exI [of _ t] exI [of _ "RDone s (m_state m)"]) simp
next
  case (runlock t s s')
  then show ?thesis by (intro exI [of _ t] exI [of _ Outside]) simp
qed (use assms(2) in simp_all)

lemma leaving_step:
  assumes "rw_step upd m e m'" and "\<not> entering e" and "rw_inv upd s0 m"
  shows "work m = Suc (work m')"
  using leaving_moves [OF assms(1,2)] work_goto [OF finite_inside [OF assms(3)]] by blast

section \<open>Progress\<close>

text \<open>While a goroutine is inside, one of those inside has a step.\<close>

lemma reader_steps:
  assumes "reading (m_pc m t)"
  shows "\<exists>e m'. rw_step upd m e m' \<and> \<not> entering e"
proof (cases "m_pc m t")
  case RLocked
  from rload [OF this] show ?thesis by (intro exI conjI) auto
next
  case (RLoaded s)
  from rload_again [OF this] show ?thesis by (intro exI conjI) auto
next
  case (RDone s s')
  from runlock [OF this] show ?thesis by (intro exI conjI) auto
qed (use assms in simp_all)

lemma holder_steps:
  assumes "holding (m_pc m t)" and "m_readers m = 0"
  shows "\<exists>e m'. rw_step upd m e m' \<and> \<not> entering e"
proof (cases "m_pc m t")
  case (Waiting w)
  from acquire [OF this assms(2)] show ?thesis by (intro exI conjI) auto
next
  case (Locked w)
  from load [OF this] show ?thesis by (intro exI conjI) auto
next
  case (Loaded w s)
  from store [OF this] show ?thesis by (intro exI conjI) auto
next
  case Stored
  from unlock [OF this] show ?thesis by (intro exI conjI) auto
qed (use assms(1) in simp_all)

lemma leaving_step_exists:
  assumes "rw_inv upd s0 m" and "inside m \<noteq> {}"
  shows "\<exists>e m'. rw_step upd m e m' \<and> \<not> entering e"
proof (cases "readers m = {}")
  case True
  then obtain t where "holding (m_pc m t)" using assms(2) by (auto simp: inside_holders_readers holders_def)
  moreover have "m_readers m = 0" using rw_inv_facts(6) [OF assms(1)] True by simp
  ultimately show ?thesis by (rule holder_steps)
next
  case False
  then obtain t where "reading (m_pc m t)" by (auto simp: readers_def)
  then show ?thesis by (rule reader_steps)
qed

inductive rw_run :: "('w \<Rightarrow> 's \<Rightarrow> 's) \<Rightarrow> ('s, 'w) machine \<Rightarrow> 'w event list \<Rightarrow> ('s, 'w) machine \<Rightarrow> bool"
  for upd :: "'w \<Rightarrow> 's \<Rightarrow> 's" where
  done_run: "rw_run upd m [] m"
| next_run: "rw_step upd m e m' \<Longrightarrow> rw_run upd m' es m'' \<Longrightarrow> rw_run upd m (e # es) m''"

inductive_cases rw_run_ConsE: "rw_run upd m (e # es) m'"

lemma run_inv: "rw_run upd m es m' \<Longrightarrow> rw_inv upd s0 m \<Longrightarrow> rw_inv upd s0 m'"
  by (induction rule: rw_run.induct) (auto intro: rw_inv_step)

text \<open>A run in which no goroutine enters does one step of the work with each event.\<close>

lemma leaving_run_work:
  "rw_run upd m es m' \<Longrightarrow> \<forall>e \<in> set es. \<not> entering e \<Longrightarrow> rw_inv upd s0 m \<Longrightarrow>
   rw_inv upd s0 m' \<and> work m = length es + work m'"
proof (induction rule: rw_run.induct)
  case (next_run m e m1 es m')
  then have "rw_inv upd s0 m1" and "work m = Suc (work m1)"
    using rw_inv_step leaving_step by fastforce+
  then show ?case using next_run by simp
qed simp

lemma leaving_run_exists:
  "rw_inv upd s0 m \<Longrightarrow> \<exists>es m'. rw_run upd m es m' \<and> (\<forall>e \<in> set es. \<not> entering e) \<and> inside m' = {}"
proof (induction "work m" arbitrary: m)
  case 0
  then have "inside m = {}" using work_zero finite_inside by metis
  then show ?case by (intro exI [of _ "[]"] exI [of _ m]) (simp add: done_run)
next
  case (Suc n)
  then have "inside m \<noteq> {}" using work_zero [OF finite_inside [OF Suc.prems]] by auto
  from leaving_step_exists [OF Suc.prems this] obtain e m1
    where step: "rw_step upd m e m1" "\<not> entering e" by blast
  then have "n = work m1" using leaving_step [OF step Suc.prems] Suc.hyps(2) by simp
  from Suc.hyps(1) [OF this rw_inv_step [OF step(1) Suc.prems]] obtain es m'
    where "rw_run upd m1 es m'" "\<forall>e \<in> set es. \<not> entering e" "inside m' = {}" by blast
  then show ?case using step by (intro exI [of _ "e # es"] exI [of _ m']) (simp add: next_run)
qed

text \<open>Nobody enters while a writer waits.\<close>

lemma waiting_keeps_out:
  assumes "rw_step upd m e m'" and "m_pc m t = Waiting w" and "rw_inv upd s0 m" and "e \<noteq> Acquire t"
  shows "\<not> entering e \<and> m_pc m' t = Waiting w"
proof -
  have "m_writer m" using rw_inv_facts(3) [OF assms(3)] placed(2) [OF assms(2)] by auto
  with assms(1) show ?thesis by cases (use assms(2,4) in auto)
qed

lemma waiting_run:
  "rw_run upd m es m' \<Longrightarrow> m_pc m t = Waiting w \<Longrightarrow> rw_inv upd s0 m \<Longrightarrow> Acquire t \<notin> set es \<Longrightarrow>
   \<forall>e \<in> set es. \<not> entering e"
proof (induction rule: rw_run.induct)
  case (next_run m e m1 es m')
  then have "\<not> entering e" "m_pc m1 t = Waiting w" using waiting_keeps_out [of upd m e m1 t w s0] by auto
  then show ?case using next_run rw_inv_step [OF next_run.hyps(1)] by simp
qed simp

text \<open>All of it: a bound, an end, and the turn of a waiting writer.\<close>

lemma rw_progress:
  assumes "rw_reachable upd s0 m"
  shows "\<exists>es m'. rw_run upd m es m' \<and> (\<forall>e \<in> set es. \<not> entering e) \<and> inside m' = {}"
    and "rw_run upd m es m' \<Longrightarrow> \<forall>e \<in> set es. \<not> entering e \<Longrightarrow> length es \<le> 4 * card (inside m)"
    and "rw_run upd m es m' \<Longrightarrow> inside m' \<noteq> {} \<Longrightarrow> \<exists>e m''. rw_step upd m' e m'' \<and> \<not> entering e"
    and "m_pc m t = Waiting w \<Longrightarrow> rw_run upd m es m' \<Longrightarrow> Acquire t \<notin> set es \<Longrightarrow>
      length es \<le> 4 * card (inside m)"
proof -
  note inv = rw_inv_reachable [OF assms]
  show "\<exists>es m'. rw_run upd m es m' \<and> (\<forall>e \<in> set es. \<not> entering e) \<and> inside m' = {}"
    using inv by (rule leaving_run_exists)
  show bound: "length es \<le> 4 * card (inside m)" if "rw_run upd m es m'" "\<forall>e \<in> set es. \<not> entering e" for es m'
    using leaving_run_work [OF that inv] work_bound [OF inv] by simp
  show "length es \<le> 4 * card (inside m)"
    if "m_pc m t = Waiting w" "rw_run upd m es m'" "Acquire t \<notin> set es" for t w es m'
    using bound that waiting_run [OF that(2,1) inv that(3)] by blast
  show "\<exists>e m''. rw_step upd m' e m'' \<and> \<not> entering e" if "rw_run upd m es m'" "inside m' \<noteq> {}" for es m'
    using leaving_step_exists [OF run_inv [OF that(1) inv] that(2)] .
qed

end
