(* ===== verification/Dynamic_Mapper.thy ===== *)
theory Dynamic_Mapper
  imports Provider_Api Rw_Liveness
begin

text \<open>
  \<open>pkg/dynamicmapper/mapper.go\<close>: the REST mapper that can be regenerated from discovery. The two
  functions of client-go it calls are parameters: \<open>get_resources\<close> is
  \<open>restmapper.GetAPIGroupResources\<close> on a state of the cluster's discovery information (type \<open>'d\<close>), and
  \<open>new_mapper\<close> is \<open>restmapper.NewDiscoveryRESTMapper\<close>.

  First the methods one after the other, then a step relation for regenerations and lookups that
  overlap: a regeneration fetches outside the lock, while the cluster may change.
\<close>

section \<open>The methods\<close>

record regenerating_mapper =
  rdm_refreshInterval :: int
  rdm_delegate :: "rest_mapper option"

definition RegenerateMappings ::
  "('d \<Rightarrow> 'r result) \<Rightarrow> ('r \<Rightarrow> rest_mapper) \<Rightarrow> 'd \<Rightarrow> regenerating_mapper \<Rightarrow>
   regenerating_mapper \<times> unit result" where
  "RegenerateMappings get_resources new_mapper d m =
     (case get_resources d of
        Abort e \<Rightarrow> (m, Abort e)
      | Err err \<Rightarrow> (m, Err err)
      | Ok resources \<Rightarrow> (m\<lparr>rdm_delegate := Some (new_mapper resources)\<rparr>, Ok ()))"

definition NewRESTMapper ::
  "('d \<Rightarrow> 'r result) \<Rightarrow> ('r \<Rightarrow> rest_mapper) \<Rightarrow> 'd \<Rightarrow> int \<Rightarrow> regenerating_mapper result" where
  "NewRESTMapper get_resources new_mapper d refreshInterval =
     (case RegenerateMappings get_resources new_mapper d
             \<lparr>rdm_refreshInterval = refreshInterval, rdm_delegate = None\<rparr> of
        (mapper, Abort e) \<Rightarrow> Abort e
      | (mapper, Err err) \<Rightarrow>
          Err (Errorf ''unable to populate initial set of REST mappings: %v'' [] [err])
      | (mapper, Ok _) \<Rightarrow> Ok mapper)"

text \<open>
  \<open>RunUntil\<close>: \<open>wait.Until\<close> regenerates at once and then after every interval until the channel is
  closed; \<open>ds\<close> is what discovery would answer at each of these times, and the second result what is
  logged. A panic ends the process.
\<close>

fun RunUntil ::
  "('d \<Rightarrow> 'r result) \<Rightarrow> ('r \<Rightarrow> rest_mapper) \<Rightarrow> 'd list \<Rightarrow> regenerating_mapper \<Rightarrow>
   (regenerating_mapper \<times> go_error list) result" where
  "RunUntil get_resources new_mapper [] m = Ok (m, [])"
| "RunUntil get_resources new_mapper (d # ds) m =
     (case RegenerateMappings get_resources new_mapper d m of
        (m', Abort e) \<Rightarrow> Abort e
      | (m', Err err) \<Rightarrow>
          bind_result (RunUntil get_resources new_mapper ds m')
            (\<lambda>(m'', logged). Ok (m'', Errorf ''error regenerating REST mappings from discovery: %v'' [] [err] # logged))
      | (m', Ok _) \<Rightarrow> RunUntil get_resources new_mapper ds m')"

definition delegate :: "regenerating_mapper \<Rightarrow> rest_mapper" where
  "delegate m = (case rdm_delegate m of None \<Rightarrow> nil_rest_mapper | Some d \<Rightarrow> d)"

definition mapper_KindFor ::
  "regenerating_mapper \<Rightarrow> group_version_resource \<Rightarrow> group_version_kind result" where
  "mapper_KindFor m res = rm_KindFor (delegate m) res"

definition mapper_KindsFor ::
  "regenerating_mapper \<Rightarrow> group_version_resource \<Rightarrow> group_version_kind list result" where
  "mapper_KindsFor m res = rm_KindsFor (delegate m) res"

definition mapper_ResourceFor ::
  "regenerating_mapper \<Rightarrow> group_version_resource \<Rightarrow> group_version_resource result" where
  "mapper_ResourceFor m input = rm_ResourceFor (delegate m) input"

definition mapper_ResourcesFor ::
  "regenerating_mapper \<Rightarrow> group_version_resource \<Rightarrow> group_version_resource list result" where
  "mapper_ResourcesFor m input = rm_ResourcesFor (delegate m) input"

definition mapper_RESTMapping ::
  "regenerating_mapper \<Rightarrow> string \<times> string \<Rightarrow> string list \<Rightarrow> rest_mapping result" where
  "mapper_RESTMapping m gk versions = rm_RESTMapping (delegate m) gk versions"

definition mapper_RESTMappings ::
  "regenerating_mapper \<Rightarrow> string \<times> string \<Rightarrow> string list \<Rightarrow> rest_mapping list result" where
  "mapper_RESTMappings m gk versions = rm_RESTMappings (delegate m) gk versions"

definition mapper_ResourceSingularizer :: "regenerating_mapper \<Rightarrow> string \<Rightarrow> string result" where
  "mapper_ResourceSingularizer m res = rm_ResourceSingularizer (delegate m) res"

text \<open>The mapper as a \<open>meta.RESTMapper\<close>.\<close>

definition as_rest_mapper :: "regenerating_mapper \<Rightarrow> rest_mapper" where
  "as_rest_mapper m =
     \<lparr>rm_KindFor = mapper_KindFor m, rm_KindsFor = mapper_KindsFor m,
      rm_ResourceFor = mapper_ResourceFor m, rm_ResourcesFor = mapper_ResourcesFor m,
      rm_RESTMapping = mapper_RESTMapping m, rm_RESTMappings = mapper_RESTMappings m,
      rm_ResourceSingularizer = mapper_ResourceSingularizer m\<rparr>"

lemmas mapper_methods =
  mapper_KindFor_def [abs_def] mapper_KindsFor_def [abs_def] mapper_ResourceFor_def [abs_def]
  mapper_ResourcesFor_def [abs_def] mapper_RESTMapping_def [abs_def] mapper_RESTMappings_def [abs_def]
  mapper_ResourceSingularizer_def [abs_def]

lemma as_rest_mapper_delegate: "as_rest_mapper m = delegate m"
  by (simp add: as_rest_mapper_def mapper_methods)

lemma RegenerateMappings_interval [simp]:
  "rdm_refreshInterval (fst (RegenerateMappings get new d m)) = rdm_refreshInterval m"
  by (auto simp: RegenerateMappings_def split: result.splits)

text \<open>
  A new mapper is ready or is not there. \<open>NewRESTMapper\<close> answers lookups exactly as a mapper made
  from the resources discovery has at that time, with the interval asked for; when discovery fails,
  so does it, with the reason in its message. There is no mapper whose delegate is nil.
\<close>

lemma NewRESTMapper_ready:
  "(\<forall>resources. get d = Ok resources \<longrightarrow>
      (\<exists>m. NewRESTMapper get new d i = Ok m \<and> as_rest_mapper m = new resources \<and>
           rdm_refreshInterval m = i)) \<and>
   (\<forall>err. get d = Err err \<longrightarrow>
      (\<exists>err'. NewRESTMapper get new d i = Err err' \<and>
         error_text err' = ''unable to populate initial set of REST mappings: '' @ error_text err)) \<and>
   (\<forall>m. NewRESTMapper get new d i = Ok m \<longrightarrow> rdm_delegate m \<noteq> None)"
  by (auto simp: NewRESTMapper_def RegenerateMappings_def as_rest_mapper_delegate delegate_def
      split: result.splits)

lemma NewRESTMapper_ready_example:
  "\<exists>err'. NewRESTMapper (\<lambda>d :: nat. Err (OtherError ''refused'') :: nat result)
       (\<lambda>r. nil_rest_mapper) 0 5 = Err err' \<and>
     error_text err' = ''unable to populate initial set of REST mappings: refused''"
  using NewRESTMapper_ready [of "\<lambda>d :: nat. Err (OtherError ''refused'') :: nat result" 0
      "\<lambda>r. nil_rest_mapper" 5]
  by simp

section \<open>Refreshing\<close>

text \<open>The resources of the last fetch that worked.\<close>

fun last_fetched :: "('d \<Rightarrow> 'r result) \<Rightarrow> 'd list \<Rightarrow> 'r option" where
  "last_fetched get [] = None"
| "last_fetched get (d # ds) =
     (case last_fetched get ds of
        Some r \<Rightarrow> Some r
      | None \<Rightarrow> (case get d of Ok r \<Rightarrow> Some r | _ \<Rightarrow> None))"

definition failed_fetches :: "('d \<Rightarrow> 'r result) \<Rightarrow> 'd list \<Rightarrow> 'd list" where
  "failed_fetches get ds = filter (\<lambda>d. \<not> is_ok (get d)) ds"

lemma RunUntil_result:
  assumes "\<forall>d \<in> set ds. \<not> aborts (get d)"
  shows "\<exists>m' logged. RunUntil get new ds m = Ok (m', logged) \<and>
    rdm_refreshInterval m' = rdm_refreshInterval m \<and>
    rdm_delegate m' = (case last_fetched get ds of None \<Rightarrow> rdm_delegate m | Some r \<Rightarrow> Some (new r)) \<and>
    length logged = length (failed_fetches get ds)"
  using assms
proof (induction ds arbitrary: m)
  case Nil
  then show ?case by (simp add: failed_fetches_def)
next
  case (Cons d ds)
  let ?m = "fst (RegenerateMappings get new d m)"
  obtain m' logged where rest: "RunUntil get new ds ?m = Ok (m', logged)"
    "rdm_refreshInterval m' = rdm_refreshInterval m"
    "rdm_delegate m' = (case last_fetched get ds of None \<Rightarrow> rdm_delegate ?m | Some r \<Rightarrow> Some (new r))"
    "length logged = length (failed_fetches get ds)"
    using Cons.IH [of ?m] Cons.prems by auto
  show ?case
    using rest Cons.prems
    by (cases "get d") (auto simp: RegenerateMappings_def failed_fetches_def split: option.splits)
qed

text \<open>
  C17: Refreshing never loses the mappings. However many refreshes fail, the mapper keeps answering
  from the last fetch that worked, or from what it had before; each failed refresh is logged and no
  other is.
\<close>

theorem RunUntil_keeps_last:
  assumes "\<forall>d \<in> set ds. \<not> aborts (get d)"
    and "RunUntil get new ds m = Ok (m', logged)"
  shows "as_rest_mapper m' =
      (case last_fetched get ds of None \<Rightarrow> as_rest_mapper m | Some r \<Rightarrow> new r) \<and>
    length logged = length (failed_fetches get ds)"
  using RunUntil_result [OF assms(1), of new m] assms(2)
  by (auto simp: as_rest_mapper_delegate delegate_def split: option.splits)

definition flaky :: "nat \<Rightarrow> string result" where
  "flaky d = (if d mod 2 = 0 then Ok (if d = 2 then ''two'' else ''other'') else Err (OtherError ''refused''))"

definition singular_mapper :: "string \<Rightarrow> rest_mapper" where
  "singular_mapper r = nil_rest_mapper\<lparr>rm_ResourceSingularizer := (\<lambda>_. Ok r)\<rparr>"

theorem RunUntil_keeps_last_witness:
  "\<exists>m' logged. RunUntil flaky singular_mapper [1, 2, 3, 5]
      \<lparr>rdm_refreshInterval = 5, rdm_delegate = Some (singular_mapper ''old'')\<rparr> = Ok (m', logged) \<and>
    rm_ResourceSingularizer (as_rest_mapper m') ''pods'' = Ok ''two'' \<and> length logged = 3"
proof -
  let ?m = "\<lparr>rdm_refreshInterval = 5, rdm_delegate = Some (singular_mapper ''old'')\<rparr>"
  have ok: "\<forall>d \<in> set [1, 2, 3, 5]. \<not> aborts (flaky d)" by (simp add: flaky_def)
  obtain m' logged where run: "RunUntil flaky singular_mapper [1, 2, 3, 5] ?m = Ok (m', logged)"
    using RunUntil_result [OF ok] by blast
  have "as_rest_mapper m' = singular_mapper ''two'' \<and> length logged = 3"
    using RunUntil_keeps_last [OF ok run] by (simp add: flaky_def failed_fetches_def)
  with run show ?thesis by (simp add: singular_mapper_def)
qed

section \<open>Overlapping regenerations and lookups\<close>

text \<open>
  The delegate behind the mutex: the write of a regeneration installs the mapper it made. \<open>ms_pending t\<close>
  is what goroutine \<open>t\<close> has fetched and not yet begun to install, \<open>ms_discovery\<close> what discovery would
  answer now; \<open>ms_past\<close> (not in the program) is all it would ever have answered.
\<close>

definition install :: "rest_mapper \<Rightarrow> rest_mapper option \<Rightarrow> rest_mapper option" where
  "install d s = Some d"

interpretation gmap: guarded_state install "\<lambda>s. s \<noteq> None"
  by unfold_locales (simp add: install_def)

record 'd mapper_system =
  ms_machine :: "(rest_mapper option, rest_mapper) machine"
  ms_pending :: "nat \<Rightarrow> rest_mapper option"
  ms_discovery :: 'd
  ms_past :: "'d set"

fun is_lock :: "'w event \<Rightarrow> bool" where
  "is_lock (Lock t w) = True"
| "is_lock (Load t) = False"
| "is_lock (Store t) = False"
| "is_lock (Unlock t) = False"
| "is_lock (Acquire t) = False"
| "is_lock (RLock t) = False"
| "is_lock (RLoad t) = False"
| "is_lock (RLoadAgain t) = False"
| "is_lock (RUnlock t) = False"

text \<open>A fetch that fails ends the regeneration without a trace.\<close>

inductive mapper_step ::
  "('d \<Rightarrow> 'r result) \<Rightarrow> ('r \<Rightarrow> rest_mapper) \<Rightarrow> 'd mapper_system \<Rightarrow> 'd mapper_system \<Rightarrow> bool"
  for get :: "'d \<Rightarrow> 'r result" and new :: "'r \<Rightarrow> rest_mapper" where
  fetched: "get (ms_discovery s) = Ok r \<Longrightarrow> ms_pending s t = None \<Longrightarrow>
    m_pc (ms_machine s) t = Outside \<Longrightarrow>
    mapper_step get new s (s\<lparr>ms_pending := (ms_pending s)(t := Some (new r))\<rparr>)"
| fetch_failed: "get (ms_discovery s) = Err e \<Longrightarrow> mapper_step get new s s"
| discovery: "mapper_step get new s (s\<lparr>ms_discovery := d, ms_past := insert d (ms_past s)\<rparr>)"
| begin_install: "ms_pending s t = Some d \<Longrightarrow> rw_step install (ms_machine s) (Lock t d) m \<Longrightarrow>
    mapper_step get new s (s\<lparr>ms_machine := m, ms_pending := (ms_pending s)(t := None)\<rparr>)"
| locked: "\<not> is_lock e \<Longrightarrow> rw_step install (ms_machine s) e m \<Longrightarrow>
    mapper_step get new s (s\<lparr>ms_machine := m\<rparr>)"

text \<open>The system after \<open>NewRESTMapper\<close> has returned.\<close>

definition mapper_start :: "('r \<Rightarrow> rest_mapper) \<Rightarrow> 'r \<Rightarrow> 'd \<Rightarrow> 'd mapper_system" where
  "mapper_start new r0 d0 =
     \<lparr>ms_machine = unlocked (Some (new r0)), ms_pending = (\<lambda>_. None), ms_discovery = d0, ms_past = {d0}\<rparr>"

inductive mapper_reachable ::
  "('d \<Rightarrow> 'r result) \<Rightarrow> ('r \<Rightarrow> rest_mapper) \<Rightarrow> 'r \<Rightarrow> 'd \<Rightarrow> 'd mapper_system \<Rightarrow> bool"
  for get :: "'d \<Rightarrow> 'r result" and new :: "'r \<Rightarrow> rest_mapper" and r0 :: 'r and d0 :: 'd where
  mapper_init: "mapper_reachable get new r0 d0 (mapper_start new r0 d0)"
| mapper_next: "mapper_reachable get new r0 d0 s \<Longrightarrow> mapper_step get new s s' \<Longrightarrow>
    mapper_reachable get new r0 d0 s'"

lemma mapper_machine_reachable:
  "mapper_reachable get new r0 d0 s \<Longrightarrow> rw_reachable install (Some (new r0)) (ms_machine s)"
proof (induction rule: mapper_reachable.induct)
  case mapper_init
  then show ?case by (simp add: mapper_start_def rw_reachable.start)
next
  case (mapper_next s s')
  from mapper_next.hyps(2) mapper_next.IH show ?case
    by cases (auto intro: rw_reachable.step)
qed

text \<open>A mapper made from what discovery answered at some time.\<close>

definition snapshots :: "('d \<Rightarrow> 'r result) \<Rightarrow> ('r \<Rightarrow> rest_mapper) \<Rightarrow> 'd set \<Rightarrow> rest_mapper set" where
  "snapshots get new ds = {new r | r d. d \<in> ds \<and> get d = Ok r}"

fun pc_writes :: "('s, 'w) pc \<Rightarrow> 'w set" where
  "pc_writes (Locked w) = {w}"
| "pc_writes (Waiting w) = {w}"
| "pc_writes (Loaded w s) = {w}"
| "pc_writes Outside = {}"
| "pc_writes Stored = {}"
| "pc_writes RLocked = {}"
| "pc_writes (RLoaded s) = {}"
| "pc_writes (RDone s s') = {}"

definition mapper_inv ::
  "('d \<Rightarrow> 'r result) \<Rightarrow> ('r \<Rightarrow> rest_mapper) \<Rightarrow> 'd mapper_system \<Rightarrow> bool" where
  "mapper_inv get new s \<longleftrightarrow>
     ms_discovery s \<in> ms_past s \<and>
     (\<forall>t d. ms_pending s t = Some d \<longrightarrow> d \<in> snapshots get new (ms_past s)) \<and>
     (\<forall>t. pc_writes (m_pc (ms_machine s) t) \<subseteq> snapshots get new (ms_past s)) \<and>
     set (m_log (ms_machine s)) \<subseteq> snapshots get new (ms_past s)"

lemma snapshots_insert: "snapshots get new ds \<subseteq> snapshots get new (insert d ds)"
  by (auto simp: snapshots_def)

lemma snapshots_now: "get d = Ok r \<Longrightarrow> d \<in> ds \<Longrightarrow> new r \<in> snapshots get new ds"
  by (auto simp: snapshots_def)

text \<open>A step inside the lock adds no write to the goroutines and the log together.\<close>

lemma rw_step_writes:
  assumes "rw_step install m e m'" and "\<not> is_lock e"
    and "\<forall>t. pc_writes (m_pc m t) \<subseteq> S" and "set (m_log m) \<subseteq> S"
  shows "(\<forall>t. pc_writes (m_pc m' t) \<subseteq> S) \<and> set (m_log m') \<subseteq> S"
proof -
  have at: "m_pc m t = c \<Longrightarrow> pc_writes c \<subseteq> S" for t c using assms(3) by auto
  show ?thesis
    using assms(1)
    by cases (use assms(2-4) in \<open>auto dest: at split: if_splits\<close>)
qed

lemma mapper_inv_step:
  assumes "mapper_step get new s s'" and "mapper_inv get new s"
  shows "mapper_inv get new s'"
  using assms
proof cases
  case (fetched r t)
  then show ?thesis using assms(2) by (auto simp: mapper_inv_def intro: snapshots_now)
next
  case (discovery d)
  then show ?thesis
    using assms(2) snapshots_insert [of get new "ms_past s" d]
    by (simp add: mapper_inv_def) (meson subset_iff)
next
  case (begin_install t d m)
  then have "m = goto t (Waiting d) ((ms_machine s)\<lparr>m_writer := True\<rparr>)"
    by (simp add: rw_step_simps)
  then show ?thesis using begin_install assms(2) by (auto simp: mapper_inv_def)
next
  case (locked e m)
  then show ?thesis
    using assms(2) rw_step_writes [of "ms_machine s" e m "snapshots get new (ms_past s)"]
    by (simp add: mapper_inv_def)
qed simp

lemma mapper_inv_start: "mapper_inv get new (mapper_start new r0 d0)"
  by (simp add: mapper_start_def unlocked_def mapper_inv_def)

lemma mapper_inv_reachable: "mapper_reachable get new r0 d0 s \<Longrightarrow> mapper_inv get new s"
  by (induction rule: mapper_reachable.induct) (auto intro: mapper_inv_start mapper_inv_step)

lemma installed_last: "foldl (\<lambda>s w. install w s) s ws = (if ws = [] then s else Some (last ws))"
  by (induction ws rule: rev_induct) (auto simp: install_def)

text \<open>
  C15: A lookup is never answered by half a refresh. In every interleaving of regenerations, lookups
  and changes of the cluster, a lookup sees one mapper for its whole body, which is not nil: the one
  the server started with, or one made from what discovery answered at some time.
\<close>

theorem lookup_sees_snapshot:
  assumes "mapper_reachable get new r0 d0 s"
    and "m_pc (ms_machine s) t = RDone d d'"
  shows "d = d' \<and> (\<exists>m. d = Some m \<and> (m = new r0 \<or> m \<in> snapshots get new (ms_past s)))"
proof -
  note reach = mapper_machine_reachable [OF assms(1)]
  have "d \<noteq> None" and same: "d = d'"
    using gmap.reader_sees_good [OF _ reach assms(2)] by auto
  then obtain m where m: "d = Some m" by auto
  have "d = foldl (\<lambda>s w. install w s) (Some (new r0)) (m_log (ms_machine s))"
    using rw_read_one_state [OF reach assms(2)] by blast
  then have "m = new r0 \<or> m \<in> set (m_log (ms_machine s))"
    by (simp add: installed_last m split: if_splits)
  then show ?thesis
    using mapper_inv_reachable [OF assms(1)] same m by (auto simp: mapper_inv_def)
qed

text \<open>Whole regenerations and lookups as runs of steps, while no other goroutine holds the lock.\<close>

definition idle :: "'d mapper_system \<Rightarrow> bool" where
  "idle s \<longleftrightarrow> \<not> m_writer (ms_machine s) \<and> m_readers (ms_machine s) = 0 \<and>
     (\<forall>t. m_pc (ms_machine s) t = Outside)"

lemma reachable_fetch:
  assumes "mapper_reachable get new r0 d0 s" and "idle s" and "ms_pending s t = None"
    and "get (ms_discovery s) = Ok r"
  shows "mapper_reachable get new r0 d0 (s\<lparr>ms_pending := (ms_pending s)(t := Some (new r))\<rparr>)"
proof (rule mapper_next [OF assms(1)])
  show "mapper_step get new s (s\<lparr>ms_pending := (ms_pending s)(t := Some (new r))\<rparr>)"
    using assms(2-4) by (intro mapper_step.fetched) (simp_all add: idle_def)
qed

lemma reachable_discovery:
  "mapper_reachable get new r0 d0 s \<Longrightarrow>
   mapper_reachable get new r0 d0 (s\<lparr>ms_discovery := d, ms_past := insert d (ms_past s)\<rparr>)"
  by (erule mapper_next) (rule mapper_step.discovery)

lemma reachable_locked:
  "mapper_reachable get new r0 d0 s \<Longrightarrow> rw_step install (ms_machine s) e m \<Longrightarrow> \<not> is_lock e \<Longrightarrow>
   mapper_reachable get new r0 d0 (s\<lparr>ms_machine := m\<rparr>)"
  by (blast intro: mapper_next mapper_step.locked)

lemma reachable_run:
  "rtranclp (mapper_step get new) s s' \<Longrightarrow> mapper_reachable get new r0 d0 s \<Longrightarrow> mapper_reachable get new r0 d0 s'"
  by (induction rule: rtranclp_induct) (auto intro: mapper_next)

lemma run_locked:
  "rtranclp (mapper_step get new) s s' \<Longrightarrow> rw_step install (ms_machine s') e m \<Longrightarrow> \<not> is_lock e \<Longrightarrow>
   rtranclp (mapper_step get new) s (s'\<lparr>ms_machine := m\<rparr>)"
  by (blast intro: rtranclp.rtrancl_into_rtrancl mapper_step.locked)

lemma run_install:
  assumes "idle s" and "ms_pending s t = Some d"
  shows "rtranclp (mapper_step get new) s (s\<lparr>ms_pending := (ms_pending s)(t := None),
    ms_machine := (ms_machine s)\<lparr>m_state := Some d, m_log := m_log (ms_machine s) @ [d]\<rparr>\<rparr>)"
proof -
  let ?m = "ms_machine s"
  let ?mw = "goto t (Waiting d) (?m\<lparr>m_writer := True\<rparr>)"
  let ?m1 = "goto t (Locked d) ?mw"
  let ?m2 = "goto t (Loaded d (m_state ?m1)) ?m1"
  let ?m3 = "goto t Stored (?m2\<lparr>m_state := Some d, m_log := m_log ?m2 @ [d]\<rparr>)"
  let ?m4 = "goto t Outside (?m3\<lparr>m_writer := False\<rparr>)"
  let ?sw = "s\<lparr>ms_machine := ?mw, ms_pending := (ms_pending s)(t := None)\<rparr>"
  let ?s1 = "?sw\<lparr>ms_machine := ?m1\<rparr>"
  have 0: "rtranclp (mapper_step get new) s ?sw"
  proof (rule r_into_rtranclp)
    have "rw_step install ?m (Lock t d) ?mw"
      using assms(1) by (simp add: idle_def rw_step_simps)
    then show "mapper_step get new s ?sw" by (rule mapper_step.begin_install [OF assms(2)])
  qed
  have 1: "rtranclp (mapper_step get new) s ?s1"
  proof (rule run_locked [OF 0, where e = "Acquire t"])
    show "rw_step install (ms_machine ?sw) (Acquire t) ?m1"
      using assms(1) by (simp add: rw_step_simps idle_def)
  qed simp
  have 2: "rtranclp (mapper_step get new) s (?s1\<lparr>ms_machine := ?m2\<rparr>)"
    by (rule run_locked [OF 1, where e = "Load t"]) (simp_all add: rw_step_simps)
  have 3: "rtranclp (mapper_step get new) s (?s1\<lparr>ms_machine := ?m2\<rparr>\<lparr>ms_machine := ?m3\<rparr>)"
    by (rule run_locked [OF 2, where e = "Store t"]) (simp_all add: rw_step_simps install_def)
  have 4: "rtranclp (mapper_step get new) s (?s1\<lparr>ms_machine := ?m2\<rparr>\<lparr>ms_machine := ?m3\<rparr>\<lparr>ms_machine := ?m4\<rparr>)"
    by (rule run_locked [OF 3, where e = "Unlock t"]) (simp_all add: rw_step_simps)
  have "m_pc ?m = (\<lambda>_. Outside)" and "\<not> m_writer ?m"
    using assms(1) by (auto simp: idle_def)
  then have "?m4 = ?m\<lparr>m_state := Some d, m_log := m_log ?m @ [d]\<rparr>"
    by (cases ?m) (auto simp: goto_def)
  with 4 show ?thesis by simp
qed

lemma reachable_install:
  assumes "mapper_reachable get new r0 d0 s" and "idle s" and "ms_pending s t = Some d"
  shows "mapper_reachable get new r0 d0 (s\<lparr>ms_pending := (ms_pending s)(t := None),
    ms_machine := (ms_machine s)\<lparr>m_state := Some d, m_log := m_log (ms_machine s) @ [d]\<rparr>\<rparr>)"
  using run_install [OF assms(2,3)] assms(1) by (rule reachable_run)

text \<open>
  C39: A regeneration can put the mapper back. Because the fetch is outside the lock, two overlapping
  regenerations may install in the other order than they fetched: from the moment discovery changes
  from \<open>d1\<close> to \<open>d2\<close>, there is a run after which both have returned without an error, the mapper made from
  \<open>d2\<close> was installed, and the mapper in use is the one made from \<open>d1\<close>.
\<close>

theorem regeneration_can_go_back:
  assumes "get d1 = Ok r1" and "get d2 = Ok r2"
  shows "\<exists>s. mapper_reachable get new r0 d1 s \<and> ms_discovery s = d2 \<and> idle s \<and>
    (\<forall>t. ms_pending s t = None) \<and> m_log (ms_machine s) = [new r2, new r1] \<and>
    m_state (ms_machine s) = Some (new r1)"
proof -
  let ?s0 = "mapper_start new r0 d1"
  let ?s1 = "?s0\<lparr>ms_pending := (ms_pending ?s0)(0 := Some (new r1))\<rparr>"
  let ?s2 = "?s1\<lparr>ms_discovery := d2, ms_past := insert d2 (ms_past ?s1)\<rparr>"
  let ?s3 = "?s2\<lparr>ms_pending := (ms_pending ?s2)(1 := Some (new r2))\<rparr>"
  let ?s4 = "?s3\<lparr>ms_pending := (ms_pending ?s3)(1 := None),
    ms_machine := (ms_machine ?s3)\<lparr>m_state := Some (new r2), m_log := m_log (ms_machine ?s3) @ [new r2]\<rparr>\<rparr>"
  let ?s5 = "?s4\<lparr>ms_pending := (ms_pending ?s4)(0 := None),
    ms_machine := (ms_machine ?s4)\<lparr>m_state := Some (new r1), m_log := m_log (ms_machine ?s4) @ [new r1]\<rparr>\<rparr>"
  note start = mapper_start_def unlocked_def idle_def
  have 1: "mapper_reachable get new r0 d1 ?s1"
    by (rule reachable_fetch [OF mapper_init]) (simp_all add: start assms)
  have 2: "mapper_reachable get new r0 d1 ?s2" by (rule reachable_discovery [OF 1])
  have 3: "mapper_reachable get new r0 d1 ?s3"
    by (rule reachable_fetch [OF 2]) (simp_all add: start assms)
  have 4: "mapper_reachable get new r0 d1 ?s4"
    by (rule reachable_install [OF 3]) (simp_all add: start)
  have "mapper_reachable get new r0 d1 ?s5"
    by (rule reachable_install [OF 4]) (simp_all add: start)
  then show ?thesis
    by (rule exI [of _ ?s5, OF conjI]) (simp add: start)
qed

theorem regeneration_can_go_back_witness:
  "\<exists>s. mapper_reachable flaky singular_mapper ''old'' 2 s \<and> ms_discovery s = 4 \<and>
    m_state (ms_machine s) = Some (singular_mapper ''two'')"
proof -
  have "flaky 2 = Ok ''two''" "flaky 4 = Ok ''other''" by (simp_all add: flaky_def)
  with regeneration_can_go_back [where get = flaky and new = singular_mapper and ?d1.0 = 2 and ?d2.0 = 4
      and ?r0.0 = "''old''"]
  show ?thesis by blast
qed

lemma reachable_lookup:
  assumes "mapper_reachable get new r0 d0 s" and "idle s"
  shows "mapper_reachable get new r0 d0 (s\<lparr>ms_machine :=
    goto t (RDone (m_state (ms_machine s)) (m_state (ms_machine s))) ((ms_machine s)\<lparr>m_readers := 1\<rparr>)\<rparr>)"
proof -
  let ?m = "ms_machine s"
  let ?m1 = "goto t RLocked (?m\<lparr>m_readers := 1\<rparr>)"
  let ?m2 = "goto t (RLoaded (m_state ?m)) ?m1"
  let ?m3 = "goto t (RDone (m_state ?m) (m_state ?m)) ?m2"
  have 1: "mapper_reachable get new r0 d0 (s\<lparr>ms_machine := ?m1\<rparr>)"
    by (rule reachable_locked [OF assms(1), where e = "RLock t"])
      (use assms(2) in \<open>simp_all add: rw_step_simps idle_def\<close>)
  have 2: "mapper_reachable get new r0 d0 (s\<lparr>ms_machine := ?m1\<rparr>\<lparr>ms_machine := ?m2\<rparr>)"
    by (rule reachable_locked [OF 1, where e = "RLoad t"]) (simp_all add: rw_step_simps)
  have 3: "mapper_reachable get new r0 d0 (s\<lparr>ms_machine := ?m1\<rparr>\<lparr>ms_machine := ?m2\<rparr>\<lparr>ms_machine := ?m3\<rparr>)"
    by (rule reachable_locked [OF 2, where e = "RLoadAgain t"]) (simp_all add: rw_step_simps)
  then show ?thesis by (simp add: goto_def)
qed

theorem lookup_sees_snapshot_witness:
  "\<exists>s m. mapper_reachable flaky singular_mapper ''old'' 1 s \<and>
     m_pc (ms_machine s) 7 = RDone (Some m) (Some m) \<and>
     (m = singular_mapper ''old'' \<or> m \<in> snapshots flaky singular_mapper (ms_past s))"
proof -
  let ?s0 = "mapper_start singular_mapper ''old'' (1 :: nat)"
  have "idle ?s0" by (simp add: idle_def mapper_start_def unlocked_def)
  then have r: "mapper_reachable flaky singular_mapper ''old'' 1 (?s0\<lparr>ms_machine :=
      goto 7 (RDone (m_state (ms_machine ?s0)) (m_state (ms_machine ?s0)))
        ((ms_machine ?s0)\<lparr>m_readers := 1\<rparr>)\<rparr>)" (is "mapper_reachable _ _ _ _ ?s")
    by (rule reachable_lookup [OF mapper_init])
  have pc: "m_pc (ms_machine ?s) 7
      = RDone (Some (singular_mapper ''old'')) (Some (singular_mapper ''old''))"
    by (simp add: mapper_start_def unlocked_def)
  show ?thesis using r pc lookup_sees_snapshot [OF r pc] by blast
qed

section \<open>Progress\<close>

lemma idle_out:
  assumes "mapper_reachable get new r0 d0 s" and "inside (ms_machine s) = {}"
  shows "idle s"
proof -
  note inv = rw_inv_reachable [OF mapper_machine_reachable [OF assms(1)]]
  have "holders (ms_machine s) = {}" "readers (ms_machine s) = {}"
    using assms(2) by (simp_all add: inside_holders_readers)
  then show ?thesis
    using assms(2) rw_inv_facts(3,6) [OF inv] by (auto simp: idle_def inside_def)
qed

lemma run_leaving:
  "rw_run install m es m' \<Longrightarrow> \<forall>e \<in> set es. \<not> entering e \<Longrightarrow>
   rtranclp (mapper_step get new) (s\<lparr>ms_machine := m\<rparr>) (s\<lparr>ms_machine := m'\<rparr>)"
proof (induction rule: rw_run.induct)
  case (next_run m e m1 es m')
  have "\<not> is_lock e" using next_run.prems by (cases e) auto
  then have "mapper_step get new (s\<lparr>ms_machine := m\<rparr>) (s\<lparr>ms_machine := m\<rparr>\<lparr>ms_machine := m1\<rparr>)"
    using next_run.hyps(1) by (intro mapper_step.locked) auto
  with next_run show ?case by simp
qed simp

lemma run_out:
  assumes "mapper_reachable get new r0 d0 s"
  shows "\<exists>s'. rtranclp (mapper_step get new) s s' \<and> idle s' \<and> ms_pending s' = ms_pending s \<and>
    ms_discovery s' = ms_discovery s"
proof -
  from rw_progress(1) [OF mapper_machine_reachable [OF assms]] obtain es m'
    where run: "rw_run install (ms_machine s) es m'" "\<forall>e \<in> set es. \<not> entering e" and out: "inside m' = {}" by blast
  let ?s' = "s\<lparr>ms_machine := m'\<rparr>"
  have steps: "rtranclp (mapper_step get new) s ?s'" using run_leaving [OF run, of get new s] by simp
  moreover have "idle ?s'" using reachable_run [OF steps assms] out by (intro idle_out) simp_all
  ultimately show ?thesis by (intro exI [of _ ?s']) simp
qed

lemma finite_pending: "mapper_reachable get new r0 d0 s \<Longrightarrow> finite (dom (ms_pending s))"
proof (induction rule: mapper_reachable.induct)
  case mapper_init
  then show ?case by (simp add: mapper_start_def dom_def)
next
  case (mapper_next s s')
  from mapper_next.hyps(2) mapper_next.IH show ?case by cases (auto simp del: fun_upd_apply)
qed

lemma run_installs:
  assumes "finite (dom (ms_pending s))" and "idle s"
  shows "\<exists>s'. rtranclp (mapper_step get new) s s' \<and> idle s' \<and> ms_pending s' = (\<lambda>_. None) \<and>
    ms_discovery s' = ms_discovery s \<and>
    set (m_log (ms_machine s')) = set (m_log (ms_machine s)) \<union> ran (ms_pending s)"
  using assms
proof (induction "dom (ms_pending s)" arbitrary: s rule: finite_psubset_induct)
  case psubset
  show ?case
  proof (cases "ms_pending s = (\<lambda>_. None)")
    case True
    then show ?thesis using psubset.prems by (intro exI [of _ s]) simp
  next
    case False
    then obtain t d where t: "ms_pending s t = Some d" by fastforce
    let ?s1 = "s\<lparr>ms_pending := (ms_pending s)(t := None),
      ms_machine := (ms_machine s)\<lparr>m_state := Some d, m_log := m_log (ms_machine s) @ [d]\<rparr>\<rparr>"
    have step: "rtranclp (mapper_step get new) s ?s1" using psubset.prems t by (rule run_install)
    have "dom (ms_pending ?s1) \<subset> dom (ms_pending s)" using t by auto
    moreover have "idle ?s1" using psubset.prems by (simp add: idle_def)
    ultimately obtain s' where s': "rtranclp (mapper_step get new) ?s1 s'" "idle s'" "ms_pending s' = (\<lambda>_. None)"
      "ms_discovery s' = ms_discovery ?s1"
      "set (m_log (ms_machine s')) = set (m_log (ms_machine ?s1)) \<union> ran (ms_pending ?s1)"
      using psubset.hyps(2) [of ?s1] by blast
    have "insert d (ran ((ms_pending s)(t := None))) = ran (ms_pending s)"
      using t by (auto simp: ran_def split: if_splits) (metis option.inject)
    then show ?thesis using s' step by (intro exI [of _ s']) (auto intro: rtranclp_trans)
  qed
qed

text \<open>
  C14: No lookup and no regeneration is ever stuck. Whatever has happened, there is a way on in which
  every goroutine leaves the lock and every mapper that has been fetched gets installed, with no new
  call and no change of the cluster. While no goroutine enters, those inside the lock leave it in at
  most four steps each; and while a regeneration waits for the lock nobody enters, so it gets the lock
  after at most as many steps.
\<close>

theorem regenerations_finish:
  assumes "mapper_reachable get new r0 d0 s"
  shows "(\<exists>s'. rtranclp (mapper_step get new) s s' \<and> idle s' \<and> (\<forall>t. ms_pending s' t = None) \<and>
      ms_discovery s' = ms_discovery s \<and>
      (\<forall>t d. ms_pending s t = Some d \<longrightarrow> d \<in> set (m_log (ms_machine s')))) \<and>
    (\<forall>es m. rw_run install (ms_machine s) es m \<and> (\<forall>e \<in> set es. \<not> entering e) \<longrightarrow>
      length es \<le> 4 * card (inside (ms_machine s))) \<and>
    (\<forall>t d es m. m_pc (ms_machine s) t = Waiting d \<and> rw_run install (ms_machine s) es m \<and> Acquire t \<notin> set es \<longrightarrow>
      length es \<le> 4 * card (inside (ms_machine s)))"
proof -
  obtain s1 where s1: "rtranclp (mapper_step get new) s s1" "idle s1" "ms_pending s1 = ms_pending s"
    "ms_discovery s1 = ms_discovery s"
    using run_out [OF assms] by blast
  have "finite (dom (ms_pending s1))" using finite_pending [OF assms] s1(3) by simp
  from run_installs [OF this s1(2)] obtain s' where s': "rtranclp (mapper_step get new) s1 s'" "idle s'"
    "ms_pending s' = (\<lambda>_. None)" "ms_discovery s' = ms_discovery s1"
    "set (m_log (ms_machine s')) = set (m_log (ms_machine s1)) \<union> ran (ms_pending s1)"
    by blast
  have "rtranclp (mapper_step get new) s s'" using s1(1) s'(1) by (rule rtranclp_trans)
  moreover have "\<forall>t d. ms_pending s t = Some d \<longrightarrow> d \<in> set (m_log (ms_machine s'))"
    using s'(5) s1(3) by (auto intro: ranI)
  ultimately show ?thesis
    using s'(2-4) s1(4) rw_progress(2,4) [OF mapper_machine_reachable [OF assms]] by (intro conjI exI [of _ s']) auto
qed

theorem regenerations_finish_witness:
  "\<exists>s s'. mapper_reachable flaky singular_mapper ''old'' 1 s \<and>
     m_pc (ms_machine s) 7 \<noteq> Outside \<and> rtranclp (mapper_step flaky singular_mapper) s s' \<and> idle s'"
proof -
  let ?s0 = "mapper_start singular_mapper ''old'' (1 :: nat)"
  have "idle ?s0" by (simp add: idle_def mapper_start_def unlocked_def)
  then have r: "mapper_reachable flaky singular_mapper ''old'' 1 (?s0\<lparr>ms_machine :=
      goto 7 (RDone (m_state (ms_machine ?s0)) (m_state (ms_machine ?s0)))
        ((ms_machine ?s0)\<lparr>m_readers := 1\<rparr>)\<rparr>)" (is "mapper_reachable _ _ _ _ ?s")
    by (rule reachable_lookup [OF mapper_init])
  have "m_pc (ms_machine ?s) 7 \<noteq> Outside" by simp
  with r regenerations_finish [OF r] show ?thesis by blast
qed

end
