(* ===== verification/Adapter_Base.thy ===== *)
theory Adapter_Base
  imports Server_Options Dynamic_Mapper Testing_Provider
begin

text \<open>
  \<open>pkg/cmd/builder.go\<close> and \<open>test-adapter/main.go\<close>: the base of an adapter, which makes each of its
  objects on the first call and keeps it. The constructors of client-go and of the generic API server are
  the parameter \<open>adapter_env\<close>; another call may find another environment. The type variables are client
  configurations (\<open>'cfg\<close>), discovery clients (\<open>'dc\<close>), their resources (\<open>'r\<close>), kube clients (\<open>'k\<close>),
  informer factories (\<open>'i\<close>), vendored server options (\<open>'o\<close>), the parts of a server configuration
  (\<open>'gc\<close>) and a completed configuration (\<open>'d\<close>).
\<close>

section \<open>Environment and state\<close>

text \<open>A flag set: the names defined in it. Defining one twice panics.\<close>

type_synonym flag_set = "string list"

record ('cfg, 'dc, 'r, 'k, 'i, 'o, 'gc, 'd) adapter_env =
  env_CommandLine :: flag_set
  env_options :: "('o, 'gc) options_env"
  env_LoadConfig :: "string \<Rightarrow> 'cfg result"
  env_InClusterConfig :: "'cfg result"
  env_NewDiscoveryClientForConfig :: "'cfg \<Rightarrow> 'dc result"
  env_GetAPIGroupResources :: "'dc \<Rightarrow> 'r result"
  env_NewDiscoveryRESTMapper :: "'r \<Rightarrow> rest_mapper"
  env_NewDynamicForConfig :: "'cfg \<Rightarrow> dynamic_client result"
  env_NewKubeForConfig :: "'cfg \<Rightarrow> 'k result"
  env_NewSharedInformerFactory :: "'k \<Rightarrow> int \<Rightarrow> 'i"
  env_Complete :: "'i option \<Rightarrow> 'gc server_config \<Rightarrow> 'd"
  env_GenericNew :: "'d \<Rightarrow> string \<Rightarrow> generic_api_server result"
  env_Scheme :: runtime_scheme
  env_PrepareRun_Run :: "adapter_server \<Rightarrow> unit result"

record ('cfg, 'dc, 'i, 'o, 'gc) adapter_base =
  ab_Options :: "'o server_options option"
  ab_Name :: string
  ab_RemoteKubeConfigFile :: string
  ab_DiscoveryInterval :: int
  ab_FlagSet :: "flag_set option"
  ab_flagOnce :: bool
  ab_clientConfig :: "'cfg option"
  ab_discoveryClient :: "'dc option"
  ab_restMapper :: "regenerating_mapper option"
  ab_dynamicClient :: "dynamic_client option"
  ab_informers :: "'i option"
  ab_config :: "'gc server_config option"
  ab_server :: "adapter_server option"
  ab_cmProvider :: "custom_metrics_provider option"
  ab_emProvider :: "external_metrics_provider option"

section \<open>Flags\<close>

fun define_flags :: "string list \<Rightarrow> flag_set \<Rightarrow> flag_set \<times> unit result" where
  "define_flags [] fs = (fs, Ok ())"
| "define_flags (n # ns) fs =
     (if n \<in> set fs then (fs, Abort ''flag redefined'') else define_flags ns (fs @ [n]))"

definition initFlagSet ::
  "('cfg, 'dc, 'r, 'k, 'i, 'o, 'gc, 'd) adapter_env \<Rightarrow> ('cfg, 'dc, 'i, 'o, 'gc) adapter_base \<Rightarrow>
   ('cfg, 'dc, 'i, 'o, 'gc) adapter_base" where
  "initFlagSet env b = (if ab_FlagSet b = None then b\<lparr>ab_FlagSet := Some (env_CommandLine env)\<rparr> else b)"

text \<open>\<open>flagOnce.Do\<close> runs its function once, and counts it as run even when it panics.\<close>

definition option_flags :: "('o, 'gc) options_env \<Rightarrow> 'o server_options \<Rightarrow> string list" where
  "option_flags env opts =
     oe_SecureServing_flags env (so_SecureServing opts) @
     oe_Authentication_flags env (so_Authentication opts) @
     oe_Authorization_flags env (so_Authorization opts) @
     FeatureOptions_flags (so_Features opts)"

definition InstallFlags ::
  "('cfg, 'dc, 'r, 'k, 'i, 'o, 'gc, 'd) adapter_env \<Rightarrow> ('cfg, 'dc, 'i, 'o, 'gc) adapter_base \<Rightarrow>
   ('cfg, 'dc, 'i, 'o, 'gc) adapter_base \<times> unit result" where
  "InstallFlags env b0 =
     (let b = initFlagSet env b0
      in if ab_flagOnce b then (b, Ok ())
         else
           let opts = (case ab_Options b of
                 None \<Rightarrow> NewCustomMetricsAdapterServerOptions (env_options env)
               | Some opts \<Rightarrow> opts);
               b1 = b\<lparr>ab_flagOnce := True, ab_Options := Some opts\<rparr>
           in (case ab_FlagSet b1 of
                 None \<Rightarrow> (b1, Abort ''nil pointer dereference'')
               | Some fs \<Rightarrow>
                   (case define_flags (option_flags (env_options env) opts @
                          [''lister-kubeconfig'', ''discovery-interval'']) fs of
                      (fs', r) \<Rightarrow> (b1\<lparr>ab_FlagSet := Some fs'\<rparr>, r))))"

definition Flags ::
  "('cfg, 'dc, 'r, 'k, 'i, 'o, 'gc, 'd) adapter_env \<Rightarrow> ('cfg, 'dc, 'i, 'o, 'gc) adapter_base \<Rightarrow>
   ('cfg, 'dc, 'i, 'o, 'gc) adapter_base \<times> flag_set option result" where
  "Flags env b =
     (case InstallFlags env (initFlagSet env b) of
        (b', Abort e) \<Rightarrow> (b', Abort e)
      | (b', Err err) \<Rightarrow> (b', Err err)
      | (b', Ok _) \<Rightarrow> (b', Ok (ab_FlagSet b')))"

section \<open>Clients\<close>

text \<open>
  What all the getters share: return the object that is there, or make one and keep it; on an error the
  field stays nil.
\<close>

definition memo ::
  "('s \<Rightarrow> 'x option) \<Rightarrow> ('x \<Rightarrow> 's \<Rightarrow> 's) \<Rightarrow> ('s \<Rightarrow> 's \<times> 'x result) \<Rightarrow> 's \<Rightarrow> 's \<times> 'x result" where
  "memo field keep create s =
     (case field s of
        Some x \<Rightarrow> (s, Ok x)
      | None \<Rightarrow>
          (case create s of
             (s', Abort e) \<Rightarrow> (s', Abort e)
           | (s', Err err) \<Rightarrow> (s', Err err)
           | (s', Ok x) \<Rightarrow> (keep x s', Ok x)))"

text \<open>A call whose error is returned as the format says, and one whose error is returned as it is.\<close>

definition wrap_error :: "string \<Rightarrow> 'x result \<Rightarrow> 'x result" where
  "wrap_error f r = (case r of Err err \<Rightarrow> Err (Errorf f [] [err]) | Ok x \<Rightarrow> Ok x | Abort e \<Rightarrow> Abort e)"

definition using_result :: "'s \<times> 'x result \<Rightarrow> ('x \<Rightarrow> 'y result) \<Rightarrow> 's \<times> 'y result" where
  "using_result sr f = (fst sr, bind_result (snd sr) f)"

definition ClientConfig ::
  "('cfg, 'dc, 'r, 'k, 'i, 'o, 'gc, 'd) adapter_env \<Rightarrow> ('cfg, 'dc, 'i, 'o, 'gc) adapter_base \<Rightarrow>
   ('cfg, 'dc, 'i, 'o, 'gc) adapter_base \<times> 'cfg result" where
  "ClientConfig env =
     memo ab_clientConfig (\<lambda>x b. b\<lparr>ab_clientConfig := Some x\<rparr>)
       (\<lambda>b. (b, wrap_error ''unable to construct lister client config to initialize provider: %v''
                  (if length (ab_RemoteKubeConfigFile b) > 0
                   then env_LoadConfig env (ab_RemoteKubeConfigFile b) else env_InClusterConfig env)))"

definition DiscoveryClient ::
  "('cfg, 'dc, 'r, 'k, 'i, 'o, 'gc, 'd) adapter_env \<Rightarrow> ('cfg, 'dc, 'i, 'o, 'gc) adapter_base \<Rightarrow>
   ('cfg, 'dc, 'i, 'o, 'gc) adapter_base \<times> 'dc result" where
  "DiscoveryClient env =
     memo ab_discoveryClient (\<lambda>x b. b\<lparr>ab_discoveryClient := Some x\<rparr>)
       (\<lambda>b. using_result (ClientConfig env b) (\<lambda>clientConfig.
          wrap_error ''unable to construct discovery client for dynamic client: %v''
            (env_NewDiscoveryClientForConfig env clientConfig)))"

definition RESTMapper ::
  "('cfg, 'dc, 'r, 'k, 'i, 'o, 'gc, 'd) adapter_env \<Rightarrow> ('cfg, 'dc, 'i, 'o, 'gc) adapter_base \<Rightarrow>
   ('cfg, 'dc, 'i, 'o, 'gc) adapter_base \<times> regenerating_mapper result" where
  "RESTMapper env =
     memo ab_restMapper (\<lambda>x b. b\<lparr>ab_restMapper := Some x\<rparr>)
       (\<lambda>b. using_result (DiscoveryClient env b) (\<lambda>discoveryClient.
          wrap_error ''unable to construct dynamic discovery mapper: %v''
            (NewRESTMapper (env_GetAPIGroupResources env) (env_NewDiscoveryRESTMapper env)
               discoveryClient (ab_DiscoveryInterval b))))"

definition DynamicClient ::
  "('cfg, 'dc, 'r, 'k, 'i, 'o, 'gc, 'd) adapter_env \<Rightarrow> ('cfg, 'dc, 'i, 'o, 'gc) adapter_base \<Rightarrow>
   ('cfg, 'dc, 'i, 'o, 'gc) adapter_base \<times> dynamic_client result" where
  "DynamicClient env =
     memo ab_dynamicClient (\<lambda>x b. b\<lparr>ab_dynamicClient := Some x\<rparr>)
       (\<lambda>b. using_result (ClientConfig env b) (\<lambda>clientConfig.
          wrap_error ''unable to construct lister client to initialize provider: %v''
            (env_NewDynamicForConfig env clientConfig)))"

definition Informers ::
  "('cfg, 'dc, 'r, 'k, 'i, 'o, 'gc, 'd) adapter_env \<Rightarrow> ('cfg, 'dc, 'i, 'o, 'gc) adapter_base \<Rightarrow>
   ('cfg, 'dc, 'i, 'o, 'gc) adapter_base \<times> 'i result" where
  "Informers env =
     memo ab_informers (\<lambda>x b. b\<lparr>ab_informers := Some x\<rparr>)
       (\<lambda>b. using_result (ClientConfig env b) (\<lambda>clientConfig.
          bind_result (env_NewKubeForConfig env clientConfig)
            (\<lambda>kubeClient. Ok (env_NewSharedInformerFactory env kubeClient 0))))"

definition WithCustomMetrics ::
  "custom_metrics_provider \<Rightarrow> ('cfg, 'dc, 'i, 'o, 'gc) adapter_base \<Rightarrow> ('cfg, 'dc, 'i, 'o, 'gc) adapter_base" where
  "WithCustomMetrics p b = b\<lparr>ab_cmProvider := Some p\<rparr>"

definition WithExternalMetrics ::
  "external_metrics_provider \<Rightarrow> ('cfg, 'dc, 'i, 'o, 'gc) adapter_base \<Rightarrow> ('cfg, 'dc, 'i, 'o, 'gc) adapter_base" where
  "WithExternalMetrics p b = b\<lparr>ab_emProvider := Some p\<rparr>"

section \<open>Configuration and server\<close>

definition base_Config ::
  "('cfg, 'dc, 'r, 'k, 'i, 'o, 'gc, 'd) adapter_env \<Rightarrow> ('cfg, 'dc, 'i, 'o, 'gc) adapter_base \<Rightarrow>
   ('cfg, 'dc, 'i, 'o, 'gc) adapter_base \<times> 'gc server_config result" where
  "base_Config env =
     memo ab_config (\<lambda>x b. b\<lparr>ab_config := Some x\<rparr>)
       (\<lambda>b. (case InstallFlags env b of
               (b', Abort e) \<Rightarrow> (b', Abort e)
             | (b', Err err) \<Rightarrow> (b', Err err)
             | (b', Ok _) \<Rightarrow>
                 (case deref (ab_Options b') of
                    Abort e \<Rightarrow> (b', Abort e)
                  | Err err \<Rightarrow> (b', Err err)
                  | Ok opts \<Rightarrow>
                      (let (opts', r) = options_Config (env_options env) opts in (b'\<lparr>ab_Options := Some opts'\<rparr>, r)))))"

text \<open>\<open>Complete\<close> writes to the configuration the base keeps.\<close>

definition base_Server ::
  "('cfg, 'dc, 'r, 'k, 'i, 'o, 'gc, 'd) adapter_env \<Rightarrow> ('cfg, 'dc, 'i, 'o, 'gc) adapter_base \<Rightarrow>
   ('cfg, 'dc, 'i, 'o, 'gc) adapter_base \<times> adapter_server result" where
  "base_Server env =
     memo ab_server (\<lambda>x b. b\<lparr>ab_server := Some x\<rparr>)
       (\<lambda>b. (case base_Config env b of
               (b', Abort e) \<Rightarrow> (b', Abort e)
             | (b', Err err) \<Rightarrow> (b', Err err)
             | (b', Ok config) \<Rightarrow>
                 let b1 = (if ab_Name b' = [] then b'\<lparr>ab_Name := ''custom-metrics-adapter''\<rparr> else b');
                     (config', completed) = Complete (env_Complete env) (ab_informers b1) config
                 in (b1\<lparr>ab_config := Some config'\<rparr>,
                     New (env_GenericNew env completed) (env_Scheme env) (ab_Name b1)
                       (ab_cmProvider b1) (ab_emProvider b1))))"

definition Run ::
  "('cfg, 'dc, 'r, 'k, 'i, 'o, 'gc, 'd) adapter_env \<Rightarrow> ('cfg, 'dc, 'i, 'o, 'gc) adapter_base \<Rightarrow>
   ('cfg, 'dc, 'i, 'o, 'gc) adapter_base \<times> unit result" where
  "Run env b = using_result (base_Server env b) (env_PrepareRun_Run env)"

declare initFlagSet_def [go_defs] InstallFlags_def [go_defs] memo_def [go_defs] wrap_error_def [go_defs]
  using_result_def [go_defs]

section \<open>The sample adapter\<close>

text \<open>\<open>glog.Fatalf\<close> ends the process.\<close>

definition fatal :: "string \<Rightarrow> 'x result \<Rightarrow> 'x result" where
  "fatal f r = (case r of Err err \<Rightarrow> Abort (error_text (Errorf f [] [err])) | Ok x \<Rightarrow> Ok x | Abort e \<Rightarrow> Abort e)"

declare fatal_def [go_defs]

definition makeProviderOrDie ::
  "('cfg, 'dc, 'r, 'k, 'i, 'o, 'gc, 'd) adapter_env \<Rightarrow> ('cfg, 'dc, 'i, 'o, 'gc) adapter_base \<Rightarrow>
   ('cfg, 'dc, 'i, 'o, 'gc) adapter_base \<times>
     (testing_provider \<times> (write_handler, unit) web_service result) result" where
  "makeProviderOrDie env b =
     (case DynamicClient env b of
        (b1, r1) \<Rightarrow>
          (case fatal ''unable to construct dynamic client: %v'' r1 of
             Abort e \<Rightarrow> (b1, Abort e)
           | Err err \<Rightarrow> (b1, Err err)
           | Ok client \<Rightarrow>
               using_result (case RESTMapper env b1 of
                   (b2, r2) \<Rightarrow> (b2, fatal ''unable to construct discovery REST mapper: %v'' r2))
                 (\<lambda>mapper. Ok (NewFakeProvider client (as_rest_mapper mapper)))))"

text \<open>
  \<open>main\<close>: \<open>parse\<close> is what defining the message flag and parsing the arguments makes of the base; the
  goroutine that listens for posted metrics is the service in the result, on the default container,
  which is empty before. The result's first part is the base when \<open>Run\<close> is called.
\<close>

definition main_from ::
  "('cfg, 'dc, 'r, 'k, 'i, 'o, 'gc, 'd) adapter_env \<Rightarrow>
   (('cfg, 'dc, 'i, 'o, 'gc) adapter_base \<Rightarrow> ('cfg, 'dc, 'i, 'o, 'gc) adapter_base result) \<Rightarrow>
   request_env \<Rightarrow> (custom_metric_info list \<Rightarrow> custom_metric_info list) \<Rightarrow>
   ('cfg, 'dc, 'i, 'o, 'gc) adapter_base \<Rightarrow>
   (('cfg, 'dc, 'i, 'o, 'gc) adapter_base \<times> (write_handler, unit) web_service list) result" where
  "main_from env parse renv order cmd =
     (case Flags env cmd of
        (cmd1, r) \<Rightarrow>
          bind_result r (\<lambda>_.
          bind_result (parse cmd1) (\<lambda>cmd2.
            (case makeProviderOrDie env cmd2 of
               (cmd3, r3) \<Rightarrow>
                 bind_result r3 (\<lambda>(testProvider, ws).
                 bind_result ws (\<lambda>webService.
                   let cmd4 = WithExternalMetrics (as_external_provider renv testProvider)
                                (WithCustomMetrics (as_custom_provider renv order testProvider) cmd3)
                   in bind_result (container_Add [] webService) (\<lambda>services.
                      bind_result (fatal ''unable to run custom metrics adapter: %v'' (snd (Run env cmd4)))
                        (\<lambda>_. Ok (cmd4, services)))))))))"

end
