(* ===== verification/Adapter_Base_Correct.thy ===== *)
theory Adapter_Base_Correct
  imports Adapter_Base
begin

text \<open>
  The base makes every object once: the getters are idempotent, and what they made survives every later
  sequence of calls, in whatever environment. The locale \<open>memoised\<close> is the contract of one getter.
\<close>

section \<open>One getter\<close>

locale memoised =
  fixes getter :: "'e \<Rightarrow> 's \<Rightarrow> 's \<times> 'x result" and field :: "'s \<Rightarrow> 'x option"
  assumes hit: "field s = Some x \<Longrightarrow> getter e s = (s, Ok x)"
    and fills: "getter e s = (s', Ok x) \<Longrightarrow> field s' = Some x"
begin

lemma idempotent: "getter e s = (s', Ok x) \<Longrightarrow> getter e' s' = (s', Ok x)"
  by (drule fills) (rule hit)

lemma later: "getter e s = (s', Ok x) \<Longrightarrow> (field s' = Some x \<Longrightarrow> field s'' = Some x) \<Longrightarrow>
  getter e' s'' = (s'', Ok x)"
  by (drule fills) (rule hit, simp)

end

lemma memo_hit: "field s = Some x \<Longrightarrow> memo field keep create s = (s, Ok x)"
  by (simp add: memo_def)

lemma memo_fills:
  "memo field keep create s = (s', Ok x) \<Longrightarrow> (\<And>x s. field (keep x s) = Some x) \<Longrightarrow> field s' = Some x"
  by (auto simp: memo_def split: option.splits prod.splits result.splits)

interpretation clientConfig: memoised ClientConfig ab_clientConfig
  by unfold_locales (auto simp: ClientConfig_def memo_hit dest!: memo_fills)

interpretation discoveryClient: memoised DiscoveryClient ab_discoveryClient
  by unfold_locales (auto simp: DiscoveryClient_def memo_hit dest!: memo_fills)

interpretation restMapper: memoised RESTMapper ab_restMapper
  by unfold_locales (auto simp: RESTMapper_def memo_hit dest!: memo_fills)

interpretation dynamicClient: memoised DynamicClient ab_dynamicClient
  by unfold_locales (auto simp: DynamicClient_def memo_hit dest!: memo_fills)

interpretation informers: memoised Informers ab_informers
  by unfold_locales (auto simp: Informers_def memo_hit dest!: memo_fills)

interpretation serverConfig: memoised base_Config ab_config
  by unfold_locales (auto simp: base_Config_def memo_hit dest!: memo_fills)

interpretation server: memoised base_Server ab_server
  by unfold_locales (auto simp: base_Server_def memo_hit dest!: memo_fills)

section \<open>Sequences of calls\<close>

text \<open>What a base holds is still there in another.\<close>

definition kept :: "'x option \<Rightarrow> 'x option \<Rightarrow> bool" where
  "kept a b \<longleftrightarrow> a = None \<or> b = a"

definition extends ::
  "('cfg, 'dc, 'i, 'o, 'gc) adapter_base \<Rightarrow> ('cfg, 'dc, 'i, 'o, 'gc) adapter_base \<Rightarrow> bool" where
  "extends b b' \<longleftrightarrow>
     kept (ab_clientConfig b) (ab_clientConfig b') \<and> kept (ab_discoveryClient b) (ab_discoveryClient b') \<and>
     kept (ab_restMapper b) (ab_restMapper b') \<and> kept (ab_dynamicClient b) (ab_dynamicClient b') \<and>
     kept (ab_informers b) (ab_informers b') \<and> kept (ab_server b) (ab_server b')"

lemma kept_simps [simp]: "kept a a" "kept None b" "kept (Some x) b \<longleftrightarrow> b = Some x"
  by (auto simp: kept_def)

lemma extends_refl [simp]: "extends b b"
  by (simp add: extends_def)

lemma kept_trans: "kept a b \<Longrightarrow> kept b c \<Longrightarrow> kept a c"
  by (auto simp: kept_def)

lemma extends_trans: "extends a b \<Longrightarrow> extends b c \<Longrightarrow> extends a c"
  unfolding extends_def by (elim conjE, intro conjI) (erule (1) kept_trans)+

lemma extends_memo:
  assumes "extends s (fst (create s))"
    and "\<And>x s'. field s = None \<Longrightarrow> extends s s' \<Longrightarrow> extends s (keep x s')"
  shows "extends s (fst (memo field keep create s))"
  using assms by (auto simp: memo_def split: option.splits prod.splits result.splits)

lemma fst_using_result [simp]: "fst (using_result sr f) = fst sr"
  by (simp add: using_result_def)

lemma extends_ClientConfig: "extends b (fst (ClientConfig env b))"
  unfolding ClientConfig_def by (rule extends_memo) (simp_all add: extends_def)

lemma extends_DiscoveryClient: "extends b (fst (DiscoveryClient env b))"
  unfolding DiscoveryClient_def
  by (rule extends_memo) (simp_all add: extends_ClientConfig, simp add: extends_def)

lemma extends_RESTMapper: "extends b (fst (RESTMapper env b))"
  unfolding RESTMapper_def
  by (rule extends_memo) (simp_all add: extends_DiscoveryClient, simp add: extends_def)

lemma extends_DynamicClient: "extends b (fst (DynamicClient env b))"
  unfolding DynamicClient_def
  by (rule extends_memo) (simp_all add: extends_ClientConfig, simp add: extends_def)

lemma extends_Informers: "extends b (fst (Informers env b))"
  unfolding Informers_def
  by (rule extends_memo) (simp_all add: extends_ClientConfig, simp add: extends_def)

lemma extends_InstallFlags: "extends b (fst (InstallFlags env b))"
  by (auto simp: InstallFlags_def initFlagSet_def Let_def extends_def split: option.splits prod.splits)

lemma extends_Flags: "extends b (fst (Flags env b))"
proof -
  have "extends b (initFlagSet env b)" by (simp add: initFlagSet_def extends_def)
  moreover have "fst (Flags env b) = fst (InstallFlags env (initFlagSet env b))"
    by (auto simp: Flags_def split: prod.splits result.splits)
  ultimately show ?thesis using extends_InstallFlags extends_trans by metis
qed

lemma extends_base_Config: "extends b (fst (base_Config env b))"
  unfolding base_Config_def
proof (rule extends_memo, goal_cases)
  case 1
  show ?case
    using extends_InstallFlags [of b env]
    by (auto simp: extends_def split: prod.splits result.splits)
qed (simp add: extends_def)

lemma extends_base_Server: "extends b (fst (base_Server env b))"
  unfolding base_Server_def
proof (rule extends_memo, goal_cases)
  case 1
  show ?case
    using extends_base_Config [of b env]
    by (auto simp: extends_def Let_def split: prod.splits result.splits)
qed (simp add: extends_def)

text \<open>Any sequence of calls of the methods of the base, each in an environment of its own.\<close>

datatype 'e base_call =
    CallFlags 'e | CallClientConfig 'e | CallDiscoveryClient 'e | CallRESTMapper 'e
  | CallDynamicClient 'e | CallInformers 'e | CallConfig 'e | CallServer 'e | CallInstallFlags 'e | CallRun 'e
  | CallWithCustomMetrics custom_metrics_provider
  | CallWithExternalMetrics external_metrics_provider

fun run_call ::
  "('cfg, 'dc, 'r, 'k, 'i, 'o, 'gc, 'd) adapter_env base_call \<Rightarrow> ('cfg, 'dc, 'i, 'o, 'gc) adapter_base \<Rightarrow>
   ('cfg, 'dc, 'i, 'o, 'gc) adapter_base" where
  "run_call (CallFlags env) b = fst (Flags env b)"
| "run_call (CallClientConfig env) b = fst (ClientConfig env b)"
| "run_call (CallDiscoveryClient env) b = fst (DiscoveryClient env b)"
| "run_call (CallRESTMapper env) b = fst (RESTMapper env b)"
| "run_call (CallDynamicClient env) b = fst (DynamicClient env b)"
| "run_call (CallInformers env) b = fst (Informers env b)"
| "run_call (CallConfig env) b = fst (base_Config env b)"
| "run_call (CallServer env) b = fst (base_Server env b)"
| "run_call (CallInstallFlags env) b = fst (InstallFlags env b)"
| "run_call (CallRun env) b = fst (Run env b)"
| "run_call (CallWithCustomMetrics p) b = WithCustomMetrics p b"
| "run_call (CallWithExternalMetrics p) b = WithExternalMetrics p b"

definition run_calls ::
  "('cfg, 'dc, 'r, 'k, 'i, 'o, 'gc, 'd) adapter_env base_call list \<Rightarrow> ('cfg, 'dc, 'i, 'o, 'gc) adapter_base \<Rightarrow>
   ('cfg, 'dc, 'i, 'o, 'gc) adapter_base" where
  "run_calls cs b = foldl (\<lambda>b c. run_call c b) b cs"

lemma extends_Run: "extends b (fst (Run env b))"
  by (simp add: Run_def extends_base_Server)

lemmas extends_calls =
  extends_InstallFlags extends_Run extends_Flags extends_ClientConfig extends_DiscoveryClient extends_RESTMapper extends_DynamicClient
  extends_Informers extends_base_Config extends_base_Server

lemma extends_run_call: "extends b (run_call c b)"
  by (cases c) (simp_all add: extends_calls, simp_all add: extends_def WithCustomMetrics_def WithExternalMetrics_def)

lemma extends_run_calls: "extends b (run_calls cs b)"
proof (induction cs arbitrary: b)
  case Nil
  then show ?case by (simp add: run_calls_def)
next
  case (Cons c cs)
  show ?case
    using extends_trans [OF extends_run_call Cons.IH, of b c] by (simp add: run_calls_def)
qed

text \<open>
  C24: All getters are idempotent, as their documentation says: once a call has returned an object, a
  further call, whatever clients, servers or configuration could be had by then, returns the same
  object and changes nothing; and once the flags are installed they are not installed again.
\<close>

theorem getters_idempotent:
  fixes env env' :: "('cfg, 'dc, 'r, 'k, 'i, 'o, 'gc, 'd) adapter_env"
  shows "(ClientConfig env b = (b', Ok cfg) \<longrightarrow> ClientConfig env' b' = (b', Ok cfg)) \<and>
   (DiscoveryClient env b = (b', Ok dc) \<longrightarrow> DiscoveryClient env' b' = (b', Ok dc)) \<and>
   (RESTMapper env b = (b', Ok m) \<longrightarrow> RESTMapper env' b' = (b', Ok m)) \<and>
   (DynamicClient env b = (b', Ok dy) \<longrightarrow> DynamicClient env' b' = (b', Ok dy)) \<and>
   (Informers env b = (b', Ok i) \<longrightarrow> Informers env' b' = (b', Ok i)) \<and>
   (base_Config env b = (b', Ok c) \<longrightarrow> base_Config env' b' = (b', Ok c)) \<and>
   (base_Server env b = (b', Ok s) \<longrightarrow> base_Server env' b' = (b', Ok s)) \<and>
   (InstallFlags env b = (b', Ok ()) \<longrightarrow> InstallFlags env' b' = (b', Ok ()))"
proof (intro conjI impI)
  show "InstallFlags env' b' = (b', Ok ())" if "InstallFlags env b = (b', Ok ())"
    using that by (auto simp: InstallFlags_def initFlagSet_def Let_def split: if_splits option.splits prod.splits)
qed (erule clientConfig.idempotent discoveryClient.idempotent restMapper.idempotent
      dynamicClient.idempotent informers.idempotent serverConfig.idempotent server.idempotent)+

text \<open>
  The REST mapper made at the first use is the mapper of every later call, after any sequence of calls in any
  environments, and the base has it as it was made: answering from what discovery had then.
\<close>

lemma mapper_kept:
  assumes "ab_restMapper b = None" and "DiscoveryClient env b = (b1, Ok dc)"
    and "env_GetAPIGroupResources env dc = Ok resources"
  shows "\<exists>b' m. RESTMapper env b = (b', Ok m) \<and> rdm_refreshInterval m = ab_DiscoveryInterval b \<and>
    (\<forall>cs env'. RESTMapper env' (run_calls cs b') = (run_calls cs b', Ok m)) \<and>
    as_rest_mapper m = env_NewDiscoveryRESTMapper env resources"
proof -
  let ?m = "\<lparr>rdm_refreshInterval = ab_DiscoveryInterval b,
      rdm_delegate = Some (env_NewDiscoveryRESTMapper env resources)\<rparr>"
  have "NewRESTMapper (env_GetAPIGroupResources env) (env_NewDiscoveryRESTMapper env) dc (ab_DiscoveryInterval b) = Ok ?m"
    using assms(3) by (simp add: NewRESTMapper_def RegenerateMappings_def)
  then have made: "RESTMapper env b = (b1\<lparr>ab_restMapper := Some ?m\<rparr>, Ok ?m)"
    using assms(1,2) by (simp add: RESTMapper_def memo_def using_result_def wrap_error_def)
  have "RESTMapper env' (run_calls cs (b1\<lparr>ab_restMapper := Some ?m\<rparr>))
      = (run_calls cs (b1\<lparr>ab_restMapper := Some ?m\<rparr>), Ok ?m)" for cs env'
    using extends_run_calls [of "b1\<lparr>ab_restMapper := Some ?m\<rparr>" cs]
    by (intro restMapper.hit) (simp add: extends_def)
  then show ?thesis
    by (intro exI [of _ "b1\<lparr>ab_restMapper := Some ?m\<rparr>"] exI [of _ ?m] conjI allI made)
      (simp_all add: as_rest_mapper_delegate delegate_def)
qed

text \<open>
  C25: A server is made once. After a server has been made, any further calls of any methods, setting other providers
  among them, leave it in place: asking for the server again, or running, gives the same one.
\<close>

theorem server_cemented:
  assumes "base_Server env b = (b', Ok s)"
  shows "base_Server env' (run_calls cs b') = (run_calls cs b', Ok s) \<and>
    Run env' (run_calls cs b') = (run_calls cs b', env_PrepareRun_Run env' s)"
proof -
  have "ab_server b' = Some s" using assms by (rule server.fills)
  then have "ab_server (run_calls cs b') = Some s"
    using extends_run_calls [of b' cs] by (simp add: extends_def)
  then have "base_Server env' (run_calls cs b') = (run_calls cs b', Ok s)" by (rule server.hit)
  then show ?thesis by (simp add: Run_def using_result_def)
qed

section \<open>An example base\<close>

definition example_options_env :: "(string, unit) options_env" where
  "example_options_env =
     \<lparr>oe_NewSecureServingOptions = ''serving'', oe_WithLoopback = id,
      oe_NewDelegatingAuthenticationOptions = ''authentication'',
      oe_NewDelegatingAuthorizationOptions = ''authorization'',
      oe_SecureServing_flags = (\<lambda>_. [''secure-port'']), oe_Authentication_flags = (\<lambda>_. []),
      oe_Authorization_flags = (\<lambda>_. []), oe_MaybeDefaultWithSelfSignedCerts = (\<lambda>opts _ _ _. Ok opts),
      oe_SecureServing_ApplyTo = (\<lambda>_ c. Ok c), oe_Authentication_ApplyTo = (\<lambda>_ c _. Ok c),
      oe_Authorization_ApplyTo = (\<lambda>_ c. Ok c),
      oe_NewConfig_parts = (\<lambda>feats. \<lparr>cp_SecureServing = (), cp_LoopbackClientConfig = (), cp_Authentication = (),
        cp_Authorization = (), cp_OpenAPIConfig = (), cp_Features = feats\<rparr>)\<rparr>"

text \<open>Its options, their flags and the configuration made of them.\<close>

lemma example_options [simp]:
  "define_flags (option_flags example_options_env (NewCustomMetricsAdapterServerOptions example_options_env) @
       [''lister-kubeconfig'', ''discovery-interval'']) [''v''] =
     ([''v'', ''secure-port'', ''profiling'', ''contention-profiling'', ''enable-swagger-ui'',
       ''lister-kubeconfig'', ''discovery-interval''], Ok ())"
  "options_Config example_options_env (NewCustomMetricsAdapterServerOptions example_options_env) =
     (NewCustomMetricsAdapterServerOptions example_options_env, Ok (NewConfig example_options_env))"
  by (simp_all add: option_flags_def NewCustomMetricsAdapterServerOptions_def FeatureOptions_flags_def
      example_options_env_def options_Config_def apply_SecureServing_def apply_Authentication_def
      apply_Authorization_def NewConfig_def)

definition example_adapter_env ::
  "(string, string, string, unit, int, string, unit, unit) adapter_env" where
  "example_adapter_env =
     \<lparr>env_CommandLine = [''v''], env_options = example_options_env,
      env_LoadConfig = (\<lambda>f. Ok f), env_InClusterConfig = Ok ''in-cluster'',
      env_NewDiscoveryClientForConfig = (\<lambda>c. Ok c), env_GetAPIGroupResources = (\<lambda>_. Ok ''first''),
      env_NewDiscoveryRESTMapper = singular_mapper, env_NewDynamicForConfig = (\<lambda>_. Ok (\<lambda>_ _ _. Ok None)),
      env_NewKubeForConfig = (\<lambda>_. Ok ()), env_NewSharedInformerFactory = (\<lambda>_ n. n),
      env_Complete = (\<lambda>_ _. ()),
      env_GenericNew = (\<lambda>_ _. Ok example_base), env_Scheme = example_scheme, env_PrepareRun_Run = (\<lambda>_. Ok ())\<rparr>"

text \<open>The cluster out of reach, or with other resources.\<close>

definition later_adapter_env ::
  "(string, string, string, unit, int, string, unit, unit) adapter_env" where
  "later_adapter_env = example_adapter_env
     \<lparr>env_InClusterConfig := Err (OtherError ''unable to load in-cluster configuration''),
      env_GetAPIGroupResources := (\<lambda>_. Ok ''second''), env_GenericNew := (\<lambda>_ _. Err (OtherError ''port in use''))\<rparr>"

definition fresh_base :: "(string, string, int, string, unit) adapter_base" where
  "fresh_base =
     \<lparr>ab_Options = None, ab_Name = [], ab_RemoteKubeConfigFile = [], ab_DiscoveryInterval = 600,
      ab_FlagSet = None, ab_flagOnce = False, ab_clientConfig = None, ab_discoveryClient = None,
      ab_restMapper = None, ab_dynamicClient = None, ab_informers = None, ab_config = None,
      ab_server = None, ab_cmProvider = None, ab_emProvider = None\<rparr>"

lemma example_DiscoveryClient:
  "DiscoveryClient example_adapter_env fresh_base =
     (fresh_base\<lparr>ab_clientConfig := Some ''in-cluster'', ab_discoveryClient := Some ''in-cluster''\<rparr>, Ok ''in-cluster'')"
  by (simp add: DiscoveryClient_def ClientConfig_def go_defs example_adapter_env_def fresh_base_def)

theorem getters_idempotent_witness:
  "snd (DiscoveryClient example_adapter_env fresh_base) = Ok ''in-cluster'' \<and>
   DiscoveryClient later_adapter_env (fst (DiscoveryClient example_adapter_env fresh_base)) =
     (fst (DiscoveryClient example_adapter_env fresh_base), Ok ''in-cluster'')"
  using getters_idempotent [of example_adapter_env fresh_base
      "fst (DiscoveryClient example_adapter_env fresh_base)" _ later_adapter_env "''in-cluster''"]
  by (simp add: example_DiscoveryClient)

lemma mapper_kept_example:
  "\<exists>b' m. RESTMapper example_adapter_env fresh_base = (b', Ok m) \<and>
     RESTMapper later_adapter_env (run_calls [CallClientConfig later_adapter_env, CallFlags later_adapter_env] b') =
       (run_calls [CallClientConfig later_adapter_env, CallFlags later_adapter_env] b', Ok m) \<and>
     rm_ResourceSingularizer (as_rest_mapper m) ''pods'' = Ok ''first''"
proof -
  have none: "ab_restMapper fresh_base = None" by (simp add: fresh_base_def)
  have res: "env_GetAPIGroupResources example_adapter_env ''in-cluster'' = Ok ''first''"
    and new: "env_NewDiscoveryRESTMapper example_adapter_env = singular_mapper"
    by (simp_all add: example_adapter_env_def)
  from mapper_kept [OF none example_DiscoveryClient res]
  obtain b' m where "RESTMapper example_adapter_env fresh_base = (b', Ok m)"
    and "RESTMapper later_adapter_env (run_calls [CallClientConfig later_adapter_env, CallFlags later_adapter_env] b') =
       (run_calls [CallClientConfig later_adapter_env, CallFlags later_adapter_env] b', Ok m)"
    and "as_rest_mapper m = singular_mapper ''first''"
    unfolding new by blast
  then show ?thesis by (simp add: singular_mapper_def)
qed

lemma example_New:
  "New (\<lambda>_. Ok example_base) example_scheme n None None =
     Ok \<lparr>GenericAPIServer = example_base, customMetricsProvider = None, externalMetricsProvider = None\<rparr>"
  by (simp add: New_def)

lemma example_Server:
  "\<exists>b' s. base_Server example_adapter_env fresh_base = (b', Ok s)"
  by (simp add: base_Server_def base_Config_def go_defs Let_def Complete_def example_New example_adapter_env_def fresh_base_def)

theorem server_cemented_witness:
  "\<exists>b' s. base_Server example_adapter_env fresh_base = (b', Ok s) \<and>
     base_Server later_adapter_env (run_calls [CallWithCustomMetrics example_provider :: (string, string, string,
         unit, int, string, unit, unit) adapter_env base_call] b') =
       (run_calls [CallWithCustomMetrics example_provider :: (string, string, string, unit, int, string, unit,
         unit) adapter_env base_call] b', Ok s)"
proof -
  obtain b' s where made: "base_Server example_adapter_env fresh_base = (b', Ok s)"
    using example_Server by blast
  show ?thesis
    by (intro exI [of _ b'] exI [of _ s] conjI made conjunct1 [OF server_cemented [OF made]])
qed

section \<open>Feature flags\<close>

lemma define_flags_Ok: "define_flags ns fs = (fs', Ok ()) \<Longrightarrow> fs' = fs @ ns"
  by (induction ns fs rule: define_flags.induct) (auto split: if_splits)

text \<open>The flags of a new base.\<close>

lemma InstallFlags_new:
  assumes "\<not> ab_flagOnce b" and "ab_Options b = None"
  shows "InstallFlags env b =
    (case define_flags (option_flags (env_options env) (NewCustomMetricsAdapterServerOptions (env_options env)) @
           [''lister-kubeconfig'', ''discovery-interval''])
         (case ab_FlagSet b of None \<Rightarrow> env_CommandLine env | Some fs \<Rightarrow> fs) of
       (fs, r) \<Rightarrow> (b\<lparr>ab_FlagSet := Some fs, ab_flagOnce := True,
          ab_Options := Some (NewCustomMetricsAdapterServerOptions (env_options env))\<rparr>, r))"
  using assms by (cases "ab_FlagSet b") (simp_all add: go_defs split: prod.splits)

text \<open>Once the flags are there, the configuration is the one of the options.\<close>

lemma base_Config_options:
  assumes "ab_flagOnce b" and "ab_FlagSet b \<noteq> None" and "ab_config b = None" and "ab_Options b = Some opts"
  shows "snd (base_Config env b) = snd (options_Config (env_options env) opts)"
  using assms by (auto simp: base_Config_def go_defs deref_def split: prod.splits result.splits)

text \<open>
  C36: The flags of the feature options do nothing. Installing the flags of a new base offers
  \<open>profiling\<close>, \<open>contention-profiling\<close> and \<open>enable-swagger-ui\<close>, but whatever options the parsed flags
  leave, the configuration does not depend on the feature options: it has the switches of a new
  configuration, with profiling on, where applying the options would have set them.
\<close>

theorem feature_flags_ignored:
  fixes env :: "('cfg, 'dc, 'r, 'k, 'i, 'o, 'gc, 'd) adapter_env"
  assumes "InstallFlags env b = (b', Ok ())" and "\<not> ab_flagOnce b" and "ab_Options b = None" and "ab_config b = None"
  shows "\<exists>fs. ab_FlagSet b' = Some fs \<and> {''profiling'', ''contention-profiling'', ''enable-swagger-ui''} \<subseteq> set fs \<and>
    (\<forall>(env' :: ('cfg, 'dc, 'r, 'k, 'i, 'o, 'gc, 'd) adapter_env) opts feats.
       snd (base_Config env' (b'\<lparr>ab_Options := Some (opts\<lparr>so_Features := Some feats\<rparr>)\<rparr>)) =
         snd (base_Config env' (b'\<lparr>ab_Options := Some opts\<rparr>)) \<and>
       (\<forall>c. snd (base_Config env' (b'\<lparr>ab_Options := Some opts\<rparr>)) = Ok c \<longrightarrow>
          cp_Features (gc_rest c) = default_features \<and>
          cp_Features (gc_rest (FeatureOptions_ApplyTo (Some feats) c)) = feats))"
proof -
  obtain fs where flags: "ab_FlagSet b' = Some fs" and once: "ab_flagOnce b'" and none: "ab_config b' = None"
    and listed: "{''profiling'', ''contention-profiling'', ''enable-swagger-ui''} \<subseteq> set fs"
    using assms(1,4) by (auto simp: InstallFlags_new [OF assms(2,3)] option_flags_def FeatureOptions_flags_def
        NewCustomMetricsAdapterServerOptions_def dest!: define_flags_Ok split: prod.splits)
  have config: "snd (base_Config env' (b'\<lparr>ab_Options := Some opts\<rparr>)) = snd (options_Config (env_options env') opts)"
    for env' :: "('cfg, 'dc, 'r, 'k, 'i, 'o, 'gc, 'd) adapter_env" and opts
    by (rule base_Config_options) (simp_all add: flags once none)
  have "snd (options_Config env' (opts\<lparr>so_Features := Some feats\<rparr>)) = snd (options_Config env' opts)"
    for env' :: "('o, 'gc) options_env" and opts feats
    by (simp add: options_Config_ignores_Features split: prod.splits)
  moreover have "cp_Features (gc_rest c) = default_features" if "snd (options_Config env' opts) = Ok c"
    for env' :: "('o, 'gc) options_env" and opts c
    using that by (cases "options_Config env' opts") (auto dest: options_Config_Features)
  ultimately show ?thesis
    using flags listed
    by (intro exI [of _ fs] conjI allI impI)
      (simp_all add: config FeatureOptions_ApplyTo_def)
qed

lemma example_InstallFlags:
  "\<exists>b'. InstallFlags example_adapter_env fresh_base = (b', Ok ())"
  by (simp add: go_defs Let_def example_adapter_env_def fresh_base_def)

theorem feature_flags_ignored_witness:
  "\<exists>b' c. InstallFlags example_adapter_env fresh_base = (b', Ok ()) \<and>
    snd (base_Config example_adapter_env (b'\<lparr>ab_Options := Some ((NewCustomMetricsAdapterServerOptions
      example_options_env)\<lparr>so_Features := Some \<lparr>EnableProfiling = False, EnableContentionProfiling = False,
        EnableSwaggerUI = True\<rparr>\<rparr>)\<rparr>)) = Ok c \<and> EnableProfiling (cp_Features (gc_rest c))"
proof -
  obtain b' where b': "InstallFlags example_adapter_env fresh_base = (b', Ok ())"
    using example_InstallFlags by blast
  let ?opts = "NewCustomMetricsAdapterServerOptions example_options_env"
  have "snd (base_Config example_adapter_env (b'\<lparr>ab_Options := Some ?opts\<rparr>)) = Ok (NewConfig example_options_env)"
    using b' by (subst base_Config_options [where opts = ?opts])
      (auto simp: go_defs Let_def example_adapter_env_def fresh_base_def)
  moreover have "snd (base_Config example_adapter_env (b'\<lparr>ab_Options := Some (?opts\<lparr>so_Features := Some feats\<rparr>)\<rparr>)) =
      snd (base_Config example_adapter_env (b'\<lparr>ab_Options := Some ?opts\<rparr>))" for feats
    using feature_flags_ignored [OF b'] by (auto simp: fresh_base_def)
  ultimately show ?thesis
    by (intro exI [of _ b'] exI [of _ "NewConfig example_options_env"])
      (simp add: b' NewConfig_def default_features_def)
qed

end
