(* ===== verification/End_To_End.thy ===== *)
theory End_To_End
  imports Write_Service Metrics_Rest Adapter_Base_Correct
begin

text \<open>
  Lemmas that join the components: a request to the API served by the sample provider, and the base of
  the sample adapter up to the call of \<open>Run\<close>.
\<close>

section \<open>The API over the sample provider\<close>

lemma as_custom_provider_simps [simp]:
  "GetMetricByName (as_custom_provider env order p) = testing_GetMetricByName env p"
  "GetMetricBySelector (as_custom_provider env order p) = testing_GetMetricBySelector env p"
  "ListAllMetrics (as_custom_provider env order p) = testing_ListAllMetrics order p"
  by (simp_all add: as_custom_provider_def)

lemma object_path_served:
  assumes "serves_apis r" and "list_all segment [g, v, ns, res, name, metric]"
    and "res \<notin> set (''metrics'' # namespaceSubresources)" and "name \<noteq> ''*''"
    and "selects_no_field opts" and "\<not> lo_Watch opts"
  shows "serve_custom scope prov r (api_request g v [''namespaces'', ns, res, name, metric] opts) =
    run_query prov (ByName \<lparr>nn_Namespace = ns, nn_Name = name\<rparr>
      \<lparr>cmi_GroupResource = ParseGroupResource res, cmi_Namespaced = True, cmi_Metric = metric\<rparr>)"
  using custom_namespaced_served [of r g v ns res name metric opts scope prov] assms
  by (simp add: object_query_def)

lemma namespace_metric_served:
  assumes "serves_apis r" and "list_all segment [g, v, ns, metric]" and "ns \<noteq> ''*''"
    and "selects_no_field opts" and "\<not> lo_Watch opts"
  shows "serve_custom scope prov r (api_request g v [''namespaces'', ns, ''metrics'', metric] opts) =
    run_query prov (ByName \<lparr>nn_Namespace = [], nn_Name = ns\<rparr>
      \<lparr>cmi_GroupResource = \<lparr>gr_Group = [], gr_Resource = ''namespaces''\<rparr>, cmi_Namespaced = False,
       cmi_Metric = metric\<rparr>)"
  using custom_namespace_metric_served [of r g v ns metric opts scope prov] assms
  by (simp add: object_query_def)

text \<open>A read by name depends on the state through the value and the mapper only.\<close>

lemma GetMetricByName_cong:
  assumes "valueFor p' info nn = valueFor p info nn" and "tp_mapper p' = tp_mapper p"
  shows "testing_GetMetricByName env p' nn info = testing_GetMetricByName env p nn info"
  using assms by (simp add: testing_GetMetricByName_def metricFor_everything split: result.splits)

lemma namespaced_write_params:
  "write_params [''namespaces'', ns, res, name, metric] =
     Some [(''namespace'', ns), (''resourceType'', res), (''name'', name), (''metric'', metric)]"
  by simp

lemma namespaced_write_info:
  "ns \<noteq> [] \<Longrightarrow>
   write_info [(''namespace'', ns), (''resourceType'', res), (''name'', name), (''metric'', metric)] =
     \<lparr>cmi_GroupResource = ParseGroupResource res, cmi_Namespaced = True, cmi_Metric = metric\<rparr>"
  "write_name [(''namespace'', ns), (''resourceType'', res), (''name'', name), (''metric'', metric)] =
     \<lparr>nn_Namespace = ns, nn_Name = name\<rparr>"
  by (simp_all add: write_info_def write_name_def path_parameter_def)

text \<open>The value a read by name finds after the write.\<close>

definition posted_value :: "request_env \<Rightarrow> object_reference \<Rightarrow> string \<Rightarrow> quantity \<Rightarrow> metric_value" where
  "posted_value env ref metric q =
     \<lparr>mv_DescribedObject = ref, mv_Metric = \<lparr>mi_Name = metric, mi_Selector = None\<rparr>, mv_Timestamp = env_now env 0,
      mv_WindowSeconds = None, mv_Value = q\<rparr>"

text \<open>
  A write that the router does not refuse for its \<open>Accept\<close> header (the routes produce no named type, so it
  has to allow any) is accepted and read; a refused one leaves the provider as it is.
\<close>

lemma posted_read:
  assumes "webService = Ok ws" and "list_all plain_element [ns, written, name, metric]"
    and "Normalized \<lparr>cmi_GroupResource = ParseGroupResource written, cmi_Namespaced = True, cmi_Metric = metric\<rparr>
           (tp_mapper p) = (winfo, w)" and "\<not> aborts w"
    and "Normalized \<lparr>cmi_GroupResource = ParseGroupResource res, cmi_Namespaced = True, cmi_Metric = metric\<rparr>
           (tp_mapper p) = (winfo, Ok s)"
    and "ReferenceFor (tp_mapper p) \<lparr>nn_Namespace = ns, nn_Name = name\<rparr>
           \<lparr>cmi_GroupResource = ParseGroupResource res, cmi_Namespaced = True, cmi_Metric = metric\<rparr> = Ok ref"
    and "handle_write rx ws headers ''POST'' (write_path [''namespaces'', ns, written, name, metric]) (Ok q) p = (p', out)"
  shows "if accepts_any (snd headers)
    then out = Handled Accepted \<and> testing_GetMetricByName env p' \<lparr>nn_Namespace = ns, nn_Name = name\<rparr>
        \<lparr>cmi_GroupResource = ParseGroupResource res, cmi_Namespaced = True, cmi_Metric = metric\<rparr> =
      Ok (Some (posted_value env ref metric q))
    else out = NotRouted 406 \<and> p' = p"
proof -
  let ?params = "[(''namespace'', ns), (''resourceType'', written), (''name'', name), (''metric'', metric)]"
  have seg: "list_all plain_element [''namespaces'', ns, written, name, metric]" and ns: "ns \<noteq> []"
    using assms(2) by (simp_all add: plain_element_def)
  note routed = assms(7) [unfolded write_routed [OF assms(1) seg] namespaced_write_params]
  show ?thesis
  proof (cases "accepts_any (snd headers)")
    case True
    then obtain response where upd: "updateMetric ?params (Ok q) p = (p', response)"
      and out: "out = Handled response"
      using routed by (auto simp: Let_def split: prod.splits)
    note info = namespaced_write_info(1) [OF ns, of written name metric]
      namespaced_write_info(2) [of ns written name metric]
    show ?thesis
      using written_value_read [of ?params p winfo w _ s ref q p' response env, OF _ assms(4,5) _ upd]
        assms(3,6) out True by (simp add: info posted_value_def)
  qed (use routed in auto)
qed

section \<open>The base of the sample adapter\<close>

lemma memo_other:
  assumes "f (fst (create s)) = f s" and "\<And>x s. f (keep x s) = f s"
  shows "f (fst (memo field keep create s)) = f s"
  using assms by (auto simp: memo_def split: option.splits prod.splits result.splits)

lemma getters_keep_server [simp]:
  "ab_server (fst (ClientConfig env b)) = ab_server b"
  "ab_server (fst (DiscoveryClient env b)) = ab_server b"
  "ab_server (fst (RESTMapper env b)) = ab_server b"
  "ab_server (fst (DynamicClient env b)) = ab_server b"
  "ab_server (fst (InstallFlags env b)) = ab_server b"
  "ab_server (fst (Flags env b)) = ab_server b"
proof -
  show c: "ab_server (fst (ClientConfig env b)) = ab_server b" for b
    unfolding ClientConfig_def by (rule memo_other) simp_all
  show d: "ab_server (fst (DiscoveryClient env b)) = ab_server b" for b
    unfolding DiscoveryClient_def by (rule memo_other) (simp_all add: c)
  show "ab_server (fst (RESTMapper env b)) = ab_server b"
    unfolding RESTMapper_def by (rule memo_other) (simp_all add: d)
  show "ab_server (fst (DynamicClient env b)) = ab_server b"
    unfolding DynamicClient_def by (rule memo_other) (simp_all add: c)
  show i: "ab_server (fst (InstallFlags env b)) = ab_server b" for b
    by (auto simp: go_defs Let_def split: option.splits prod.splits)
  have "fst (Flags env b) = fst (InstallFlags env (initFlagSet env b))"
    by (auto simp: Flags_def split: prod.splits result.splits)
  then show "ab_server (fst (Flags env b)) = ab_server b"
    by (simp add: i) (simp add: initFlagSet_def)
qed

lemma getters_keep_providers [simp]:
  "ab_cmProvider (fst (InstallFlags env b)) = ab_cmProvider b"
  "ab_emProvider (fst (InstallFlags env b)) = ab_emProvider b"
  "ab_cmProvider (fst (base_Config env b)) = ab_cmProvider b"
  "ab_emProvider (fst (base_Config env b)) = ab_emProvider b"
proof -
  show c: "ab_cmProvider (fst (InstallFlags env b)) = ab_cmProvider b" for b
    by (auto simp: go_defs Let_def split: option.splits prod.splits)
  show e: "ab_emProvider (fst (InstallFlags env b)) = ab_emProvider b" for b
    by (auto simp: go_defs Let_def split: option.splits prod.splits)
  show "ab_cmProvider (fst (base_Config env b)) = ab_cmProvider b"
    unfolding base_Config_def
    by (rule memo_other) (use c [of b] in \<open>auto split: prod.splits result.splits\<close>)
  show "ab_emProvider (fst (base_Config env b)) = ab_emProvider b"
    unfolding base_Config_def
    by (rule memo_other) (use e [of b] in \<open>auto split: prod.splits result.splits\<close>)
qed

text \<open>A server that was not there is made by \<open>New\<close> from the providers of the base.\<close>

lemma base_Server_New:
  assumes "ab_server b = None" and "base_Server env b = (b', Ok s)"
  shows "\<exists>completed name. New (env_GenericNew env completed) (env_Scheme env) name
    (ab_cmProvider b) (ab_emProvider b) = Ok s"
proof -
  obtain b1 c where c: "base_Config env b = (b1, Ok c)"
    using assms by (auto simp: base_Server_def memo_def split: prod.splits result.splits)
  have prov: "ab_cmProvider b1 = ab_cmProvider b" "ab_emProvider b1 = ab_emProvider b"
    using getters_keep_providers(3,4) [of env b] by (simp_all add: c)
  show ?thesis
    using assms prov
    by (auto simp: base_Server_def memo_def c Let_def split: prod.splits result.splits if_splits)
qed

text \<open>What the provider of the sample adapter is made of.\<close>

lemma makeProviderOrDie_Ok:
  assumes "makeProviderOrDie env b = (b', Ok (p, ws))"
  shows "\<exists>client mapper. ab_dynamicClient b' = Some client \<and> ab_restMapper b' = Some mapper \<and>
    NewFakeProvider client (as_rest_mapper mapper) = (p, ws) \<and> ab_server b' = ab_server b"
proof -
  obtain b1 client b2 mapper where dyn: "DynamicClient env b = (b1, Ok client)"
    and map: "RESTMapper env b1 = (b2, Ok mapper)" and b': "b' = b2"
    and new: "NewFakeProvider client (as_rest_mapper mapper) = (p, ws)"
    using assms
    by (auto simp: makeProviderOrDie_def go_defs split: prod.splits result.splits)
  have "ab_dynamicClient b1 = Some client" using dyn by (rule dynamicClient.fills)
  then have "ab_dynamicClient b2 = Some client"
    using extends_RESTMapper [of b1 env] by (simp add: map extends_def)
  moreover have "ab_restMapper b2 = Some mapper" using map by (rule restMapper.fills)
  moreover have "ab_server b2 = ab_server b"
    using getters_keep_server(3) [of env b1] getters_keep_server(4) [of env b] by (simp add: dyn map)
  ultimately show ?thesis using new b' by blast
qed

lemma main_from_Ok:
  assumes "main_from env parse renv order cmd = Ok (b, services)"
    and "\<And>x y. parse x = Ok y \<Longrightarrow> ab_server y = ab_server x" and "ab_server cmd = None"
  shows "\<exists>client mapper p ws b' s.
    ab_dynamicClient b = Some client \<and> ab_restMapper b = Some mapper \<and>
    NewFakeProvider client (as_rest_mapper mapper) = (p, Ok ws) \<and> container_Add [] ws = Ok services \<and>
    ab_cmProvider b = Some (as_custom_provider renv order p) \<and>
    ab_emProvider b = Some (as_external_provider renv p) \<and>
    ab_server b = None \<and> base_Server env b = (b', Ok s)"
proof -
  obtain cmd1 r where f: "Flags env cmd = (cmd1, r)" by fastforce
  obtain fs cmd2 where r: "r = Ok fs" and parse: "parse cmd1 = Ok cmd2"
    using assms(1) by (auto simp: main_from_def f)
  obtain cmd3 r3 where m: "makeProviderOrDie env cmd2 = (cmd3, r3)" by fastforce
  obtain p ws where r3: "r3 = Ok (p, Ok ws)" and add: "container_Add [] ws = Ok services"
    and b: "b = WithExternalMetrics (as_external_provider renv p)
      (WithCustomMetrics (as_custom_provider renv order p) cmd3)"
    and run: "\<exists>u. fatal ''unable to run custom metrics adapter: %v'' (snd (Run env b)) = Ok u"
    using assms(1) by (auto simp: main_from_def f r parse m Let_def)
  note flags = f [unfolded r] and make = m [unfolded r3]
  obtain b' s where "base_Server env b = (b', Ok s)"
    using run by (cases "base_Server env b")
      (auto simp: Run_def go_defs split: result.splits elim: bind_result.elims)
  moreover have "ab_server b = None"
    using makeProviderOrDie_Ok [OF make] assms(2) [OF parse] assms(3) getters_keep_server(6) [of env cmd]
    by (auto simp: b WithExternalMetrics_def WithCustomMetrics_def flags)
  ultimately show ?thesis
    using makeProviderOrDie_Ok [OF make] add
    by (auto simp: b WithExternalMetrics_def WithCustomMetrics_def)
qed

end
