(* ===== verification/Runtime_Scheme.thy ===== *)
theory Runtime_Scheme
  imports Schema "HOL-Library.List_Lexorder" "HOL-Library.Char_ord"
begin

text \<open>
  \<open>runtime.Scheme\<close> (vendored \<open>k8s.io/apimachinery/pkg/runtime/scheme.go\<close>) as far as it knows types,
  kinds and versions: the registrations, and what is asked of it afterwards. Its converter, its field
  label and defaulting functions are left out, so registrations that only fill those do not appear.
  The lemmas show that a scheme is consistent however it has been filled: making an object of a kind
  and asking for the kinds of the object agree.
\<close>

section \<open>State\<close>

text \<open>A \<open>reflect.Type\<close>: a struct or another type by its package path and name, or a pointer to a type.\<close>

datatype reflect_type =
    Struct string string
  | Ptr reflect_type
  | OtherNamed string string

fun type_Name :: "reflect_type \<Rightarrow> string" where
  "type_Name (Struct pkg name) = name"
| "type_Name (Ptr t) = []"
| "type_Name (OtherNamed pkg name) = name"

fun type_PkgPath :: "reflect_type \<Rightarrow> string" where
  "type_PkgPath (Struct pkg name) = pkg"
| "type_PkgPath (Ptr t) = []"
| "type_PkgPath (OtherNamed pkg name) = pkg"

text \<open>A type prints with the last element of its package path.\<close>

fun type_text :: "reflect_type \<Rightarrow> string" where
  "type_text (Ptr t) = ''*'' @ type_text t"
| "type_text (Struct pkg name) = last (split_byte (CHR ''/'') pkg) @ ''.'' @ name"
| "type_text (OtherNamed pkg name) = last (split_byte (CHR ''/'') pkg) @ ''.'' @ name"

record scheme =
  gvkToType :: "(group_version_kind, reflect_type) go_map"
  typeToGVK :: "(reflect_type, group_version_kind list) go_map"
  unversionedTypes :: "(reflect_type, group_version_kind) go_map"
  unversionedKinds :: "(string, reflect_type) go_map"
  versionPriority :: "(string, string list) go_map"
  observedVersions :: "group_version list"
  schemeName :: string

definition APIVersionInternal :: string where
  "APIVersionInternal = ''__internal''"

definition gvk_GroupVersion :: "group_version_kind \<Rightarrow> group_version" where
  "gvk_GroupVersion gvk = \<lparr>gv_Group = gvk_Group gvk, gv_Version = gvk_Version gvk\<rparr>"

definition NewScheme :: "string \<Rightarrow> scheme" where
  "NewScheme name =
     \<lparr>gvkToType = [], typeToGVK = [], unversionedTypes = [], unversionedKinds = [], versionPriority = [],
      observedVersions = [], schemeName = name\<rparr>"

section \<open>Registration\<close>

definition addObservedVersion :: "group_version \<Rightarrow> scheme \<Rightarrow> scheme" where
  "addObservedVersion version s =
     (if gv_Version version = [] \<or> gv_Version version = APIVersionInternal then s
      else if version \<in> set (observedVersions s) then s
      else s\<lparr>observedVersions := observedVersions s @ [version]\<rparr>)"

text \<open>Reading a missing key of a map of slices gives the nil slice.\<close>

definition kinds_of :: "scheme \<Rightarrow> reflect_type \<Rightarrow> group_version_kind list" where
  "kinds_of s t = (case go_get (typeToGVK s) t of None \<Rightarrow> [] | Some gvks \<Rightarrow> gvks)"

text \<open>An object is passed as its \<open>reflect.TypeOf\<close>; the operations do not look at its fields.\<close>

definition AddKnownTypeWithName :: "group_version_kind \<Rightarrow> reflect_type \<Rightarrow> scheme \<Rightarrow> scheme result" where
  "AddKnownTypeWithName gvk obj s0 =
     (let s = addObservedVersion (gvk_GroupVersion gvk) s0
      in if gvk_Version gvk = [] then Abort ''version is required on all types''
         else (case obj of
             Ptr (Struct pkg name) \<Rightarrow>
               let t = Struct pkg name
               in if (case go_get (gvkToType s) gvk of None \<Rightarrow> False | Some oldT \<Rightarrow> oldT \<noteq> t)
                  then Abort ''Double registration of different types''
                  else let s' = s\<lparr>gvkToType := go_put gvk t (gvkToType s)\<rparr>
                       in if gvk \<in> set (kinds_of s' t) then Ok s'
                          else Ok (s'\<lparr>typeToGVK := go_put t (kinds_of s' t @ [gvk]) (typeToGVK s')\<rparr>)
           | _ \<Rightarrow> Abort ''All types must be pointers to structs.''))"

fun known_types_loop :: "group_version \<Rightarrow> reflect_type list \<Rightarrow> scheme \<Rightarrow> scheme result" where
  "known_types_loop gv [] s = Ok s"
| "known_types_loop gv (obj # types) s =
     (case obj of
        Ptr t \<Rightarrow> bind_result (AddKnownTypeWithName (WithKind gv (type_Name t)) obj s) (known_types_loop gv types)
      | _ \<Rightarrow> Abort ''All types must be pointers to structs.'')"

definition AddKnownTypes :: "group_version \<Rightarrow> reflect_type list \<Rightarrow> scheme \<Rightarrow> scheme result" where
  "AddKnownTypes gv types s = known_types_loop gv types (addObservedVersion gv s)"

fun unversioned_types_loop :: "group_version \<Rightarrow> reflect_type list \<Rightarrow> scheme \<Rightarrow> scheme result" where
  "unversioned_types_loop version [] s = Ok s"
| "unversioned_types_loop version (obj # types) s =
     (case obj of
        Ptr t \<Rightarrow>
          let gvk = WithKind version (type_Name t);
              s' = s\<lparr>unversionedTypes := go_put t gvk (unversionedTypes s)\<rparr>
          in if (case go_get (unversionedKinds s') (gvk_Kind gvk) of None \<Rightarrow> False | Some old \<Rightarrow> t \<noteq> old)
             then Abort ''already registered as unversioned kind''
             else unversioned_types_loop version types
                    (s'\<lparr>unversionedKinds := go_put (gvk_Kind gvk) t (unversionedKinds s')\<rparr>)
      | _ \<Rightarrow> Abort ''reflect: Elem of invalid type'')"

definition AddUnversionedTypes :: "group_version \<Rightarrow> reflect_type list \<Rightarrow> scheme \<Rightarrow> scheme result" where
  "AddUnversionedTypes version types s =
     bind_result (AddKnownTypes version types (addObservedVersion version s)) (unversioned_types_loop version types)"

text \<open>\<open>SetVersionPriority\<close> wants versions of exactly one group, none of them internal.\<close>

fun internal_version :: "group_version list \<Rightarrow> group_version option" where
  "internal_version [] = None"
| "internal_version (version # versions) =
     (if gv_Version version = [] \<or> gv_Version version = APIVersionInternal then Some version
      else internal_version versions)"

definition SetVersionPriority :: "group_version list \<Rightarrow> scheme \<Rightarrow> scheme result" where
  "SetVersionPriority versions s =
     (case internal_version versions of
        Some version \<Rightarrow> Err (Errorf ''internal versions cannot be prioritized: %v'' [gv_String version] [])
      | None \<Rightarrow>
          (case sort (remdups (map gv_Group versions)) of
             [g] \<Rightarrow> Ok (s\<lparr>versionPriority := go_put g (map gv_Version versions) (versionPriority s)\<rparr>)
           | gs \<Rightarrow> Err (Errorf ''must register versions for exactly one group: %v''
                      [concat (map (\<lambda>g. g @ '', '') (butlast gs)) @ (if gs = [] then [] else last gs)] [])))"

text \<open>\<open>SchemeBuilder.AddToScheme\<close>, and \<open>utilruntime.Must\<close>, which panics on an error.\<close>

fun AddToScheme :: "(scheme \<Rightarrow> scheme result) list \<Rightarrow> scheme \<Rightarrow> scheme result" where
  "AddToScheme [] s = Ok s"
| "AddToScheme (f # sb) s = bind_result (f s) (AddToScheme sb)"

fun Must :: "'a result \<Rightarrow> 'a result" where
  "Must (Ok x) = Ok x"
| "Must (Err err) = Abort (error_text err)"
| "Must (Abort e) = Abort e"

section \<open>Queries\<close>

definition ObjectKinds :: "reflect_type \<Rightarrow> scheme \<Rightarrow> (group_version_kind list \<times> bool) result" where
  "ObjectKinds obj s =
     (case obj of
        Ptr t \<Rightarrow>
          (case go_get (typeToGVK s) t of
             None \<Rightarrow> Err (Errorf ''no kind is registered for the type %v in scheme %q'' [type_text t, schemeName s] [])
           | Some gvks \<Rightarrow> Ok (gvks, go_get (unversionedTypes s) t \<noteq> None))
      | _ \<Rightarrow> Err (Errorf ''expected pointer, but got %v type'' [type_text obj] []))"

definition Recognizes :: "group_version_kind \<Rightarrow> scheme \<Rightarrow> bool" where
  "Recognizes gvk s \<longleftrightarrow> go_get (gvkToType s) gvk \<noteq> None"

definition NewNotRegisteredErrForKind :: "string \<Rightarrow> group_version_kind \<Rightarrow> go_error" where
  "NewNotRegisteredErrForKind name gvk =
     (if gvk_Kind gvk = [] then
        Errorf ''no version %q has been registered in scheme %q'' [gv_String (gvk_GroupVersion gvk), name] []
      else if gvk_Version gvk = APIVersionInternal then
        Errorf ''no kind %q is registered for the internal version of group %q in scheme %q''
          [gvk_Kind gvk, gvk_Group gvk, name] []
      else Errorf ''no kind %q is registered for version %q in scheme %q''
          [gvk_Kind gvk, gv_String (gvk_GroupVersion gvk), name] [])"

text \<open>\<open>New\<close> makes an object of a type; here it returns the type the pointer has.\<close>

definition scheme_New :: "group_version_kind \<Rightarrow> scheme \<Rightarrow> reflect_type result" where
  "scheme_New kind s =
     (case go_get (gvkToType s) kind of
        Some t \<Rightarrow> Ok (Ptr t)
      | None \<Rightarrow>
          (case go_get (unversionedKinds s) (gvk_Kind kind) of
             Some t \<Rightarrow> Ok (Ptr t)
           | None \<Rightarrow> Err (NewNotRegisteredErrForKind (schemeName s) kind)))"

fun observed_loop :: "string \<Rightarrow> group_version list \<Rightarrow> group_version list \<Rightarrow> group_version list" where
  "observed_loop g [] ret = ret"
| "observed_loop g (observedVersion # vs) ret =
     (if gv_Group observedVersion \<noteq> g then observed_loop g vs ret
      else observed_loop g vs (if observedVersion \<in> set ret then ret else ret @ [observedVersion]))"

definition PrioritizedVersionsForGroup :: "string \<Rightarrow> scheme \<Rightarrow> group_version list" where
  "PrioritizedVersionsForGroup g s =
     observed_loop g (observedVersions s)
       (map (\<lambda>v. \<lparr>gv_Group = g, gv_Version = v\<rparr>)
         (case go_get (versionPriority s) g of None \<Rightarrow> [] | Some vs \<Rightarrow> vs))"

definition IsGroupRegistered :: "string \<Rightarrow> scheme \<Rightarrow> bool" where
  "IsGroupRegistered g s \<longleftrightarrow> (\<exists>v \<in> set (observedVersions s). gv_Group v = g)"

definition IsVersionRegistered :: "group_version \<Rightarrow> scheme \<Rightarrow> bool" where
  "IsVersionRegistered version s \<longleftrightarrow> version \<in> set (observedVersions s)"

section \<open>Consistency\<close>

text \<open>
  The two maps are inverse to each other, a kind has a version, and that version has been observed
  unless it is the internal one.
\<close>

definition scheme_wf :: "scheme \<Rightarrow> bool" where
  "scheme_wf s \<longleftrightarrow>
     (\<forall>k t. go_get (gvkToType s) k = Some t \<longleftrightarrow> k \<in> set (kinds_of s t)) \<and>
     (\<forall>t. distinct (kinds_of s t) \<and> go_get (typeToGVK s) t \<noteq> Some []) \<and>
     (\<forall>k \<in> dom (go_get (gvkToType s)).
        gvk_Version k \<noteq> [] \<and>
        (gvk_Version k = APIVersionInternal \<or> gvk_GroupVersion k \<in> set (observedVersions s))) \<and>
     (\<forall>t k. go_get (unversionedTypes s) t = Some k \<longrightarrow> k \<in> set (kinds_of s t)) \<and>
     (\<forall>n t. go_get (unversionedKinds s) n = Some t \<longrightarrow> (\<exists>k \<in> set (kinds_of s t). gvk_Kind k = n)) \<and>
     distinct (observedVersions s) \<and>
     (\<forall>v \<in> set (observedVersions s). gv_Version v \<noteq> [] \<and> gv_Version v \<noteq> APIVersionInternal)"

lemma scheme_wf_New: "scheme_wf (NewScheme name)"
  by (simp add: scheme_wf_def NewScheme_def kinds_of_def)

lemma addObserved_simps [simp]:
  "gvkToType (addObservedVersion v s) = gvkToType s" "typeToGVK (addObservedVersion v s) = typeToGVK s"
  "unversionedTypes (addObservedVersion v s) = unversionedTypes s"
  "unversionedKinds (addObservedVersion v s) = unversionedKinds s"
  "versionPriority (addObservedVersion v s) = versionPriority s"
  "schemeName (addObservedVersion v s) = schemeName s"
  "kinds_of (addObservedVersion v s) = kinds_of s"
  by (simp_all add: addObservedVersion_def kinds_of_def fun_eq_iff)

lemma observed_after:
  "set (observedVersions (addObservedVersion v s)) =
     set (observedVersions s) \<union> (if gv_Version v = [] \<or> gv_Version v = APIVersionInternal then {} else {v})"
  by (auto simp: addObservedVersion_def)

lemma scheme_wf_observed: "scheme_wf s \<Longrightarrow> scheme_wf (addObservedVersion v s)"
proof -
  assume "scheme_wf s"
  moreover have "distinct (observedVersions s) \<Longrightarrow> distinct (observedVersions (addObservedVersion v s))"
    by (simp add: addObservedVersion_def)
  ultimately show ?thesis
    unfolding scheme_wf_def addObserved_simps observed_after by auto
qed

text \<open>What a registration keeps: the types of kinds, the kinds of types (in order), the versions.\<close>

definition scheme_extends :: "scheme \<Rightarrow> scheme \<Rightarrow> bool" where
  "scheme_extends s s' \<longleftrightarrow>
     go_get (gvkToType s) \<subseteq>\<^sub>m go_get (gvkToType s') \<and>
     (\<forall>t. \<exists>ks. kinds_of s' t = kinds_of s t @ ks) \<and>
     set (observedVersions s) \<subseteq> set (observedVersions s')"

lemma scheme_extends_refl [simp]: "scheme_extends s s"
  by (simp add: scheme_extends_def)

lemma scheme_extends_trans: "scheme_extends s s' \<Longrightarrow> scheme_extends s' s'' \<Longrightarrow> scheme_extends s s''"
  unfolding scheme_extends_def by (metis append_assoc map_le_trans order_trans)

lemma scheme_extends_observed: "scheme_extends s (addObservedVersion v s)"
  by (auto simp: scheme_extends_def observed_after)

lemma kinds_of_simps [simp]:
  "kinds_of (s\<lparr>gvkToType := m\<rparr>) = kinds_of s"
  "kinds_of (s\<lparr>unversionedTypes := u\<rparr>) = kinds_of s" "kinds_of (s\<lparr>unversionedKinds := n\<rparr>) = kinds_of s"
  "kinds_of (s\<lparr>versionPriority := p\<rparr>) = kinds_of s"
  "kinds_of (s\<lparr>typeToGVK := go_put t ks (typeToGVK s)\<rparr>) = (kinds_of s)(t := ks)"
  by (simp_all add: kinds_of_def fun_eq_iff)

lemma AddKnownTypeWithName_Ok:
  assumes "AddKnownTypeWithName gvk obj s = Ok s'"
  obtains pkg name where "obj = Ptr (Struct pkg name)" and "gvk_Version gvk \<noteq> []"
    and "go_get (gvkToType s) gvk = None \<or> go_get (gvkToType s) gvk = Some (Struct pkg name)"
    and "s' = (let s1 = (addObservedVersion (gvk_GroupVersion gvk) s)
                          \<lparr>gvkToType := go_put gvk (Struct pkg name) (gvkToType s)\<rparr>;
                   ks = kinds_of s (Struct pkg name)
               in if gvk \<in> set ks then s1
                  else s1\<lparr>typeToGVK := go_put (Struct pkg name) (ks @ [gvk]) (typeToGVK s)\<rparr>)"
proof -
  from assms obtain pkg name where obj: "obj = Ptr (Struct pkg name)"
    by (auto simp: AddKnownTypeWithName_def Let_def split: if_splits reflect_type.splits)
  show thesis
    using assms by (intro that [OF obj]) (auto simp: obj AddKnownTypeWithName_def Let_def split: if_splits option.splits)
qed

lemma known_type_wf:
  assumes "AddKnownTypeWithName gvk obj s = Ok s'" and "scheme_wf s"
  shows "scheme_wf s' \<and> scheme_extends s s' \<and> (\<exists>t. obj = Ptr t \<and> gvk \<in> set (kinds_of s' t)) \<and>
    unversionedTypes s' = unversionedTypes s \<and> unversionedKinds s' = unversionedKinds s"
  using assms(1)
proof (rule AddKnownTypeWithName_Ok)
  fix pkg name
  let ?t = "Struct pkg name" and ?s1 = "addObservedVersion (gvk_GroupVersion gvk) s"
  assume obj: "obj = Ptr ?t" and version: "gvk_Version gvk \<noteq> []"
    and free: "go_get (gvkToType s) gvk = None \<or> go_get (gvkToType s) gvk = Some ?t"
    and s': "s' = (let s1 = ?s1\<lparr>gvkToType := go_put gvk ?t (gvkToType s)\<rparr>; ks = kinds_of s ?t
               in if gvk \<in> set ks then s1 else s1\<lparr>typeToGVK := go_put ?t (ks @ [gvk]) (typeToGVK s)\<rparr>)"
  have map: "gvkToType s' = go_put gvk ?t (gvkToType s)" by (simp add: s' Let_def)
  have kinds: "kinds_of s' = (if gvk \<in> set (kinds_of s ?t) then kinds_of s
      else (kinds_of s)(?t := kinds_of s ?t @ [gvk]))"
    by (simp add: s' Let_def kinds_of_def fun_eq_iff)
  have rest: "unversionedTypes s' = unversionedTypes s" "unversionedKinds s' = unversionedKinds s"
    "observedVersions s' = observedVersions ?s1"
    by (simp_all add: s' Let_def)
  have wf1: "scheme_wf ?s1" using assms(2) by (rule scheme_wf_observed)
  have both: "go_get (gvkToType s) k = Some t \<longleftrightarrow> k \<in> set (kinds_of s t)" for k t
    using assms(2) by (simp add: scheme_wf_def)
  have inverse: "go_get (gvkToType s') k = Some t \<longleftrightarrow> k \<in> set (kinds_of s' t)" for k t
    using free by (auto simp: map kinds both [symmetric])
  have distinct: "distinct (kinds_of s' t)" "go_get (typeToGVK s') t \<noteq> Some []" for t
    using assms(2) by (auto simp: kinds scheme_wf_def) (auto simp: s' Let_def split: if_splits)
  have versions: "gvk_Version k \<noteq> [] \<and> (gvk_Version k = APIVersionInternal \<or>
      gvk_GroupVersion k \<in> set (observedVersions s'))" if k: "k \<in> dom (go_get (gvkToType s'))" for k
  proof (cases "k = gvk")
    case True
    then show ?thesis using version by (simp add: rest observed_after) (simp add: gvk_GroupVersion_def)
  next
    case False
    then have "k \<in> dom (go_get (gvkToType ?s1))" using k by (auto simp: map)
    then show ?thesis using wf1 unfolding scheme_wf_def rest by blast
  qed
  have more: "set (kinds_of s t) \<subseteq> set (kinds_of s' t)" for t by (auto simp: kinds)
  have "scheme_wf s'"
    using wf1 inverse distinct versions more unfolding scheme_wf_def rest addObserved_simps by blast
  moreover have "scheme_extends s s'"
    using free by (auto simp: scheme_extends_def map kinds rest observed_after map_le_def dom_def)
  moreover have "gvk \<in> set (kinds_of s' ?t)" by (simp add: kinds)
  ultimately show ?thesis using obj rest by blast
qed

lemma scheme_extends_kinds: "scheme_extends s s' \<Longrightarrow> k \<in> set (kinds_of s t) \<Longrightarrow> k \<in> set (kinds_of s' t)"
  unfolding scheme_extends_def by (metis Un_iff set_append)

lemma known_types_loop_wf:
  "known_types_loop gv types s = Ok s' \<Longrightarrow> scheme_wf s \<Longrightarrow>
   scheme_wf s' \<and> scheme_extends s s' \<and>
   (\<forall>obj \<in> set types. \<exists>t. obj = Ptr t \<and> WithKind gv (type_Name t) \<in> set (kinds_of s' t))"
proof (induction types arbitrary: s)
  case (Cons obj types)
  then obtain t s1 where obj: "obj = Ptr t"
    and s1: "AddKnownTypeWithName (WithKind gv (type_Name t)) obj s = Ok s1"
    and rest: "known_types_loop gv types s1 = Ok s'"
    by (auto split: reflect_type.splits)
  have one: "scheme_wf s1" "scheme_extends s s1" "WithKind gv (type_Name t) \<in> set (kinds_of s1 t)"
    using known_type_wf [OF s1 Cons.prems(2)] obj by auto
  have more: "scheme_wf s'" "scheme_extends s1 s'"
    "\<forall>obj \<in> set types. \<exists>t. obj = Ptr t \<and> WithKind gv (type_Name t) \<in> set (kinds_of s' t)"
    using Cons.IH [OF rest one(1)] by auto
  then show ?case using one obj scheme_extends_trans scheme_extends_kinds by (auto 0 3)
qed simp

lemma scheme_wf_unversioned:
  assumes "scheme_wf s" and "WithKind gv (type_Name t) \<in> set (kinds_of s t)"
  shows "scheme_wf (s\<lparr>unversionedTypes := go_put t (WithKind gv (type_Name t)) (unversionedTypes s),
    unversionedKinds := go_put (type_Name t) t (unversionedKinds s)\<rparr>)"
proof -
  have "\<exists>k \<in> set (kinds_of s t). gvk_Kind k = type_Name t" using assms(2) by force
  with assms show ?thesis by (simp add: scheme_wf_def)
qed

lemma unversioned_loop_wf:
  "unversioned_types_loop gv types s = Ok s' \<Longrightarrow> scheme_wf s \<Longrightarrow>
   \<forall>obj \<in> set types. \<exists>t. obj = Ptr t \<and> WithKind gv (type_Name t) \<in> set (kinds_of s t) \<Longrightarrow>
   scheme_wf s' \<and> scheme_extends s s'"
proof (induction types arbitrary: s)
  case (Cons obj types)
  then obtain t where obj: "obj = Ptr t" and t: "WithKind gv (type_Name t) \<in> set (kinds_of s t)" by auto
  let ?s1 = "s\<lparr>unversionedTypes := go_put t (WithKind gv (type_Name t)) (unversionedTypes s),
    unversionedKinds := go_put (type_Name t) t (unversionedKinds s)\<rparr>"
  have "unversioned_types_loop gv types ?s1 = Ok s'"
    using Cons.prems(1) by (simp add: obj Let_def split: if_splits)
  moreover have "scheme_wf ?s1" using Cons.prems(2) t by (rule scheme_wf_unversioned)
  ultimately have "scheme_wf s' \<and> scheme_extends ?s1 s'" using Cons.IH [of ?s1] Cons.prems(3) by simp
  then show ?case by (simp add: scheme_extends_def)
qed simp

lemma AddKnownTypes_wf:
  assumes "AddKnownTypes gv types s = Ok s'" and "scheme_wf s"
  shows "scheme_wf s' \<and> scheme_extends s s' \<and>
    (\<forall>obj \<in> set types. \<exists>t. obj = Ptr t \<and> WithKind gv (type_Name t) \<in> set (kinds_of s' t))"
  using known_types_loop_wf [OF assms(1) [unfolded AddKnownTypes_def] scheme_wf_observed [OF assms(2)]]
    scheme_extends_trans [OF scheme_extends_observed] by blast

lemma AddUnversionedTypes_wf:
  assumes "AddUnversionedTypes gv types s = Ok s'" and "scheme_wf s"
  shows "scheme_wf s' \<and> scheme_extends s s'"
proof -
  obtain s1 where s1: "AddKnownTypes gv types (addObservedVersion gv s) = Ok s1"
    and s': "unversioned_types_loop gv types s1 = Ok s'"
    using assms(1) by (auto simp: AddUnversionedTypes_def)
  note known = AddKnownTypes_wf [OF s1 scheme_wf_observed [OF assms(2)]]
  have "scheme_wf s' \<and> scheme_extends s1 s'" using unversioned_loop_wf [OF s'] known by simp
  then show ?thesis using known scheme_extends_trans scheme_extends_observed by meson
qed

lemma SetVersionPriority_Ok:
  assumes "SetVersionPriority versions s = Ok s'"
  obtains g where "\<forall>v \<in> set versions. gv_Group v = g" and "versions \<noteq> []"
    and "s' = s\<lparr>versionPriority := go_put g (map gv_Version versions) (versionPriority s)\<rparr>"
proof -
  from assms obtain g where g: "sort (remdups (map gv_Group versions)) = [g]"
    and s': "s' = s\<lparr>versionPriority := go_put g (map gv_Version versions) (versionPriority s)\<rparr>"
    by (auto simp: SetVersionPriority_def split: option.splits list.splits)
  have "gv_Group ` set versions = {g}" using arg_cong [OF g, of set] by simp
  then show thesis using s' by (intro that [of g]) auto
qed

text \<open>What can be registered with a scheme, in any order and any number of times.\<close>

datatype registration =
    KnownTypes group_version "reflect_type list"
  | KnownTypeWithName group_version_kind reflect_type
  | UnversionedTypes group_version "reflect_type list"
  | VersionPriority "group_version list"

fun register :: "registration \<Rightarrow> scheme \<Rightarrow> scheme result" where
  "register (KnownTypes gv types) = AddKnownTypes gv types"
| "register (KnownTypeWithName gvk obj) = AddKnownTypeWithName gvk obj"
| "register (UnversionedTypes gv types) = AddUnversionedTypes gv types"
| "register (VersionPriority versions) = SetVersionPriority versions"

lemma register_wf:
  assumes "register r s = Ok s'" and "scheme_wf s"
  shows "scheme_wf s' \<and> scheme_extends s s'"
proof (cases r)
  case (VersionPriority versions)
  then have "SetVersionPriority versions s = Ok s'" using assms(1) by simp
  then show ?thesis by (rule SetVersionPriority_Ok) (use assms(2) in \<open>simp add: scheme_wf_def scheme_extends_def\<close>)
qed (use assms AddKnownTypes_wf known_type_wf AddUnversionedTypes_wf in auto)

lemma AddToScheme_append [simp]: "AddToScheme (fs @ gs) s = bind_result (AddToScheme fs s) (AddToScheme gs)"
  by (induction fs arbitrary: s) (auto split: result.splits, metis bind_result.simps result.exhaust)

lemma registered_wf:
  "AddToScheme (map register rs) s = Ok s' \<Longrightarrow> scheme_wf s \<Longrightarrow> scheme_wf s' \<and> scheme_extends s s'"
  by (induction rs arbitrary: s) (auto dest: register_wf intro: scheme_extends_trans)

lemma set_observed_loop:
  "set (observed_loop g vs ret) = set ret \<union> {v \<in> set vs. gv_Group v = g}"
  by (induction g vs ret rule: observed_loop.induct) auto

lemma New_recognized: "Recognizes k s \<Longrightarrow> scheme_New k s = Ok obj \<longleftrightarrow> (\<exists>t. obj = Ptr t \<and> go_get (gvkToType s) k = Some t)"
  by (auto simp: Recognizes_def scheme_New_def)

lemma ObjectKinds_Ok:
  "ObjectKinds obj s = Ok (ks, u) \<longleftrightarrow>
     (\<exists>t. obj = Ptr t \<and> go_get (typeToGVK s) t = Some ks \<and> u = (go_get (unversionedTypes s) t \<noteq> None))"
  by (auto simp: ObjectKinds_def split: reflect_type.splits option.splits)

lemma kinds_of_Some: "ks \<noteq> [] \<Longrightarrow> kinds_of s t = ks \<longleftrightarrow> go_get (typeToGVK s) t = Some ks"
  by (auto simp: kinds_of_def split: option.splits)

lemma wf_New_kinds:
  assumes "scheme_wf s" and "Recognizes k s" and "scheme_New k s = Ok obj"
  shows "\<exists>ks u. ObjectKinds obj s = Ok (ks, u) \<and> k \<in> set ks"
proof -
  obtain t where obj: "obj = Ptr t" and k: "k \<in> set (kinds_of s t)"
    using assms New_recognized by (auto simp: scheme_wf_def)
  then have "go_get (typeToGVK s) t = Some (kinds_of s t)" by (intro kinds_of_Some [THEN iffD1]) auto
  then show ?thesis using obj k by (auto simp: ObjectKinds_Ok)
qed

lemma wf_kinds_New:
  assumes "scheme_wf s" and "ObjectKinds obj s = Ok (ks, u)"
  shows "ks \<noteq> [] \<and> distinct ks \<and> (\<forall>k \<in> set ks. scheme_New k s = Ok obj)"
proof -
  obtain t where obj: "obj = Ptr t" and t: "go_get (typeToGVK s) t = Some ks"
    using assms(2) by (auto simp: ObjectKinds_Ok)
  then have ks: "kinds_of s t = ks" by (simp add: kinds_of_def)
  have "go_get (gvkToType s) k = Some t" if "k \<in> set ks" for k
    using assms(1) ks that by (simp add: scheme_wf_def)
  moreover have "ks \<noteq> []" "distinct ks" using assms(1) t ks by (auto simp: scheme_wf_def)
  ultimately show ?thesis using obj by (simp add: scheme_New_def)
qed

lemma wf_versions:
  assumes "scheme_wf s" and "Recognizes k s" and "gvk_Version k \<noteq> APIVersionInternal"
  shows "gvk_GroupVersion k \<in> set (PrioritizedVersionsForGroup (gvk_Group k) s)"
proof -
  have "k \<in> dom (go_get (gvkToType s))" using assms(2) by (auto simp: Recognizes_def)
  then have "gvk_GroupVersion k \<in> set (observedVersions s)"
    using assms(1,3) unfolding scheme_wf_def by blast
  then show ?thesis by (simp add: PrioritizedVersionsForGroup_def set_observed_loop gvk_GroupVersion_def)
qed

lemma scheme_extends_New:
  assumes "scheme_extends s s'" and "Recognizes k s"
  shows "scheme_New k s' = scheme_New k s"
proof -
  have "go_get (gvkToType s') k = go_get (gvkToType s) k"
    using assms by (auto simp: scheme_extends_def Recognizes_def map_le_def dom_def)
  then show ?thesis using assms(2) by (auto simp: Recognizes_def scheme_New_def)
qed

text \<open>
  C27: A scheme is consistent, whatever has been registered with it and in whatever order. An object made
  for a kind the scheme recognises has that kind among its kinds; an object with kinds has no kind
  twice, and making an object of any of them gives an object of the same type; the version of a kind,
  unless it is the internal one, is among the versions of its group; and no later registration changes
  what a kind makes.
\<close>

theorem scheme_consistent:
  assumes "AddToScheme (map register rs) (NewScheme name) = Ok s"
  shows "(\<forall>k obj. Recognizes k s \<and> scheme_New k s = Ok obj \<longrightarrow>
      (\<exists>ks u. ObjectKinds obj s = Ok (ks, u) \<and> k \<in> set ks)) \<and>
    (\<forall>obj ks u. ObjectKinds obj s = Ok (ks, u) \<longrightarrow>
      ks \<noteq> [] \<and> distinct ks \<and> (\<forall>k \<in> set ks. scheme_New k s = Ok obj)) \<and>
    (\<forall>k. Recognizes k s \<longrightarrow> gvk_Version k = APIVersionInternal \<or>
      gvk_GroupVersion k \<in> set (PrioritizedVersionsForGroup (gvk_Group k) s)) \<and>
    (\<forall>rs' s' k. AddToScheme (map register rs') s = Ok s' \<and> Recognizes k s \<longrightarrow> scheme_New k s' = scheme_New k s)"
  using registered_wf [OF assms scheme_wf_New] registered_wf wf_New_kinds wf_kinds_New wf_versions scheme_extends_New
  by blast

theorem scheme_consistent_witness:
  "\<exists>s. AddToScheme (map register
       [KnownTypes \<lparr>gv_Group = ''g'', gv_Version = ''v1''\<rparr> [Ptr (Struct ''p'' ''A'')],
        VersionPriority [\<lparr>gv_Group = ''g'', gv_Version = ''v1''\<rparr>]]) (NewScheme ''s'') = Ok s \<and>
     (\<exists>ks u. ObjectKinds (Ptr (Struct ''p'' ''A'')) s = Ok (ks, u) \<and> distinct ks)"
proof -
  obtain s where s: "AddToScheme (map register
       [KnownTypes \<lparr>gv_Group = ''g'', gv_Version = ''v1''\<rparr> [Ptr (Struct ''p'' ''A'')],
        VersionPriority [\<lparr>gv_Group = ''g'', gv_Version = ''v1''\<rparr>]]) (NewScheme ''s'') = Ok s"
    and known: "ObjectKinds (Ptr (Struct ''p'' ''A'')) s =
      Ok ([\<lparr>gvk_Group = ''g'', gvk_Version = ''v1'', gvk_Kind = ''A''\<rparr>], False)"
    by (simp add: AddKnownTypes_def AddKnownTypeWithName_def SetVersionPriority_def NewScheme_def WithKind_def
        addObservedVersion_def APIVersionInternal_def kinds_of_def gvk_GroupVersion_def Let_def ObjectKinds_def)
  from scheme_consistent [OF s] known s show ?thesis by metis
qed

end
