(* ===== verification/Scheme_Init.thy ===== *)
theory Scheme_Init
  imports Runtime_Scheme Api_Server_Correct
begin

text \<open>
  The scheme of the API server (\<open>apiserver.go\<close>): the registrations of \<open>init\<close>, with the vendored
  \<open>install\<close> and \<open>register\<close> files of \<open>k8s.io/metrics\<close> and \<open>metav1.AddToGroupVersion\<close>. The lemmas show
  that the scheme so filled knows what installing the two APIs needs.
\<close>

section \<open>Types\<close>

text \<open>Package paths are those of the imports; that they are below \<open>vendor\<close> shows in panics only.\<close>

definition custom_pkg :: string where
  "custom_pkg = ''k8s.io/metrics/pkg/apis/custom_metrics''"

definition external_pkg :: string where
  "external_pkg = ''k8s.io/metrics/pkg/apis/external_metrics''"

definition metav1_pkg :: string where
  "metav1_pkg = ''k8s.io/apimachinery/pkg/apis/meta/v1''"

definition ptrs :: "string \<Rightarrow> string list \<Rightarrow> reflect_type list" where
  "ptrs pkg names = map (\<lambda>n. Ptr (Struct pkg n)) names"

section \<open>Registration\<close>

definition metav1_AddToGroupVersion :: "group_version \<Rightarrow> scheme \<Rightarrow> scheme result" where
  "metav1_AddToGroupVersion groupVersion s =
     bind_result (AddKnownTypeWithName (WithKind groupVersion ''WatchEvent'') (Ptr (Struct metav1_pkg ''WatchEvent'')) s) (\<lambda>s.
     bind_result (AddKnownTypeWithName
         (WithKind \<lparr>gv_Group = gv_Group groupVersion, gv_Version = APIVersionInternal\<rparr> ''WatchEvent'')
         (Ptr (Struct metav1_pkg ''InternalEvent'')) s) (\<lambda>s.
     bind_result (AddKnownTypes groupVersion
         (ptrs metav1_pkg [''ListOptions'', ''ExportOptions'', ''GetOptions'', ''DeleteOptions'', ''CreateOptions'',
           ''UpdateOptions'']) s)
       (AddUnversionedTypes \<lparr>gv_Group = [], gv_Version = ''v1''\<rparr>
         (ptrs metav1_pkg [''Status'', ''APIVersions'', ''APIGroupList'', ''APIGroup'', ''APIResourceList'']))))"

definition custom_addKnownTypes :: "scheme \<Rightarrow> scheme result" where
  "custom_addKnownTypes =
     AddKnownTypes \<lparr>gv_Group = custom_GroupName, gv_Version = APIVersionInternal\<rparr>
       (ptrs custom_pkg [''MetricValue'', ''MetricValueList'', ''MetricListOptions''])"

text \<open>The two external versions of the custom metrics group register alike.\<close>

definition custom_version :: "string \<Rightarrow> group_version" where
  "custom_version v = \<lparr>gv_Group = custom_GroupName, gv_Version = v\<rparr>"

definition custom_version_addKnownTypes :: "string \<Rightarrow> scheme \<Rightarrow> scheme result" where
  "custom_version_addKnownTypes v s =
     bind_result (AddKnownTypes (custom_version v)
         (ptrs (custom_pkg @ ''/'' @ v) [''MetricValue'', ''MetricValueList'', ''MetricListOptions'']) s)
       (metav1_AddToGroupVersion (custom_version v))"

definition external_addKnownTypes :: "scheme \<Rightarrow> scheme result" where
  "external_addKnownTypes =
     AddKnownTypes \<lparr>gv_Group = external_GroupName, gv_Version = APIVersionInternal\<rparr>
       (ptrs external_pkg [''ExternalMetricValue'', ''ExternalMetricValueList''])"

definition external_v1beta1_addKnownTypes :: "scheme \<Rightarrow> scheme result" where
  "external_v1beta1_addKnownTypes s =
     bind_result (AddKnownTypes \<lparr>gv_Group = external_GroupName, gv_Version = ''v1beta1''\<rparr>
         (ptrs (external_pkg @ ''/v1beta1'') [''ExternalMetricValue'', ''ExternalMetricValueList'']) s)
       (metav1_AddToGroupVersion \<lparr>gv_Group = external_GroupName, gv_Version = ''v1beta1''\<rparr>)"

definition cminstall_Install :: "scheme \<Rightarrow> scheme result" where
  "cminstall_Install s =
     bind_result (Must (AddToScheme [custom_addKnownTypes] s)) (\<lambda>s.
     bind_result (Must (AddToScheme [custom_version_addKnownTypes ''v1beta2''] s)) (\<lambda>s.
     bind_result (Must (AddToScheme [custom_version_addKnownTypes ''v1beta1''] s)) (\<lambda>s.
       Must (SetVersionPriority [custom_version ''v1beta1'', custom_version ''v1beta2''] s))))"

definition eminstall_Install :: "scheme \<Rightarrow> scheme result" where
  "eminstall_Install s =
     bind_result (Must (AddToScheme [external_addKnownTypes] s)) (\<lambda>s.
     bind_result (Must (AddToScheme [external_v1beta1_addKnownTypes] s)) (\<lambda>s.
       Must (SetVersionPriority [\<lparr>gv_Group = external_GroupName, gv_Version = ''v1beta1''\<rparr>] s)))"

definition apiserver_init :: "scheme \<Rightarrow> scheme result" where
  "apiserver_init s =
     bind_result (cminstall_Install s) (\<lambda>s.
     bind_result (eminstall_Install s) (\<lambda>s.
     bind_result (metav1_AddToGroupVersion \<lparr>gv_Group = [], gv_Version = ''v1''\<rparr> s)
       (AddUnversionedTypes \<lparr>gv_Group = [], gv_Version = ''v1''\<rparr>
         (ptrs metav1_pkg [''Status'', ''APIVersions'', ''APIGroupList'', ''APIGroup'', ''APIResourceList'']))))"

section \<open>Registrations that succeed\<close>

text \<open>
  Registrations that give a kind the type a function \<open>f\<close> says, and an unversioned kind the type of that
  name in \<open>metav1\<close>, cannot clash.
\<close>

definition follows :: "(group_version_kind \<Rightarrow> reflect_type) \<Rightarrow> group_version set \<Rightarrow> scheme \<Rightarrow> bool" where
  "follows f V s \<longleftrightarrow> scheme_wf s \<and>
     (\<forall>k t. go_get (gvkToType s) k = Some t \<longrightarrow> t = f k) \<and>
     (\<forall>n t. go_get (unversionedKinds s) n = Some t \<longrightarrow> t = Struct metav1_pkg n) \<and>
     (\<forall>t \<in> dom (go_get (unversionedTypes s)). type_PkgPath t = metav1_pkg) \<and>
     set (observedVersions s) \<subseteq> V"

definition succeeds ::
  "(group_version_kind \<Rightarrow> reflect_type) \<Rightarrow> group_version set \<Rightarrow> (scheme \<Rightarrow> scheme result) \<Rightarrow>
   group_version_kind list \<Rightarrow> bool" where
  "succeeds f V reg ks \<longleftrightarrow>
     (\<forall>s. follows f V s \<longrightarrow>
        (\<exists>s'. reg s = Ok s' \<and> follows f V s' \<and> scheme_extends s s' \<and> versionPriority s' = versionPriority s \<and>
              schemeName s' = schemeName s \<and> (\<forall>k \<in> set ks. Recognizes k s')))"

lemma succeedsD:
  assumes "succeeds f V reg ks" and "follows f V s"
  obtains s' where "reg s = Ok s'" and "follows f V s'" and "scheme_extends s s'"
    and "versionPriority s' = versionPriority s" and "schemeName s' = schemeName s"
    and "\<forall>k \<in> set ks. Recognizes k s'"
  using assms unfolding succeeds_def by blast

lemma scheme_extends_Recognizes: "scheme_extends s s' \<Longrightarrow> Recognizes k s \<Longrightarrow> Recognizes k s'"
  by (force simp: scheme_extends_def Recognizes_def map_le_def dom_def)

lemma succeeds_Ok: "succeeds f V Ok []"
  by (simp add: succeeds_def)

lemma succeeds_bind:
  assumes "succeeds f V reg ks" and "succeeds f V reg' ks'"
  shows "succeeds f V (\<lambda>s. bind_result (reg s) reg') (ks @ ks')"
  unfolding succeeds_def
proof (intro allI impI)
  fix s assume "follows f V s"
  with assms(1) obtain s1 where s1: "reg s = Ok s1" "follows f V s1" "scheme_extends s s1"
    "versionPriority s1 = versionPriority s" "schemeName s1 = schemeName s" "\<forall>k \<in> set ks. Recognizes k s1"
    by (rule succeedsD)
  from assms(2) s1(2) obtain s2 where s2: "reg' s1 = Ok s2" "follows f V s2" "scheme_extends s1 s2"
    "versionPriority s2 = versionPriority s1" "schemeName s2 = schemeName s1" "\<forall>k \<in> set ks'. Recognizes k s2"
    by (rule succeedsD)
  show "\<exists>s'. bind_result (reg s) reg' = Ok s' \<and> follows f V s' \<and> scheme_extends s s' \<and>
      versionPriority s' = versionPriority s \<and> schemeName s' = schemeName s \<and>
      (\<forall>k \<in> set (ks @ ks'). Recognizes k s')"
  proof (intro exI conjI)
    show "scheme_extends s s2" using s1(3) s2(3) by (rule scheme_extends_trans)
    show "\<forall>k \<in> set (ks @ ks'). Recognizes k s2"
      using s1(6) s2(6) scheme_extends_Recognizes [OF s2(3)] by (auto simp only: set_append Un_iff)
  qed (simp_all only: s1(1,4,5) s2(1,2,4,5) bind_result.simps)
qed

lemma succeeds_known_type:
  assumes "f gvk = Struct pkg name" and "gvk_Version gvk \<noteq> []"
    and "gvk_Version gvk = APIVersionInternal \<or> gvk_GroupVersion gvk \<in> V"
  shows "succeeds f V (AddKnownTypeWithName gvk (Ptr (Struct pkg name))) [gvk]"
  unfolding succeeds_def
proof (intro allI impI)
  fix s assume s: "follows f V s"
  then have free: "go_get (gvkToType s) gvk = None \<or> go_get (gvkToType s) gvk = Some (Struct pkg name)"
    using assms(1) by (cases "go_get (gvkToType s) gvk") (auto simp: follows_def)
  then obtain s' where s': "AddKnownTypeWithName gvk (Ptr (Struct pkg name)) s = Ok s'"
    using assms(2)
    by (cases "gvk \<in> set (kinds_of s (Struct pkg name))") (auto simp: AddKnownTypeWithName_def Let_def)
  note known = known_type_wf [OF s']
  have wf: "scheme_wf s" using s by (simp add: follows_def)
  have map: "gvkToType s' = go_put gvk (Struct pkg name) (gvkToType s)"
    and rest: "versionPriority s' = versionPriority s" "schemeName s' = schemeName s"
      "observedVersions s' = observedVersions (addObservedVersion (gvk_GroupVersion gvk) s)"
    using s' by (auto elim!: AddKnownTypeWithName_Ok simp: Let_def)
  have "follows f V s'"
    using s known wf assms by (auto simp: follows_def map rest observed_after gvk_GroupVersion_def)
  then show "\<exists>s'. AddKnownTypeWithName gvk (Ptr (Struct pkg name)) s = Ok s' \<and> follows f V s' \<and> scheme_extends s s' \<and>
      versionPriority s' = versionPriority s \<and> schemeName s' = schemeName s \<and> (\<forall>k \<in> set [gvk]. Recognizes k s')"
    using s' known wf rest by (auto simp: Recognizes_def map)
qed

text \<open>The kinds registered for a group version by a list of names.\<close>

definition kinds_in :: "group_version \<Rightarrow> string list \<Rightarrow> group_version_kind list" where
  "kinds_in gv names = map (WithKind gv) names"

definition registrable :: "group_version set \<Rightarrow> group_version \<Rightarrow> bool" where
  "registrable V gv \<longleftrightarrow> gv_Version gv \<noteq> [] \<and> (gv_Version gv = APIVersionInternal \<or> gv \<in> V)"

lemma registrable_WithKind:
  "registrable V gv \<Longrightarrow> gvk_Version (WithKind gv n) \<noteq> [] \<and>
    (gvk_Version (WithKind gv n) = APIVersionInternal \<or> gvk_GroupVersion (WithKind gv n) \<in> V)"
  by (cases gv) (simp add: registrable_def gvk_GroupVersion_def)

lemma succeeds_observed: "registrable V gv \<Longrightarrow> succeeds f V (\<lambda>s. Ok (addObservedVersion gv s)) []"
  using scheme_wf_observed scheme_extends_observed
  by (auto simp: succeeds_def follows_def registrable_def observed_after)

lemma succeeds_known_types_loop:
  "registrable V gv \<Longrightarrow> \<forall>n \<in> set names. f (WithKind gv n) = Struct pkg n \<Longrightarrow>
   succeeds f V (known_types_loop gv (ptrs pkg names)) (kinds_in gv names)"
proof (induction names)
  case Nil
  then show ?case using succeeds_Ok by (simp add: ptrs_def kinds_in_def)
next
  case (Cons n names)
  have "succeeds f V (AddKnownTypeWithName (WithKind gv n) (Ptr (Struct pkg n))) [WithKind gv n]"
    using Cons.prems registrable_WithKind by (intro succeeds_known_type) auto
  from succeeds_bind [OF this Cons.IH] Cons.prems show ?case
    by (simp add: ptrs_def kinds_in_def)
qed

lemma succeeds_AddKnownTypes:
  assumes "registrable V gv" and "\<forall>n \<in> set names. f (WithKind gv n) = Struct pkg n"
  shows "succeeds f V (AddKnownTypes gv (ptrs pkg names)) (kinds_in gv names)"
  using succeeds_bind [OF succeeds_observed succeeds_known_types_loop] assms
  by (simp add: AddKnownTypes_def [abs_def])

lemma unversioned_loop_follows:
  "follows f V s \<Longrightarrow> \<forall>n \<in> set names. WithKind gv n \<in> set (kinds_of s (Struct metav1_pkg n)) \<Longrightarrow>
   \<exists>s'. unversioned_types_loop gv (ptrs metav1_pkg names) s = Ok s' \<and> follows f V s' \<and> scheme_extends s s' \<and>
     gvkToType s' = gvkToType s \<and> versionPriority s' = versionPriority s \<and> schemeName s' = schemeName s"
proof (induction names arbitrary: s)
  case Nil
  then show ?case by (simp add: ptrs_def)
next
  case (Cons n names)
  let ?t = "Struct metav1_pkg n"
  let ?s1 = "s\<lparr>unversionedTypes := go_put ?t (WithKind gv n) (unversionedTypes s),
    unversionedKinds := go_put n ?t (unversionedKinds s)\<rparr>"
  have n: "WithKind gv (type_Name ?t) \<in> set (kinds_of s ?t)" using Cons.prems(2) by simp
  have "scheme_wf ?s1" using scheme_wf_unversioned [OF _ n] Cons.prems(1) by (simp add: follows_def)
  then have s1: "follows f V ?s1" using Cons.prems(1) by (auto simp: follows_def split: if_splits)
  have "\<forall>n' \<in> set names. WithKind gv n' \<in> set (kinds_of ?s1 (Struct metav1_pkg n'))"
    using Cons.prems(2) by simp
  from Cons.IH [OF s1 this] obtain s' where
    s': "unversioned_types_loop gv (ptrs metav1_pkg names) ?s1 = Ok s'" "follows f V s'" "scheme_extends ?s1 s'"
      "gvkToType s' = gvkToType s" "versionPriority s' = versionPriority s" "schemeName s' = schemeName s"
    by auto
  have "go_get (unversionedKinds s) n = None \<or> go_get (unversionedKinds s) n = Some ?t"
    using Cons.prems(1) by (cases "go_get (unversionedKinds s) n") (auto simp: follows_def)
  then have "unversioned_types_loop gv (ptrs metav1_pkg (n # names)) s = Ok s'"
    using s'(1) by (auto simp: ptrs_def Let_def)
  moreover have "scheme_extends s s'" using s'(3) by (simp add: scheme_extends_def)
  ultimately show ?case using s' by blast
qed

lemma succeeds_AddUnversionedTypes:
  assumes "registrable V gv" and "\<forall>n \<in> set names. f (WithKind gv n) = Struct metav1_pkg n"
  shows "succeeds f V (AddUnversionedTypes gv (ptrs metav1_pkg names)) (kinds_in gv names)"
  unfolding succeeds_def
proof (intro allI impI)
  fix s assume s: "follows f V s"
  have "succeeds f V (\<lambda>s. bind_result (Ok (addObservedVersion gv s)) (AddKnownTypes gv (ptrs metav1_pkg names)))
      ([] @ kinds_in gv names)"
    by (rule succeeds_bind [OF succeeds_observed succeeds_AddKnownTypes]) (use assms in auto)
  from this s obtain s1 where s1: "AddKnownTypes gv (ptrs metav1_pkg names) (addObservedVersion gv s) = Ok s1"
    "follows f V s1" "scheme_extends s s1" "versionPriority s1 = versionPriority s" "schemeName s1 = schemeName s"
    and known: "\<forall>k \<in> set (kinds_in gv names). Recognizes k s1"
    by (rule succeedsD) simp
  have "WithKind gv n \<in> set (kinds_of s1 (Struct metav1_pkg n))" if n: "n \<in> set names" for n
  proof -
    obtain t where t: "go_get (gvkToType s1) (WithKind gv n) = Some t"
      using known n by (auto simp: kinds_in_def Recognizes_def)
    then have "t = Struct metav1_pkg n" using s1(2) assms(2) n unfolding follows_def by metis
    then show ?thesis using t s1(2) by (simp add: follows_def scheme_wf_def)
  qed
  then obtain s2 where s2: "unversioned_types_loop gv (ptrs metav1_pkg names) s1 = Ok s2" "follows f V s2"
    "scheme_extends s1 s2" "versionPriority s2 = versionPriority s1" "schemeName s2 = schemeName s1"
    using unversioned_loop_follows [OF s1(2)] by blast
  then show "\<exists>s'. AddUnversionedTypes gv (ptrs metav1_pkg names) s = Ok s' \<and> follows f V s' \<and> scheme_extends s s' \<and>
      versionPriority s' = versionPriority s \<and> schemeName s' = schemeName s \<and>
      (\<forall>k \<in> set (kinds_in gv names). Recognizes k s')"
    using s1 known scheme_extends_trans scheme_extends_Recognizes
    by (intro exI [of _ s2]) (auto simp: AddUnversionedTypes_def)
qed

lemma succeeds_install:
  assumes "succeeds f V reg ks"
  shows "succeeds f V (\<lambda>s. Must (AddToScheme [reg] s)) ks"
  unfolding succeeds_def
proof (intro allI impI)
  fix s assume "follows f V s"
  with assms show "\<exists>s'. Must (AddToScheme [reg] s) = Ok s' \<and> follows f V s' \<and> scheme_extends s s' \<and>
      versionPriority s' = versionPriority s \<and> schemeName s' = schemeName s \<and> (\<forall>k \<in> set ks. Recognizes k s')"
    by (rule succeedsD) auto
qed

section \<open>The filled scheme\<close>

definition meta_kinds :: "string list" where
  "meta_kinds = [''WatchEvent'', ''ListOptions'', ''ExportOptions'', ''GetOptions'', ''DeleteOptions'', ''CreateOptions'',
     ''UpdateOptions'', ''Status'', ''APIVersions'', ''APIGroupList'', ''APIGroup'', ''APIResourceList'']"

definition kind_type :: "group_version_kind \<Rightarrow> reflect_type" where
  "kind_type k =
     (if gvk_Kind k = ''WatchEvent'' \<and> gvk_Version k = APIVersionInternal then Struct metav1_pkg ''InternalEvent''
      else if gvk_Kind k \<in> set meta_kinds then Struct metav1_pkg (gvk_Kind k)
      else Struct ((if gvk_Group k = custom_GroupName then custom_pkg
                    else if gvk_Group k = external_GroupName then external_pkg else []) @
                   (if gvk_Version k = APIVersionInternal then [] else ''/'' @ gvk_Version k)) (gvk_Kind k))"

definition core_version :: group_version where
  "core_version = \<lparr>gv_Group = [], gv_Version = ''v1''\<rparr>"

definition external_version :: "string \<Rightarrow> group_version" where
  "external_version v = \<lparr>gv_Group = external_GroupName, gv_Version = v\<rparr>"

definition known_versions :: "group_version set" where
  "known_versions = {custom_version ''v1beta1'', custom_version ''v1beta2'', external_version ''v1beta1'', core_version}"

lemmas version_defs = custom_version_def external_version_def core_version_def

lemma init_registrable:
  "gv \<in> known_versions \<Longrightarrow> registrable known_versions gv"
  "registrable known_versions \<lparr>gv_Group = g, gv_Version = APIVersionInternal\<rparr>"
  by (auto simp: registrable_def known_versions_def version_defs APIVersionInternal_def)

abbreviation init_succeeds :: "(scheme \<Rightarrow> scheme result) \<Rightarrow> group_version_kind list \<Rightarrow> bool" where
  "init_succeeds \<equiv> succeeds kind_type known_versions"

lemma init_meta:
  assumes "gv \<in> known_versions"
  shows "\<exists>ks. WithKind gv ''ListOptions'' \<in> set ks \<and> init_succeeds (metav1_AddToGroupVersion gv) ks"
proof -
  have v: "gv_Version gv \<noteq> APIVersionInternal"
    using assms by (auto simp: known_versions_def version_defs APIVersionInternal_def)
  let ?internal = "\<lparr>gv_Group = gv_Group gv, gv_Version = APIVersionInternal\<rparr>"
  let ?options = "[''ListOptions'', ''ExportOptions'', ''GetOptions'', ''DeleteOptions'', ''CreateOptions'', ''UpdateOptions'']"
  let ?unversioned = "[''Status'', ''APIVersions'', ''APIGroupList'', ''APIGroup'', ''APIResourceList'']"
  have watch: "init_succeeds (AddKnownTypeWithName (WithKind gv ''WatchEvent'') (Ptr (Struct metav1_pkg ''WatchEvent'')))
      [WithKind gv ''WatchEvent'']"
    using registrable_WithKind [OF init_registrable(1) [OF assms]] v
    by (intro succeeds_known_type) (simp_all add: kind_type_def meta_kinds_def)
  have internal: "init_succeeds (AddKnownTypeWithName (WithKind ?internal ''WatchEvent'')
      (Ptr (Struct metav1_pkg ''InternalEvent''))) [WithKind ?internal ''WatchEvent'']"
    by (intro succeeds_known_type) (simp_all add: kind_type_def APIVersionInternal_def)
  have options: "init_succeeds (AddKnownTypes gv (ptrs metav1_pkg ?options)) (kinds_in gv ?options)"
    using v by (intro succeeds_AddKnownTypes init_registrable(1) assms) (simp add: kind_type_def meta_kinds_def)
  have core: "core_version \<in> known_versions" by (simp add: known_versions_def)
  have unversioned: "init_succeeds (AddUnversionedTypes core_version (ptrs metav1_pkg ?unversioned))
      (kinds_in core_version ?unversioned)"
    by (intro succeeds_AddUnversionedTypes init_registrable(1) core) (simp add: kind_type_def meta_kinds_def)
  let ?ks = "[WithKind gv ''WatchEvent''] @ [WithKind ?internal ''WatchEvent''] @ kinds_in gv ?options @
    kinds_in core_version ?unversioned"
  have "init_succeeds (metav1_AddToGroupVersion gv) ?ks"
    unfolding metav1_AddToGroupVersion_def core_version_def [symmetric]
    by (intro succeeds_bind watch internal options unversioned)
  moreover have "WithKind gv ''ListOptions'' \<in> set ?ks" by (simp add: kinds_in_def)
  ultimately show ?thesis by blast
qed

lemma init_known_types:
  assumes "gv \<in> known_versions \<or> gv_Version gv = APIVersionInternal" and "set names \<inter> set meta_kinds = {}"
    and "pkg = (if gv_Group gv = custom_GroupName then custom_pkg
      else if gv_Group gv = external_GroupName then external_pkg else []) @
      (if gv_Version gv = APIVersionInternal then [] else ''/'' @ gv_Version gv)"
  shows "init_succeeds (AddKnownTypes gv (ptrs pkg names)) (kinds_in gv names)"
proof (rule succeeds_AddKnownTypes)
  show "registrable known_versions gv"
    using assms(1) init_registrable(1) by (auto simp: registrable_def APIVersionInternal_def)
  have "''WatchEvent'' \<notin> set names" using assms(2) by (auto simp: meta_kinds_def)
  then show "\<forall>n \<in> set names. kind_type (WithKind gv n) = Struct pkg n"
    using assms(2,3) by (auto simp: kind_type_def)
qed

definition metric_kinds :: "string list" where
  "metric_kinds = [''MetricValue'', ''MetricValueList'', ''MetricListOptions'']"

definition external_metric_kinds :: "string list" where
  "external_metric_kinds = [''ExternalMetricValue'', ''ExternalMetricValueList'']"

lemma metric_kinds_disjoint:
  "set metric_kinds \<inter> set meta_kinds = {}" "set external_metric_kinds \<inter> set meta_kinds = {}"
  by (simp_all add: metric_kinds_def external_metric_kinds_def meta_kinds_def)

lemma group_names_differ [simp]: "custom_GroupName \<noteq> external_GroupName" "external_GroupName \<noteq> custom_GroupName"
  by (simp_all add: custom_GroupName_def external_GroupName_def)

lemma init_internal:
  "init_succeeds custom_addKnownTypes (kinds_in (custom_version APIVersionInternal) metric_kinds)"
  "init_succeeds external_addKnownTypes (kinds_in (external_version APIVersionInternal) external_metric_kinds)"
  unfolding custom_addKnownTypes_def external_addKnownTypes_def version_defs
    metric_kinds_def [symmetric] external_metric_kinds_def [symmetric]
  by (rule init_known_types; simp add: metric_kinds_disjoint)+

lemma init_versions:
  assumes "v \<in> {''v1beta1'', ''v1beta2''}"
  shows "\<exists>ks. WithKind (custom_version v) ''ListOptions'' \<in> set ks \<and>
    set (kinds_in (custom_version v) metric_kinds) \<subseteq> set ks \<and> init_succeeds (custom_version_addKnownTypes v) ks"
proof -
  have v: "custom_version v \<in> known_versions" using assms by (auto simp: known_versions_def)
  have i: "v \<noteq> APIVersionInternal" using assms by (auto simp: APIVersionInternal_def)
  obtain ks where ks: "WithKind (custom_version v) ''ListOptions'' \<in> set ks"
    "init_succeeds (metav1_AddToGroupVersion (custom_version v)) ks"
    using init_meta [OF v] by blast
  have "init_succeeds (AddKnownTypes (custom_version v) (ptrs (custom_pkg @ ''/'' @ v) metric_kinds))
      (kinds_in (custom_version v) metric_kinds)"
    using v i by (intro init_known_types metric_kinds_disjoint) (simp_all add: custom_version_def)
  from succeeds_bind [OF this ks(2)]
  have "init_succeeds (custom_version_addKnownTypes v) (kinds_in (custom_version v) metric_kinds @ ks)"
    unfolding custom_version_addKnownTypes_def [abs_def] metric_kinds_def .
  then show ?thesis using ks(1) by (intro exI [of _ "kinds_in (custom_version v) metric_kinds @ ks"]) simp
qed

lemma init_external_version:
  "\<exists>ks. WithKind (external_version ''v1beta1'') ''ListOptions'' \<in> set ks \<and>
    set (kinds_in (external_version ''v1beta1'') external_metric_kinds) \<subseteq> set ks \<and>
    init_succeeds external_v1beta1_addKnownTypes ks"
proof -
  let ?v = "external_version ''v1beta1''"
  have v: "?v \<in> known_versions" by (simp add: known_versions_def)
  obtain ks where ks: "WithKind ?v ''ListOptions'' \<in> set ks" "init_succeeds (metav1_AddToGroupVersion ?v) ks"
    using init_meta [OF v] by blast
  have "init_succeeds (AddKnownTypes ?v (ptrs (external_pkg @ ''/v1beta1'') external_metric_kinds))
      (kinds_in ?v external_metric_kinds)"
    using v by (intro init_known_types metric_kinds_disjoint) (simp_all add: external_version_def APIVersionInternal_def)
  from succeeds_bind [OF this ks(2)]
  have "init_succeeds external_v1beta1_addKnownTypes (kinds_in ?v external_metric_kinds @ ks)"
    unfolding external_v1beta1_addKnownTypes_def [abs_def] external_metric_kinds_def external_version_def .
  then show ?thesis using ks(1) by (intro exI [of _ "kinds_in ?v external_metric_kinds @ ks"]) simp
qed

lemma priority_simps [simp]:
  "follows f V (s\<lparr>versionPriority := p\<rparr>) = follows f V s"
  "scheme_extends s (s'\<lparr>versionPriority := p\<rparr>) = scheme_extends s s'"
  "Recognizes k (s\<lparr>versionPriority := p\<rparr>) = Recognizes k s"
  by (simp_all add: follows_def scheme_extends_def Recognizes_def scheme_wf_def)

lemma SetVersionPriority_group:
  assumes "versions \<noteq> []" and "\<forall>v \<in> set versions. gv_Group v = g \<and> gv_Version v \<noteq> [] \<and> gv_Version v \<noteq> APIVersionInternal"
  shows "SetVersionPriority versions s =
    Ok (s\<lparr>versionPriority := go_put g (map gv_Version versions) (versionPriority s)\<rparr>)"
proof -
  have "internal_version versions = None" using assms(2) by (induction versions) auto
  moreover have "sort (remdups (map gv_Group versions)) = [g]"
  proof -
    obtain v where "v \<in> set versions" using assms(1) by (cases versions) auto
    then have set: "set (map gv_Group versions) = {g}" using assms(2) by force
    then have "length (remdups (map gv_Group versions)) = 1" by (simp only: length_remdups_card_conv) simp
    then obtain g' where g': "remdups (map gv_Group versions) = [g']" by (auto simp: length_Suc_conv)
    have "set [g'] = {g}" using set by (simp only: g' [symmetric] set_remdups)
    then show ?thesis by (simp add: g')
  qed
  ultimately show ?thesis by (simp add: SetVersionPriority_def)
qed

text \<open>The kinds the adapter asks the scheme for.\<close>

definition served_kinds :: "group_version_kind list" where
  "served_kinds =
     kinds_in (custom_version APIVersionInternal) metric_kinds @
     kinds_in (external_version APIVersionInternal) external_metric_kinds @
     kinds_in (custom_version ''v1beta1'') (''ListOptions'' # metric_kinds) @
     kinds_in (custom_version ''v1beta2'') (''ListOptions'' # metric_kinds) @
     kinds_in (external_version ''v1beta1'') (''ListOptions'' # external_metric_kinds)"

lemma cminstall_Install_Ok:
  assumes "follows kind_type known_versions s"
  shows "\<exists>s'. cminstall_Install s = Ok s' \<and> follows kind_type known_versions s' \<and> schemeName s' = schemeName s \<and>
    versionPriority s' = go_put custom_GroupName [''v1beta1'', ''v1beta2''] (versionPriority s) \<and>
    (\<forall>k \<in> set (kinds_in (custom_version APIVersionInternal) metric_kinds @
       kinds_in (custom_version ''v1beta1'') (''ListOptions'' # metric_kinds) @
       kinds_in (custom_version ''v1beta2'') (''ListOptions'' # metric_kinds)). Recognizes k s')"
proof -
  obtain ks2 where v2: "WithKind (custom_version ''v1beta2'') ''ListOptions'' \<in> set ks2"
    "set (kinds_in (custom_version ''v1beta2'') metric_kinds) \<subseteq> set ks2"
    "init_succeeds (custom_version_addKnownTypes ''v1beta2'') ks2"
    using init_versions [of "''v1beta2''"] by auto
  obtain ks1 where v1: "WithKind (custom_version ''v1beta1'') ''ListOptions'' \<in> set ks1"
    "set (kinds_in (custom_version ''v1beta1'') metric_kinds) \<subseteq> set ks1"
    "init_succeeds (custom_version_addKnownTypes ''v1beta1'') ks1"
    using init_versions [of "''v1beta1''"] by auto
  let ?ks = "kinds_in (custom_version APIVersionInternal) metric_kinds @ ks2 @ ks1"
  have "init_succeeds (\<lambda>s. bind_result (Must (AddToScheme [custom_addKnownTypes] s))
      (\<lambda>s. bind_result (Must (AddToScheme [custom_version_addKnownTypes ''v1beta2''] s))
        (\<lambda>s. Must (AddToScheme [custom_version_addKnownTypes ''v1beta1''] s)))) ?ks"
    by (intro succeeds_bind succeeds_install init_internal(1) v1(3) v2(3))
  from this assms obtain s1 where s1: "bind_result (Must (AddToScheme [custom_addKnownTypes] s))
      (\<lambda>s. bind_result (Must (AddToScheme [custom_version_addKnownTypes ''v1beta2''] s))
        (\<lambda>s. Must (AddToScheme [custom_version_addKnownTypes ''v1beta1''] s))) = Ok s1"
    "follows kind_type known_versions s1" "versionPriority s1 = versionPriority s" "schemeName s1 = schemeName s"
    "\<forall>k \<in> set ?ks. Recognizes k s1"
    by (rule succeedsD)
  let ?s' = "s1\<lparr>versionPriority := go_put custom_GroupName [''v1beta1'', ''v1beta2''] (versionPriority s)\<rparr>"
  have "SetVersionPriority [custom_version ''v1beta1'', custom_version ''v1beta2''] s1 = Ok ?s'"
    using SetVersionPriority_group [of "[custom_version ''v1beta1'', custom_version ''v1beta2'']" custom_GroupName s1] s1(3)
    by (simp add: custom_version_def APIVersionInternal_def)
  then have "cminstall_Install s = Ok ?s'" using s1(1) by (auto simp: cminstall_Install_def)
  moreover have "\<forall>k \<in> set (kinds_in (custom_version APIVersionInternal) metric_kinds @
       kinds_in (custom_version ''v1beta1'') (''ListOptions'' # metric_kinds) @
       kinds_in (custom_version ''v1beta2'') (''ListOptions'' # metric_kinds)). Recognizes k s1"
    using s1(5) v1(1,2) v2(1,2) by (auto simp: kinds_in_def)
  ultimately show ?thesis using s1(2,4) by (intro exI [of _ ?s']) simp
qed

lemma eminstall_Install_Ok:
  assumes "follows kind_type known_versions s"
  shows "\<exists>s'. eminstall_Install s = Ok s' \<and> follows kind_type known_versions s' \<and> scheme_extends s s' \<and>
    schemeName s' = schemeName s \<and> versionPriority s' = go_put external_GroupName [''v1beta1''] (versionPriority s) \<and>
    (\<forall>k \<in> set (kinds_in (external_version APIVersionInternal) external_metric_kinds @
       kinds_in (external_version ''v1beta1'') (''ListOptions'' # external_metric_kinds)). Recognizes k s')"
proof -
  obtain ks1 where v1: "WithKind (external_version ''v1beta1'') ''ListOptions'' \<in> set ks1"
    "set (kinds_in (external_version ''v1beta1'') external_metric_kinds) \<subseteq> set ks1"
    "init_succeeds external_v1beta1_addKnownTypes ks1"
    using init_external_version by auto
  let ?ks = "kinds_in (external_version APIVersionInternal) external_metric_kinds @ ks1"
  have "init_succeeds (\<lambda>s. bind_result (Must (AddToScheme [external_addKnownTypes] s))
      (\<lambda>s. Must (AddToScheme [external_v1beta1_addKnownTypes] s))) ?ks"
    by (intro succeeds_bind succeeds_install init_internal(2) v1(3))
  from this assms obtain s1 where s1: "bind_result (Must (AddToScheme [external_addKnownTypes] s))
      (\<lambda>s. Must (AddToScheme [external_v1beta1_addKnownTypes] s)) = Ok s1"
    "follows kind_type known_versions s1" "scheme_extends s s1" "versionPriority s1 = versionPriority s"
    "schemeName s1 = schemeName s" "\<forall>k \<in> set ?ks. Recognizes k s1"
    by (rule succeedsD)
  let ?s' = "s1\<lparr>versionPriority := go_put external_GroupName [''v1beta1''] (versionPriority s)\<rparr>"
  have "SetVersionPriority [external_version ''v1beta1''] s1 = Ok ?s'"
    using SetVersionPriority_group [of "[external_version ''v1beta1'']" external_GroupName s1] s1(4)
    by (simp add: external_version_def APIVersionInternal_def)
  then have "eminstall_Install s = Ok ?s'" using s1(1) by (auto simp: eminstall_Install_def external_version_def)
  moreover have "\<forall>k \<in> set (kinds_in (external_version APIVersionInternal) external_metric_kinds @
       kinds_in (external_version ''v1beta1'') (''ListOptions'' # external_metric_kinds)). Recognizes k s1"
    using s1(6) v1(1,2) by (auto simp: kinds_in_def)
  ultimately show ?thesis using s1(2,3,5) by (intro exI [of _ ?s']) simp
qed

lemma follows_New: "follows kind_type known_versions (NewScheme name)"
  by (simp add: follows_def scheme_wf_New) (simp add: NewScheme_def)

lemma apiserver_init_Ok:
  "\<exists>s. apiserver_init (NewScheme name) = Ok s \<and> follows kind_type known_versions s \<and>
     go_get (versionPriority s) custom_GroupName = Some [''v1beta1'', ''v1beta2''] \<and>
     go_get (versionPriority s) external_GroupName = Some [''v1beta1''] \<and>
     (\<forall>k \<in> set served_kinds. Recognizes k s)"
proof -
  obtain s1 where s1: "cminstall_Install (NewScheme name) = Ok s1" "follows kind_type known_versions s1"
    "versionPriority s1 = go_put custom_GroupName [''v1beta1'', ''v1beta2''] (versionPriority (NewScheme name))"
    "\<forall>k \<in> set (kinds_in (custom_version APIVersionInternal) metric_kinds @
       kinds_in (custom_version ''v1beta1'') (''ListOptions'' # metric_kinds) @
       kinds_in (custom_version ''v1beta2'') (''ListOptions'' # metric_kinds)). Recognizes k s1"
    using cminstall_Install_Ok [OF follows_New] by blast
  obtain s2 where s2: "eminstall_Install s1 = Ok s2" "follows kind_type known_versions s2" "scheme_extends s1 s2"
    "versionPriority s2 = go_put external_GroupName [''v1beta1''] (versionPriority s1)"
    "\<forall>k \<in> set (kinds_in (external_version APIVersionInternal) external_metric_kinds @
       kinds_in (external_version ''v1beta1'') (''ListOptions'' # external_metric_kinds)). Recognizes k s2"
    using eminstall_Install_Ok [OF s1(2)] by blast
  let ?unversioned = "[''Status'', ''APIVersions'', ''APIGroupList'', ''APIGroup'', ''APIResourceList'']"
  have core: "core_version \<in> known_versions" by (simp add: known_versions_def)
  obtain ks where meta: "init_succeeds (metav1_AddToGroupVersion core_version) ks" using init_meta [OF core] by blast
  have "init_succeeds (AddUnversionedTypes core_version (ptrs metav1_pkg ?unversioned))
      (kinds_in core_version ?unversioned)"
    by (intro succeeds_AddUnversionedTypes init_registrable(1) core) (simp add: kind_type_def meta_kinds_def)
  from succeeds_bind [OF meta this] s2(2) obtain s3 where
    s3: "bind_result (metav1_AddToGroupVersion core_version s2)
      (AddUnversionedTypes core_version (ptrs metav1_pkg ?unversioned)) = Ok s3"
    "follows kind_type known_versions s3" "scheme_extends s2 s3" "versionPriority s3 = versionPriority s2"
    by (rule succeedsD)
  have "apiserver_init (NewScheme name) = Ok s3"
    using s1(1) s2(1) s3(1) by (simp add: apiserver_init_def core_version_def)
  moreover have "\<forall>k \<in> set served_kinds. Recognizes k s3"
    using s1(4) s2(3,5) s3(3) scheme_extends_Recognizes unfolding served_kinds_def set_append by blast
  ultimately show ?thesis using s1(3) s2(4) s3(2,4) by auto
qed

lemma followed_kinds:
  assumes "follows f V s"
  shows "Recognizes k s \<Longrightarrow> go_get (gvkToType s) k = Some (f k)"
    and "k \<in> set (kinds_of s t) \<longleftrightarrow> go_get (gvkToType s) k = Some t"
    and "k \<in> set (kinds_of s t) \<Longrightarrow> t = f k"
  using assms by (auto simp: Recognizes_def follows_def scheme_wf_def)

lemma packages_differ:
  "metav1_pkg \<noteq> custom_pkg" "metav1_pkg \<noteq> external_pkg" "custom_pkg \<noteq> external_pkg" "external_pkg \<noteq> custom_pkg"
  "external_pkg @ v \<noteq> custom_pkg" "custom_pkg @ v \<noteq> external_pkg" "CHR ''/'' # v \<noteq> custom_pkg" "CHR ''/'' # v \<noteq> external_pkg"
  "custom_pkg \<noteq> []" "external_pkg \<noteq> []"
  by (simp_all add: metav1_pkg_def custom_pkg_def external_pkg_def)

lemma internal_kind_type:
  assumes "n \<in> set metric_kinds"
  shows "kind_type k = Struct custom_pkg n \<longleftrightarrow> k = WithKind (custom_version APIVersionInternal) n"
proof -
  have "n \<notin> set meta_kinds" "n \<noteq> ''WatchEvent''" "n \<noteq> ''InternalEvent''"
    using assms by (auto simp: metric_kinds_def meta_kinds_def)
  then show ?thesis using packages_differ
    by (cases k) (simp add: kind_type_def custom_version_def WithKind_def, safe)
qed

lemma internal_external_kind_type:
  assumes "n \<in> set external_metric_kinds"
  shows "kind_type k = Struct external_pkg n \<longleftrightarrow> k = WithKind (external_version APIVersionInternal) n"
proof -
  have "n \<notin> set meta_kinds" "n \<noteq> ''WatchEvent''" "n \<noteq> ''InternalEvent''"
    using assms by (auto simp: external_metric_kinds_def meta_kinds_def)
  then show ?thesis using packages_differ
    by (cases k) (simp add: kind_type_def external_version_def WithKind_def, safe)
qed

lemma singleton_list: "distinct xs \<Longrightarrow> (\<And>x. x \<in> set xs \<longleftrightarrow> x = a) \<Longrightarrow> xs = [a]"
  by (cases xs) (auto, metis list.set_intros(1) list.set_intros(2) neq_Nil_conv)

lemma internal_ObjectKinds:
  assumes "follows kind_type known_versions s" and "\<And>k'. kind_type k' = Struct pkg n \<longleftrightarrow> k' = k"
    and "Recognizes k s" and "pkg \<noteq> metav1_pkg"
  shows "ObjectKinds (Ptr (Struct pkg n)) s = Ok ([k], False)"
proof -
  have "go_get (gvkToType s) k = Some (Struct pkg n)"
    using followed_kinds(1) [OF assms(1,3)] assms(2) by metis
  then have "\<And>x. x \<in> set (kinds_of s (Struct pkg n)) \<longleftrightarrow> x = k"
    using followed_kinds(2,3) [OF assms(1)] assms(2) by metis
  moreover have "distinct (kinds_of s (Struct pkg n))" using assms(1) by (simp add: follows_def scheme_wf_def)
  ultimately have "kinds_of s (Struct pkg n) = [k]" by (intro singleton_list)
  moreover have "Struct pkg n \<notin> dom (go_get (unversionedTypes s))"
    using assms(1,4) unfolding follows_def by (metis type_PkgPath.simps(1))
  ultimately show ?thesis by (simp add: ObjectKinds_def kinds_of_def domIff split: option.splits)
qed

lemma observed_loop_same:
  "set [v \<leftarrow> vs. gv_Group v = g] \<subseteq> set ret \<Longrightarrow> observed_loop g vs ret = ret"
  by (induction g vs ret rule: observed_loop.induct) (auto split: if_splits)

lemma init_priorities:
  assumes "follows kind_type known_versions s"
  shows "go_get (versionPriority s) custom_GroupName = Some [''v1beta1'', ''v1beta2''] \<Longrightarrow>
      PrioritizedVersionsForGroup custom_GroupName s = [custom_version ''v1beta1'', custom_version ''v1beta2'']"
    and "go_get (versionPriority s) external_GroupName = Some [''v1beta1''] \<Longrightarrow>
      PrioritizedVersionsForGroup external_GroupName s = [external_version ''v1beta1'']"
proof -
  have known: "v \<in> known_versions" if "v \<in> set (observedVersions s)" for v
    using assms that by (auto simp: follows_def)
  have "custom_GroupName \<noteq> []" "external_GroupName \<noteq> []"
    by (simp_all add: custom_GroupName_def external_GroupName_def)
  then have "v \<in> known_versions \<Longrightarrow> gv_Group v = custom_GroupName \<Longrightarrow>
      v \<in> {custom_version ''v1beta1'', custom_version ''v1beta2''}"
    and "v \<in> known_versions \<Longrightarrow> gv_Group v = external_GroupName \<Longrightarrow> v \<in> {external_version ''v1beta1''}" for v
    unfolding known_versions_def by (auto simp: version_defs)
  with known have seen: "{v \<in> set (observedVersions s). gv_Group v = custom_GroupName} \<subseteq>
      {custom_version ''v1beta1'', custom_version ''v1beta2''}"
    "{v \<in> set (observedVersions s). gv_Group v = external_GroupName} \<subseteq> {external_version ''v1beta1''}"
    by blast+
  show "PrioritizedVersionsForGroup custom_GroupName s = [custom_version ''v1beta1'', custom_version ''v1beta2'']"
    if "go_get (versionPriority s) custom_GroupName = Some [''v1beta1'', ''v1beta2'']"
  proof -
    have "set [v \<leftarrow> observedVersions s. gv_Group v = custom_GroupName] \<subseteq> set [custom_version ''v1beta1'', custom_version ''v1beta2'']"
      using seen(1) by simp
    then have "observed_loop custom_GroupName (observedVersions s) [custom_version ''v1beta1'', custom_version ''v1beta2''] = [custom_version ''v1beta1'', custom_version ''v1beta2'']"
      by (rule observed_loop_same)
    then show ?thesis unfolding PrioritizedVersionsForGroup_def that by (simp add: custom_version_def)
  qed
  show "PrioritizedVersionsForGroup external_GroupName s = [external_version ''v1beta1'']"
    if "go_get (versionPriority s) external_GroupName = Some [''v1beta1'']"
  proof -
    have "set [v \<leftarrow> observedVersions s. gv_Group v = external_GroupName] \<subseteq> set [external_version ''v1beta1'']"
      using seen(2) by simp
    then have "observed_loop external_GroupName (observedVersions s) [external_version ''v1beta1''] = [external_version ''v1beta1'']"
      by (rule observed_loop_same)
    then show ?thesis unfolding PrioritizedVersionsForGroup_def that by (simp add: external_version_def)
  qed
qed

lemma init_New:
  assumes "follows kind_type known_versions s" and "\<forall>k \<in> set served_kinds. Recognizes k s" and "k \<in> set served_kinds"
  shows "scheme_New k s = Ok (Ptr (kind_type k))"
  using followed_kinds(1) [OF assms(1)] assms(2,3) by (simp add: scheme_New_def)

lemma init_ObjectKinds:
  assumes "follows kind_type known_versions s" and "\<forall>k \<in> set served_kinds. Recognizes k s"
  shows "n \<in> set metric_kinds \<Longrightarrow> ObjectKinds (Ptr (Struct custom_pkg n)) s =
      Ok ([WithKind (custom_version APIVersionInternal) n], False)"
    and "n \<in> set external_metric_kinds \<Longrightarrow> ObjectKinds (Ptr (Struct external_pkg n)) s =
      Ok ([WithKind (external_version APIVersionInternal) n], False)"
  using assms(2) packages_differ
  by (intro internal_ObjectKinds assms(1) internal_kind_type internal_external_kind_type;
      auto simp: served_kinds_def kinds_in_def)+

lemma init_types:
  "v \<in> {''v1beta1'', ''v1beta2''} \<Longrightarrow> n \<in> set metric_kinds \<Longrightarrow>
   kind_type (WithKind (custom_version v) n) = Struct (custom_pkg @ ''/'' @ v) n"
  "n \<in> set external_metric_kinds \<Longrightarrow>
   kind_type (WithKind (external_version ''v1beta1'') n) = Struct (external_pkg @ ''/v1beta1'') n"
  "kind_type (WithKind gv ''ListOptions'') = Struct metav1_pkg ''ListOptions''"
  using metric_kinds_disjoint
  by (auto simp: kind_type_def version_defs APIVersionInternal_def meta_kinds_def)

lemma init_served:
  "v \<in> {''v1beta1'', ''v1beta2''} \<Longrightarrow> n \<in> set metric_kinds \<Longrightarrow> WithKind (custom_version v) n \<in> set served_kinds"
  "n \<in> set external_metric_kinds \<Longrightarrow> WithKind (external_version ''v1beta1'') n \<in> set served_kinds"
  "gv \<in> {custom_version ''v1beta1'', custom_version ''v1beta2'', external_version ''v1beta1''} \<Longrightarrow>
   WithKind gv ''ListOptions'' \<in> set served_kinds"
  by (auto simp: served_kinds_def kinds_in_def)

text \<open>
  C10: The scheme of the API server. The registrations of \<open>init\<close> neither panic nor fail. The custom
  metrics group has the versions \<open>v1beta1\<close> and \<open>v1beta2\<close> with the first preferred, the external metrics
  group has \<open>v1beta1\<close>; the internal objects the storages make each have exactly one kind, the internal
  one of their group; and every served version can make the external form of each of them, and the list
  options.
\<close>

theorem init_scheme_known:
  "\<exists>s. apiserver_init (NewScheme name) = Ok s \<and>
     PrioritizedVersionsForGroup custom_GroupName s = [custom_version ''v1beta1'', custom_version ''v1beta2''] \<and>
     PrioritizedVersionsForGroup external_GroupName s = [external_version ''v1beta1''] \<and>
     (\<forall>n \<in> set metric_kinds. ObjectKinds (Ptr (Struct custom_pkg n)) s =
        Ok ([WithKind (custom_version APIVersionInternal) n], False)) \<and>
     (\<forall>n \<in> set external_metric_kinds. ObjectKinds (Ptr (Struct external_pkg n)) s =
        Ok ([WithKind (external_version APIVersionInternal) n], False)) \<and>
     (\<forall>v \<in> {''v1beta1'', ''v1beta2''}. \<forall>n \<in> set metric_kinds.
        scheme_New (WithKind (custom_version v) n) s = Ok (Ptr (Struct (custom_pkg @ ''/'' @ v) n))) \<and>
     (\<forall>n \<in> set external_metric_kinds.
        scheme_New (WithKind (external_version ''v1beta1'') n) s = Ok (Ptr (Struct (external_pkg @ ''/v1beta1'') n))) \<and>
     (\<forall>gv \<in> {custom_version ''v1beta1'', custom_version ''v1beta2'', external_version ''v1beta1''}.
        scheme_New (WithKind gv ''ListOptions'') s = Ok (Ptr (Struct metav1_pkg ''ListOptions'')))"
proof -
  obtain s where s: "apiserver_init (NewScheme name) = Ok s" "follows kind_type known_versions s"
    "go_get (versionPriority s) custom_GroupName = Some [''v1beta1'', ''v1beta2'']"
    "go_get (versionPriority s) external_GroupName = Some [''v1beta1'']"
    "\<forall>k \<in> set served_kinds. Recognizes k s"
    using apiserver_init_Ok by blast
  show ?thesis
    using s(1) init_priorities [OF s(2)] s(3,4) init_ObjectKinds [OF s(2,5)] init_New [OF s(2,5)] init_types
      init_served by (intro exI [of _ s] conjI ballI) auto
qed

theorem init_scheme_known_witness:
  "\<exists>s. apiserver_init (NewScheme ''scheme'') = Ok s \<and>
     hd (PrioritizedVersionsForGroup custom_GroupName s) = custom_version ''v1beta1'' \<and>
     ObjectKinds (Ptr (Struct custom_pkg ''MetricValue'')) s =
       Ok ([WithKind (custom_version APIVersionInternal) ''MetricValue''], False) \<and>
     scheme_New (WithKind (custom_version ''v1beta2'') ''MetricValueList'') s =
       Ok (Ptr (Struct (custom_pkg @ ''/'' @ ''v1beta2'') ''MetricValueList''))"
proof -
  have kinds: "''MetricValue'' \<in> set metric_kinds" "''MetricValueList'' \<in> set metric_kinds"
    and v: "''v1beta2'' \<in> {''v1beta1'', ''v1beta2''}"
    by (simp_all add: metric_kinds_def)
  from init_scheme_known [of "''scheme''"] obtain s where
    init: "apiserver_init (NewScheme ''scheme'') = Ok s"
    and versions: "PrioritizedVersionsForGroup custom_GroupName s = [custom_version ''v1beta1'', custom_version ''v1beta2'']"
    and known: "\<forall>n \<in> set metric_kinds. ObjectKinds (Ptr (Struct custom_pkg n)) s =
        Ok ([WithKind (custom_version APIVersionInternal) n], False)"
      "\<forall>v \<in> {''v1beta1'', ''v1beta2''}. \<forall>n \<in> set metric_kinds.
        scheme_New (WithKind (custom_version v) n) s = Ok (Ptr (Struct (custom_pkg @ ''/'' @ v) n))"
    by blast
  then show ?thesis using bspec [OF known(1) kinds(1)] bspec [OF bspec [OF known(2) v] kinds(2)] by auto
qed

section \<open>The scheme the two installations see\<close>

fun object_type :: "runtime_object \<Rightarrow> reflect_type" where
  "object_type (MetricValueObject v) = Ptr (Struct custom_pkg ''MetricValue'')"
| "object_type (MetricValueListObject l) = Ptr (Struct custom_pkg ''MetricValueList'')"
| "object_type (ExternalMetricValueObject v) = Ptr (Struct external_pkg ''ExternalMetricValue'')"
| "object_type (ExternalMetricValueListObject l) = Ptr (Struct external_pkg ''ExternalMetricValueList'')"
| "object_type NilMetricValueList = Ptr (Struct custom_pkg ''MetricValueList'')"
| "object_type NilExternalMetricValueList = Ptr (Struct external_pkg ''ExternalMetricValueList'')"

fun nil_object :: "runtime_object \<Rightarrow> bool" where
  "nil_object NilMetricValueList = True"
| "nil_object NilExternalMetricValueList = True"
| "nil_object obj = False"

text \<open>
  \<open>ConvertFieldLabel\<close>: no conversion function is registered for a field label, so for every kind it is
  the default. The label is quoted as it is, without the escapes of \<open>%q\<close>.
\<close>

definition DefaultMetaV1FieldSelectorConversion :: "string \<Rightarrow> string \<Rightarrow> (string \<times> string) result" where
  "DefaultMetaV1FieldSelectorConversion label val =
     (if label = ''metadata.name'' \<or> label = ''metadata.namespace'' then Ok (label, val)
      else Err (OtherError ([CHR 0x22] @ label @ [CHR 0x22] @ '' is not a known field selector: only '' @
             [CHR 0x22] @ ''metadata.name'' @ [CHR 0x22] @ '', '' @ [CHR 0x22] @ ''metadata.namespace'' @ [CHR 0x22])))"

text \<open>
  What \<open>reflect.New\<close> makes of a type, for reflection: a pointer to a value of it, whose fields and
  documentation (\<open>SwaggerDoc\<close>) depend on the type.
\<close>

fun new_object ::
  "(reflect_type \<Rightarrow> struct_field list) \<Rightarrow> (reflect_type \<Rightarrow> (string, string) go_map option) \<Rightarrow> reflect_type \<Rightarrow> go_object" where
  "new_object flds docs (Ptr (Struct pkg n)) =
     Pointer (StructValue (type_text (Struct pkg n)) (flds (Struct pkg n))) (docs (Struct pkg n))"
| "new_object flds docs (Ptr t) = Pointer (OtherValue (type_text t)) (docs t)"
| "new_object flds docs t = NotPointer (OtherValue (type_text t))"

definition api_scheme ::
  "(reflect_type \<Rightarrow> struct_field list) \<Rightarrow> (reflect_type \<Rightarrow> (string, string) go_map option) \<Rightarrow>
   (string \<times> bool) list \<Rightarrow> scheme \<Rightarrow> runtime_scheme" where
  "api_scheme flds docs mediaTypes s =
     \<lparr>sch_PrioritizedVersionsForGroup = (\<lambda>g. PrioritizedVersionsForGroup g s),
      sch_ObjectKinds = (\<lambda>obj.
        if nil_object obj then Err (Errorf ''expected pointer, but got nil'' [] [])
        else bind_result (ObjectKinds (object_type obj) s) (\<lambda>(ks, unversioned). Ok ks)),
      sch_TypeOf = (\<lambda>obj. type_text (object_type obj)),
      sch_New = (\<lambda>k. bind_result (scheme_New k s) (\<lambda>t. Ok (new_object flds docs t))),
      sch_SupportedMediaTypes = mediaTypes,
      sch_ConvertFieldLabel = (\<lambda>k. DefaultMetaV1FieldSelectorConversion)\<rparr>"

lemma api_scheme_simps [simp]:
  "sch_PrioritizedVersionsForGroup (api_scheme flds docs mediaTypes s) g = PrioritizedVersionsForGroup g s"
  "\<not> nil_object obj \<Longrightarrow> sch_ObjectKinds (api_scheme flds docs mediaTypes s) obj =
     bind_result (ObjectKinds (object_type obj) s) (\<lambda>(ks, unversioned). Ok ks)"
  "sch_New (api_scheme flds docs mediaTypes s) k =
     bind_result (scheme_New k s) (\<lambda>t. Ok (new_object flds docs t))"
  by (simp_all add: api_scheme_def)

lemma metric_kinds_in [simp]:
  "''MetricValue'' \<in> set metric_kinds" "''MetricValueList'' \<in> set metric_kinds"
  "''ExternalMetricValue'' \<in> set external_metric_kinds" "''ExternalMetricValueList'' \<in> set external_metric_kinds"
  by (simp_all add: metric_kinds_def external_metric_kinds_def)

lemma resolvesI: "versioned_objects (newDynamicInstaller g) = Ok (k, vl, Pointer v d) \<Longrightarrow> resolves g"
  by (simp add: resolves_def)

lemma init_schemes:
  "\<exists>s. apiserver_init (NewScheme name) = Ok s \<and>
     custom_scheme (api_scheme flds docs mediaTypes s) ''v1beta1'' \<and>
     external_scheme (api_scheme flds docs mediaTypes s) ''v1beta1'' \<and>
     (\<forall>prov. \<exists>vl v d. versioned_objects (newDynamicInstaller (cmAPI prov
          (NewDefaultAPIGroupInfo custom_GroupName (api_scheme flds docs mediaTypes s)) (custom_version ''v1beta1''))) =
        Ok (WithKind (custom_version ''v1beta1'') ''MetricValue'', vl, Pointer v d))"
proof -
  obtain s where s: "apiserver_init (NewScheme name) = Ok s" "follows kind_type known_versions s"
    "go_get (versionPriority s) custom_GroupName = Some [''v1beta1'', ''v1beta2'']"
    "go_get (versionPriority s) external_GroupName = Some [''v1beta1'']"
    "\<forall>k \<in> set served_kinds. Recognizes k s"
    using apiserver_init_Ok by blast
  let ?scheme = "api_scheme flds docs mediaTypes s"
  note versions = init_priorities(1) [OF s(2,3)] init_priorities(2) [OF s(2,4)]
  have new: "scheme_New k s = Ok (Ptr (kind_type k))" if "k \<in> set served_kinds" for k
    using s(2,5) that by (rule init_New)
  note facts = init_ObjectKinds [OF s(2,5)] new init_types init_served
  note defs = resolves_def versioned_objects_def getResourceKind_def cmAPI_def emAPI_def
    api_group_version_of_def NewDefaultAPIGroupInfo_def gvk_Empty_def indirectArbitraryPointer_def
  have kind: "\<exists>vl v d. versioned_objects (newDynamicInstaller (cmAPI prov
      (NewDefaultAPIGroupInfo custom_GroupName ?scheme) (custom_version ''v1beta1''))) =
    Ok (WithKind (custom_version ''v1beta1'') ''MetricValue'', vl, Pointer v d)" for prov
    by (simp add: defs facts) (simp add: custom_version_def facts [unfolded custom_version_def])
  then have "resolves (cmAPI example_provider (NewDefaultAPIGroupInfo custom_GroupName ?scheme) (custom_version ''v1beta1''))"
    by (meson resolvesI)
  moreover have "resolves (emAPI no_external (NewDefaultAPIGroupInfo external_GroupName ?scheme) (external_version ''v1beta1''))"
    by (simp add: defs facts) (simp add: external_version_def)
  moreover have "plain_element ''v1beta1''" by (simp add: plain_element_def)
  ultimately show ?thesis
    using s(1) versions kind by (simp add: custom_scheme_def external_scheme_def) (simp add: version_defs)
qed

lemma init_scheme_Ok:
  assumes "apiserver_init (NewScheme name) = Ok sc"
  shows "custom_scheme (api_scheme flds docs mediaTypes sc) ''v1beta1''"
    and "external_scheme (api_scheme flds docs mediaTypes sc) ''v1beta1''"
  using init_schemes [of name flds docs mediaTypes] assms by auto

end
