(* ===== verification/Server_Dispatch.thy ===== *)
theory Server_Dispatch
  imports Scheme_Init Container_Dispatch
begin

text \<open>
  Requests in the container of a new server: which service and handler a path below an API
  reaches, among the services the generic server and the adapter have added.
\<close>

section \<open>Roots in normal form\<close>

text \<open>A root path of segments that are not template variables, with one slash before each.\<close>

definition normal_root :: "string \<Rightarrow> bool" where
  "normal_root r \<longleftrightarrow> (\<exists>ts. r = CHR ''/'' # join_byte (CHR ''/'') ts \<and>
     (\<forall>t \<in> set ts. segment t \<and> \<not> has_prefix t ''{''))"

lemma tokenize_joined: "\<forall>t \<in> set ts. segment t \<Longrightarrow> tokenizePath (CHR ''/'' # join_byte (CHR ''/'') ts) = ts"
  by (cases "ts = []") (simp add: tokenizePath_def, rule tokenizePath_segments)

lemma normal_rootD:
  assumes "normal_root r"
  shows "r = CHR ''/'' # join_byte (CHR ''/'') (tokenizePath r)"
    and "\<forall>t \<in> set (tokenizePath r). segment t \<and> \<not> has_prefix t ''{''"
  using assms tokenize_joined by (auto simp: normal_root_def)

lemma normal_root_plain: "normal_root (ws_rootPath w) \<Longrightarrow> plain_root w"
  using normal_rootD(2) by (simp add: plain_root_def root_tokens_def)

lemma normal_roots_distinct:
  assumes "\<forall>w \<in> set ws. normal_root (ws_rootPath w)" and "distinct (map ws_rootPath ws)"
  shows "distinct (map root_tokens ws)"
proof -
  have "inj_on tokenizePath (ws_rootPath ` set ws)"
    using assms(1) normal_rootD(1) by (intro inj_onI) (metis image_iff)
  moreover have "map root_tokens ws = map tokenizePath (map ws_rootPath ws)"
    by (simp add: root_tokens_def)
  ultimately show ?thesis using assms(2) by (simp only: distinct_map) simp
qed

lemma api_root_joined: "version_root gv = CHR ''/'' # join_byte (CHR ''/'') (api_root gv)"
  "group_root gv = CHR ''/'' # join_byte (CHR ''/'') [''apis'', gv_Group gv]"
  by (simp_all add: version_root_def group_root_def api_root_def)

lemma normal_api_roots:
  assumes "segment (gv_Group gv)" and "segment (gv_Version gv)"
    and "\<not> has_prefix (gv_Group gv) ''{''" and "\<not> has_prefix (gv_Version gv) ''{''"
  shows "normal_root (version_root gv)" and "normal_root (group_root gv)"
    and "tokenizePath (version_root gv) = api_root gv" and "tokenizePath (group_root gv) = [''apis'', gv_Group gv]"
proof -
  have "\<forall>t \<in> set (api_root gv). segment t \<and> \<not> has_prefix t ''{''"
    "\<forall>t \<in> set [''apis'', gv_Group gv]. segment t \<and> \<not> has_prefix t ''{''"
    using assms by (simp_all add: api_root_def segment_def has_prefix_def)
  then show "normal_root (version_root gv)" "normal_root (group_root gv)"
    "tokenizePath (version_root gv) = api_root gv" "tokenizePath (group_root gv) = [''apis'', gv_Group gv]"
    using tokenize_joined unfolding api_root_joined normal_root_def by blast+
qed

text \<open>A root that begins with the tokens of a group begins with the group's path.\<close>

lemma prefix_group_root:
  assumes "normal_root r" and "prefix [''apis'', g] (tokenizePath r)"
  shows "has_prefix r (''/apis/'' @ g)"
proof -
  obtain ts where "tokenizePath r = ''apis'' # g # ts"
    using assms(2) by (auto simp: prefix_def)
  with normal_rootD(1) [OF assms(1)] have "r = CHR ''/'' # join_byte (CHR ''/'') (''apis'' # g # ts)" by simp
  then show ?thesis by (cases ts) (simp_all add: has_prefix_def)
qed

section \<open>The services of a new server\<close>

lemma step_containers:
  assumes "custom_step scheme cv cm base base'" and "external_step scheme ev em base' s"
  shows "\<exists>rest. gs_Container s = gs_Container base' @ rest"
  using assms by (cases em) (auto simp: external_step_def adds_api_def Let_def)

text \<open>
  Where the service of a version is detected: every other root that begins the path is shorter.
\<close>

lemma version_root_longest:
  assumes "w \<in> set ws" and "root_tokens w = api_root gv"
    and "\<forall>v \<in> set ws. prefix [''apis'', gv_Group gv] (root_tokens v) \<longrightarrow> length (root_tokens v) \<le> 3"
  shows "longest_root (api_root gv @ segs) ws w"
proof -
  have "length (root_tokens v) \<le> 3"
    if "v \<in> set ws" and p: "prefix (root_tokens v) (api_root gv @ segs)" for v
  proof (rule ccontr)
    assume "\<not> length (root_tokens v) \<le> 3"
    then have "length (api_root gv) \<le> length (root_tokens v)" by (simp add: api_root_def)
    then have "prefix (api_root gv) (root_tokens v)"
      using prefix_length_prefix [of "api_root gv" "api_root gv @ segs" "root_tokens v"] p by simp
    moreover have "prefix [''apis'', gv_Group gv] (api_root gv)" by (simp add: api_root_def)
    ultimately have "prefix [''apis'', gv_Group gv] (root_tokens v)" by (rule prefix_order.trans [rotated])
    with assms(3) that(1) \<open>\<not> length (root_tokens v) \<le> 3\<close> show False by blast
  qed
  then have "\<forall>v \<in> set ws. prefix (root_tokens v) (api_root gv @ segs) \<longrightarrow>
      length (root_tokens v) \<le> length (root_tokens w)"
    unfolding assms(2) by (simp add: api_root_def numeral_3_eq_3)
  then show ?thesis using assms(1,2) by (simp add: longest_root_def)
qed

text \<open>A base server whose services have different roots in normal form.\<close>

definition normal_container :: "generic_api_server \<Rightarrow> bool" where
  "normal_container base \<longleftrightarrow>
     distinct (server_roots base) \<and> (\<forall>r \<in> set (server_roots base). normal_root r)"

text \<open>The roots of a new server: those of the base, and two for each of the two APIs it has.\<close>

definition added_roots :: "group_version list \<Rightarrow> string list" where
  "added_roots gvs = concat (map (\<lambda>gv. [version_root gv, group_root gv]) gvs)"

definition served_versions ::
  "custom_metrics_provider option \<Rightarrow> external_metrics_provider option \<Rightarrow> string \<Rightarrow> string \<Rightarrow> group_version list" where
  "served_versions cm em cv ev =
     (if cm = None then [] else [custom_gv cv]) @ (if em = None then [] else [external_gv ev])"

lemma step_roots:
  assumes "custom_step scheme cv cm base base'" and "external_step scheme ev em base' s"
  shows "server_roots s = server_roots base @ added_roots (served_versions cm em cv ev)"
  using custom_stepD(1) [OF assms(1)] external_stepD(1) [OF assms(2)]
  by (simp add: added_roots_def served_versions_def)

lemma new_container:
  assumes "normal_container base" and "without_metrics base"
    and "custom_step scheme cv cm base base'" and "external_step scheme ev em base' s"
    and "plain_element cv" and "literal cv" and "plain_element ev" and "literal ev"
  shows "(\<forall>w \<in> set (gs_Container s). plain_root w) \<and> distinct (map root_tokens (gs_Container s)) \<and>
    (\<forall>v \<in> set (gs_Container s). prefix [''apis'', custom_GroupName] (root_tokens v) \<or>
       prefix [''apis'', external_GroupName] (root_tokens v) \<longrightarrow> length (root_tokens v) \<le> 3)"
proof -
  note roots = step_roots [OF assms(3,4)]
  have names: "segment custom_GroupName" "segment external_GroupName" "\<not> has_prefix custom_GroupName ''{''"
    "\<not> has_prefix external_GroupName ''{''" "custom_GroupName \<noteq> external_GroupName"
    by (simp_all add: custom_GroupName_def external_GroupName_def segment_def has_prefix_def)
  have versions: "segment cv" "segment ev" "\<not> has_prefix cv ''{''" "\<not> has_prefix ev ''{''"
    using assms(5-8) plain_segment by (simp_all add: literal_def)
  have added: "normal_root (version_root (custom_gv cv))" "normal_root (group_root (custom_gv cv))"
    "normal_root (version_root (external_gv ev))" "normal_root (group_root (external_gv ev))"
    "tokenizePath (version_root (custom_gv cv)) = [''apis'', custom_GroupName, cv]"
    "tokenizePath (group_root (custom_gv cv)) = [''apis'', custom_GroupName]"
    "tokenizePath (version_root (external_gv ev)) = [''apis'', external_GroupName, ev]"
    "tokenizePath (group_root (external_gv ev)) = [''apis'', external_GroupName]"
    using normal_api_roots [of "custom_gv cv"] normal_api_roots [of "external_gv ev"] names versions
    by (simp_all add: custom_gv_def external_gv_def api_root_def)
  have away: "\<not> prefix [''apis'', custom_GroupName] (tokenizePath r)" "\<not> prefix [''apis'', external_GroupName] (tokenizePath r)"
    if "r \<in> set (server_roots base)" for r
    using that assms(1,2) prefix_group_root by (auto simp: normal_container_def without_metrics_def)
  have in_roots: "r \<in> set (server_roots base) \<or> r \<in> {version_root (custom_gv cv), group_root (custom_gv cv),
      version_root (external_gv ev), group_root (external_gv ev)}" if "r \<in> set (server_roots s)" for r
    using that by (auto simp: roots added_roots_def served_versions_def split: if_splits)
  have normal: "\<forall>w \<in> set (gs_Container s). normal_root (ws_rootPath w)"
  proof
    fix w assume "w \<in> set (gs_Container s)"
    then have "ws_rootPath w \<in> set (server_roots s)" by (simp add: server_roots_def)
    then show "normal_root (ws_rootPath w)"
      using in_roots [of "ws_rootPath w"] assms(1) added(1-4) by (auto simp: normal_container_def)
  qed
  have "distinct (map tokenizePath (server_roots s))"
  proof -
    have "distinct (map tokenizePath (server_roots base))"
      using assms(1) normal_rootD(1) unfolding normal_container_def distinct_map
      by (intro conjI inj_onI) (auto, metis)
    moreover have out: "t \<notin> tokenizePath ` set (server_roots base)"
      if "prefix [''apis'', custom_GroupName] t \<or> prefix [''apis'', external_GroupName] t" for t
      using that away by blast
    have "[''apis'', custom_GroupName, cv] \<notin> tokenizePath ` set (server_roots base)"
      "[''apis'', custom_GroupName] \<notin> tokenizePath ` set (server_roots base)"
      "[''apis'', external_GroupName, ev] \<notin> tokenizePath ` set (server_roots base)"
      "[''apis'', external_GroupName] \<notin> tokenizePath ` set (server_roots base)"
      by (rule out; simp)+
    ultimately show ?thesis using added(5-8) names(5)
      by (simp add: roots added_roots_def served_versions_def)
  qed
  then have "distinct (map root_tokens (gs_Container s))"
    by (simp add: server_roots_def root_tokens_def comp_def cong: map_cong)
  moreover have "length (root_tokens v) \<le> 3"
    if "v \<in> set (gs_Container s)" and p: "prefix [''apis'', custom_GroupName] (root_tokens v) \<or>
      prefix [''apis'', external_GroupName] (root_tokens v)" for v
  proof -
    have "ws_rootPath v \<in> set (server_roots s)" using that(1) by (simp add: server_roots_def)
    then have "ws_rootPath v \<in> {version_root (custom_gv cv), group_root (custom_gv cv),
        version_root (external_gv ev), group_root (external_gv ev)}"
      using in_roots p away unfolding root_tokens_def by blast
    then show ?thesis using added(5-8) by (auto simp: root_tokens_def)
  qed
  ultimately show ?thesis using normal normal_root_plain by blast
qed

text \<open>
  The service one installation adds, found among all services of a container, answers the requests below
  its version by its routes: in full when the headers play no part, and with any headers by a handler of one of its
  routes or by a status. The two interpretations of \<open>routed_handlers\<close> give the first assumption.
\<close>

lemma SelectRoute_detected:
  assumes "detectWebService (tokenizePath path) ws = Some w"
    and "snd (SelectRoute rx ws m path contentType accept) = Selected r"
  shows "r \<in> set (ws_routes w)"
proof -
  have "set (selectRoutes rx w (tokenizePath path)) \<subseteq> set (ws_routes w)"
    by (auto simp: selectRoutes_def List.map_filter_def split: option.splits if_splits)
  moreover have picks: "r \<in> set rs" if "detectRoute rs m contentType accept = Selected r" for rs :: "('a, 'b) route list"
  proof -
    let ?ok = "filter (\<lambda>r. matchesAccept r (if length accept = 0 then ''*/*'' else accept))
      (filter (\<lambda>r. matchesContentType r contentType) (filter (\<lambda>r. m = r_Method r) rs))"
    have "?ok \<noteq> [] \<and> r = hd ?ok"
      using that by (auto simp: detectRoute_def Let_def split: if_splits)
    then have "r \<in> set ?ok" using hd_in_set [of ?ok] by auto
    then show ?thesis by simp
  qed
  ultimately show ?thesis
    using assms by (auto simp: SelectRoute_def split: list.splits dest!: picks)
qed

lemma api_requests:
  assumes installed: "\<And>container. \<forall>x \<in> set container. ws_rootPath x \<noteq> ins_prefix (newDynamicInstaller g) \<Longrightarrow>
      \<exists>ws. InstallREST reg g container = (container @ [ws], Ok ()) \<and>
        ws_rootPath ws = CHR ''/'' # join_byte (CHR ''/'') (api_root gv) \<and>
        (\<forall>r \<in> set (ws_routes ws). r_Method r = ''GET'' \<and> r_Function r \<in> set handlers) \<and>
        (\<forall>m path segs. tokenizePath path = api_root gv @ segs \<longrightarrow> selected_handler (route_by_method rx ws m path) = ep m segs)"
    and gv: "agv_GroupVersion (mg_APIGroupVersion g) = gv" and serves: "serves_under_apis g"
    and adds: "adds_api reg g base base'" and "prefix (gs_Container base') ws"
    and roots: "\<forall>w \<in> set ws. plain_root w" "distinct (map root_tokens ws)"
      "\<forall>v \<in> set ws. prefix [''apis'', gv_Group gv] (root_tokens v) \<longrightarrow> length (root_tokens v) \<le> 3"
  shows "\<exists>w \<in> set ws. ws_rootPath w = version_root gv \<and>
    (\<forall>m path segs contentType accept r. tokenizePath path = api_root gv @ segs \<longrightarrow>
       snd (SelectRoute rx ws m path contentType accept) = Selected r \<longrightarrow> r_Function r \<in> set handlers) \<and>
    (\<forall>m path segs accept. tokenizePath path = api_root gv @ segs \<longrightarrow> accepts_any accept \<longrightarrow>
       selected_handler (snd (SelectRoute rx ws m path [] accept)) = ep m segs)"
proof -
  obtain w gws where cont': "gs_Container base' = gs_Container base @ [w, gws]"
    and inst: "InstallREST reg g (gs_Container base) = (gs_Container base @ [w], Ok ())"
    and root: "ws_rootPath w = version_root gv"
    using adds by (auto simp: adds_api_def gv Let_def)
  obtain rest where ws: "ws = gs_Container base @ [w, gws] @ rest"
    using assms(5) cont' by (auto simp: prefix_def)
  then have w: "w \<in> set ws" by simp
  have "ws_rootPath x \<noteq> ins_prefix (newDynamicInstaller g)" if "x \<in> set (gs_Container base)" for x
  proof -
    have "root_tokens w \<notin> root_tokens ` set (gs_Container base)" using roots(2) by (simp add: ws)
    then have "root_tokens x \<noteq> root_tokens w" using that by (metis image_eqI)
    then show ?thesis using root version_root_prefix [OF serves] gv by (auto simp: root_tokens_def)
  qed
  with installed [of "gs_Container base"] inst
  have gets: "\<forall>r \<in> set (ws_routes w). r_Method r = ''GET'' \<and> r_Function r \<in> set handlers"
    and routed: "\<And>m path segs. tokenizePath path = api_root gv @ segs \<Longrightarrow> selected_handler (route_by_method rx w m path) = ep m segs"
    by auto
  have "\<forall>t \<in> set (api_root gv). segment t" using api_root_segments [OF serves] gv by simp
  then have tokens: "root_tokens w = api_root gv"
    using root api_root_joined(1) [of gv] tokenize_joined [of "api_root gv"] by (simp add: root_tokens_def)
  have detect: "detectWebService (tokenizePath path) ws = Some w" if "tokenizePath path = api_root gv @ segs" for path segs
    unfolding that using roots w tokens by (intro longest_root_detected version_root_longest) auto
  have "r_Function r \<in> set handlers"
    if "tokenizePath path = api_root gv @ segs" "snd (SelectRoute rx ws m path contentType accept) = Selected r"
    for m path segs contentType accept r
    using SelectRoute_detected [OF detect [OF that(1)] that(2)] gets by blast
  moreover have "selected_handler (snd (SelectRoute rx ws m path [] accept)) = ep m segs"
    if "tokenizePath path = api_root gv @ segs" "accepts_any accept" for m path segs accept
    using SelectRoute_plain [OF detect [OF that(1)] _ that(2), of rx m] gets routed [OF that(1), of m] by simp
  ultimately show ?thesis using w root by blast
qed

end
