(* ===== verification/Request_Safety.thy ===== *)
theory Request_Safety
  imports Metrics_Rest
begin

text \<open>
  Requests of any form, not only the documented ones: reading the request info stays within the bounds
  of the path's parts, and every request is either refused before the provider is asked or is one
  question to it.
\<close>

section \<open>Bounds\<close>

text \<open>
  \<open>NewRequestInfo\<close> once more, with every index and every slice of \<open>currentParts\<close> checked the way Go checks
  it. Elsewhere the unchecked version is used, which the theorem justifies.
\<close>

definition slice_from :: "'a list \<Rightarrow> nat \<Rightarrow> 'a list result" where
  "slice_from xs n = (if n \<le> length xs then Ok (drop n xs) else Abort ''slice bounds out of range'')"

definition checked_namespace :: "request_info \<Rightarrow> string list \<Rightarrow> (request_info \<times> string list) result" where
  "checked_namespace ri currentParts =
     bind_result (index_slice currentParts 0) (\<lambda>part.
       if part = ''namespaces'' then
         (if length currentParts > 1 then
            bind_result (index_slice currentParts 1) (\<lambda>ns.
            bind_result
              (if length currentParts > 2
               then bind_result (index_slice currentParts 2) (\<lambda>sub.
                      if sub \<notin> set namespaceSubresources then slice_from currentParts 2 else Ok currentParts)
               else Ok currentParts) (\<lambda>parts.
            Ok (ri\<lparr>ri_Namespace := ns\<rparr>, parts)))
          else Ok (ri, currentParts))
       else Ok (ri\<lparr>ri_Namespace := []\<rparr>, currentParts))"

definition checked_parts :: "request_info \<Rightarrow> string list \<Rightarrow> request_info result" where
  "checked_parts ri currentParts =
     bind_result (checked_namespace ri currentParts) (\<lambda>(ri1, parts).
       let ri2 = ri1\<lparr>ri_Parts := parts\<rparr>
       in if length parts \<ge> 3 \<and> ri_Verb ri2 \<notin> set specialVerbsNoSubresources then
            bind_result (index_slice parts 2) (\<lambda>sub.
            bind_result (index_slice parts 1) (\<lambda>name.
            bind_result (index_slice parts 0) (\<lambda>res.
              Ok (ri2\<lparr>ri_Subresource := sub, ri_Name := name, ri_Resource := res\<rparr>))))
          else if length parts \<ge> 2 then
            bind_result (index_slice parts 1) (\<lambda>name.
            bind_result (index_slice parts 0) (\<lambda>res.
              Ok (ri2\<lparr>ri_Name := name, ri_Resource := res\<rparr>)))
          else if length parts \<ge> 1 then
            bind_result (index_slice parts 0) (\<lambda>res. Ok (ri2\<lparr>ri_Resource := res\<rparr>))
          else Ok ri2)"

definition checked_resource ::
  "http_request \<Rightarrow> request_info \<Rightarrow> string list \<Rightarrow> (request_info \<times> go_error option) result" where
  "checked_resource req ri currentParts =
     bind_result (index_slice currentParts 0) (\<lambda>version.
     bind_result (slice_from currentParts 1) (\<lambda>parts.
     bind_result (index_slice parts 0) (\<lambda>verb.
       let ri1 = ri\<lparr>ri_IsResourceRequest := True, ri_APIVersion := version\<rparr>
       in if verb \<in> set specialVerbs then
            (if length parts < 2
             then Ok (ri1, Some (Errorf ''unable to determine kind and namespace from url, %v'' [req_Path req] []))
             else bind_result (slice_from parts 1) (\<lambda>parts'.
                  bind_result (checked_parts (ri1\<lparr>ri_Verb := verb\<rparr>) parts') (\<lambda>ri2.
                    Ok (ri_without_name req ri2, None))))
          else bind_result (checked_parts (ri1\<lparr>ri_Verb := method_verb (req_Method req)\<rparr>) parts) (\<lambda>ri2.
                 Ok (ri_without_name req ri2, None)))))"

definition checked_NewRequestInfo ::
  "request_info_factory \<Rightarrow> http_request \<Rightarrow> (request_info \<times> go_error option) result" where
  "checked_NewRequestInfo r req =
     (let ri = \<lparr>ri_IsResourceRequest = False, ri_Path = req_Path req,
                ri_Verb = to_lower (req_Method req), ri_APIPrefix = [], ri_APIGroup = [],
                ri_APIVersion = [], ri_Namespace = [], ri_Resource = [], ri_Subresource = [],
                ri_Name = [], ri_Parts = []\<rparr>;
          parts = splitPath (req_Path req)
      in if length parts < 3 then Ok (ri, None)
         else bind_result (index_slice parts 0) (\<lambda>prefix0.
           if prefix0 \<notin> set (APIPrefixes r) then Ok (ri, None)
           else bind_result (slice_from parts 1) (\<lambda>parts1.
             let ri1 = ri\<lparr>ri_APIPrefix := prefix0\<rparr>
             in if prefix0 \<notin> set (GrouplessAPIPrefixes r) then
                  (if length parts1 < 3 then Ok (ri1, None)
                   else bind_result (index_slice parts1 0) (\<lambda>g.
                        bind_result (slice_from parts1 1) (\<lambda>parts2.
                          checked_resource req (ri1\<lparr>ri_APIGroup := g\<rparr>) parts2)))
                else checked_resource req ri1 parts1)))"

lemma checked_parts_Ok: "parts \<noteq> [] \<Longrightarrow> checked_parts ri parts = Ok (ri_parts ri parts)"
  by (auto simp: checked_parts_def checked_namespace_def ri_parts_def index_slice_def slice_from_def hd_conv_nth Let_def)

lemma checked_resource_Ok:
  "parts \<noteq> [] \<Longrightarrow> tl parts \<noteq> [] \<Longrightarrow> checked_resource req ri parts = Ok (ri_resource req ri parts)"
  by (cases parts; cases "tl parts")
    (auto simp: checked_resource_def ri_resource_def slice_from_def checked_parts_Ok Let_def)

text \<open>
  C23: Reading a request never leaves the bounds. For every request, of any path and method, each index
  into the parts of its path and each cut of them is in range, so the request info is always made (or
  the error about a special verb returned), and it is the one used throughout.
\<close>

theorem request_info_in_range: "checked_NewRequestInfo r req = Ok (NewRequestInfo r req)"
proof -
  let ?parts = "splitPath (req_Path req)"
  show ?thesis
    by (cases ?parts; cases "tl ?parts"; cases "tl (tl ?parts)")
      (auto simp: checked_NewRequestInfo_def NewRequestInfo_def slice_from_def checked_resource_Ok Let_def)
qed

section \<open>One question per request\<close>

lemma aborts_bind [simp]:
  "aborts (bind_result x f) \<longleftrightarrow> aborts x \<or> (\<exists>v. x = Ok v \<and> aborts (f v))"
  by (cases x) auto

lemma fields_Transform_no_abort:
  "\<forall>l v. \<not> aborts (fn l v) \<Longrightarrow> \<not> aborts (fields_Transform fn s)"
  "\<forall>l v. \<not> aborts (fn l v) \<Longrightarrow> \<not> aborts (fields_Transform_all fn ss)"
  by (induction fn s and fn ss rule: fields_Transform_fields_Transform_all.induct) (auto split: prod.splits)

text \<open>The handler refuses the request, or calls \<open>List\<close> with a context of the same request info.\<close>

lemma ListResource_reaches:
  assumes "\<not> aborts (req_options req)" and "\<forall>l v. \<not> aborts (ls_ConvertFieldLabel scope l v)"
    and ri: "ctx_RequestInfo ctx = Some ri"
  shows "(\<exists>err. \<forall>f. ListResource scope f req ctx = Err err) \<or>
    (\<exists>ctx' opts. ctx_RequestInfo ctx' = Some ri \<and> (\<forall>f. ListResource scope f req ctx = f ctx' (Some opts)))"
proof (cases "req_options req")
  case (Ok opts0)
  define transformed where "transformed = (case lo_FieldSelector opts0 of
       None \<Rightarrow> Ok opts0
     | Some fs \<Rightarrow>
         (case fields_Transform (ls_ConvertFieldLabel scope) fs of
            Abort p \<Rightarrow> Abort p
          | Err err \<Rightarrow> Err (NewBadRequest (error_text err))
          | Ok fs' \<Rightarrow> Ok (opts0\<lparr>lo_FieldSelector := Some fs'\<rparr>)))"
  define named where "named opts = (case (case cbn_Name ctx of Ok (_, name) \<Rightarrow> Some name | _ \<Rightarrow> None) of
       None \<Rightarrow> Ok opts
     | Some name \<Rightarrow>
         (case lo_FieldSelector opts of
            Some fs \<Rightarrow>
              if fields_Empty fs then Ok (opts\<lparr>lo_FieldSelector := Some (HasTerm ''metadata.name'' name)\<rparr>)
              else if RequiresExactMatch fs ''metadata.name'' = Some name then Ok opts
              else Err (NewBadRequest ''fieldSelector metadata.name doesn't match requested name'')
          | None \<Rightarrow> Ok (opts\<lparr>lo_FieldSelector := Some (HasTerm ''metadata.name'' name)\<rparr>)))" for opts :: list_options
  have list: "ListResource scope f req ctx = bind_result transformed (\<lambda>opts. bind_result (named opts) (\<lambda>opts.
      if lo_Watch opts then Err (NewMethodNotSupported (gvr_GroupResource (ls_Resource scope)) ''watch'')
      else f (ctx\<lparr>ctx_Namespace := Some (ri_Namespace ri)\<rparr>) (Some opts)))" for f
    by (simp add: ListResource_def cbn_Namespace_def ri Ok transformed_def named_def Let_def)
  have "fields_Transform (ls_ConvertFieldLabel scope) fs \<noteq> Abort e" for fs e
    using fields_Transform_no_abort(1) [OF assms(2), of fs] by auto
  then have "\<not> aborts transformed"
    by (auto simp: transformed_def split: option.splits result.splits)
  moreover have "\<not> aborts (named opts)" for opts
    by (auto simp: named_def split: option.splits)
  ultimately have no_abort: "\<not> aborts transformed" "\<not> aborts (named opts)" for opts by auto
  show ?thesis
  proof (cases transformed)
    case (Ok opts)
    note transformed = Ok
    show ?thesis
    proof (cases "named opts")
      case (Ok opts')
      show ?thesis
      proof (cases "lo_Watch opts'")
        case False
        let ?ctx = "ctx\<lparr>ctx_Namespace := Some (ri_Namespace ri)\<rparr>"
        have "ctx_RequestInfo ?ctx = Some ri \<and> (\<forall>f. ListResource scope f req ctx = f ?ctx (Some opts'))"
          by (simp add: list transformed Ok False ri)
        then show ?thesis by blast
      qed (simp add: list transformed Ok)
    qed (use no_abort(2) [of opts] in \<open>simp_all add: list transformed\<close>)
  qed (use no_abort(1) in \<open>simp_all add: list\<close>)
next
  case (Err err)
  then show ?thesis by (simp add: ListResource_def cbn_Namespace_def ri Let_def)
qed (use assms(1) in simp)

text \<open>So a \<open>List\<close> that is one question makes the handler one question.\<close>

lemma ListResource_one_question:
  fixes f :: "'p \<Rightarrow> request_context \<Rightarrow> list_options option \<Rightarrow> 'l result"
  assumes "\<not> aborts (req_options req)" "\<forall>l v. \<not> aborts (ls_ConvertFieldLabel scope l v)"
    and "ctx_RequestInfo ctx = Some ri"
    and question: "\<And>ctx options. ctx_RequestInfo ctx = Some ri \<Longrightarrow> \<exists>q. \<forall>prov. f prov ctx options = ask prov q"
  shows "(\<exists>err. \<forall>prov. ListResource scope (f prov) req ctx = Err err) \<or>
    (\<exists>q. \<forall>prov. ListResource scope (f prov) req ctx = ask prov q)"
  using ListResource_reaches [OF assms(1-3)]
proof
  assume "\<exists>err. \<forall>list :: request_context \<Rightarrow> list_options option \<Rightarrow> 'l result. ListResource scope list req ctx = Err err"
  then show ?thesis by blast
next
  assume "\<exists>ctx' opts. ctx_RequestInfo ctx' = Some ri \<and>
    (\<forall>list :: request_context \<Rightarrow> list_options option \<Rightarrow> 'l result. ListResource scope list req ctx = list ctx' (Some opts))"
  then obtain ctx' opts where ctx': "ctx_RequestInfo ctx' = Some ri"
    and list: "\<And>list :: request_context \<Rightarrow> list_options option \<Rightarrow> 'l result.
      ListResource scope list req ctx = list ctx' (Some opts)" by blast
  from question [OF ctx', of "Some opts"] show ?thesis unfolding list by (rule disjI2)
qed

lemma REST_List_query:
  assumes "ctx_RequestInfo ctx = Some ri"
  shows "\<exists>q. \<forall>prov. REST_List prov ctx options = run_query prov q"
proof -
  have "\<exists>ns name gr sel m. \<forall>prov. REST_List prov ctx options =
      (if name = ''*'' then handleWildcardOp prov ns gr sel m else handleIndividualOp prov ns gr name m)"
  proof (cases "NamespaceValue ctx \<noteq> [] \<and> ri_Resource ri = ''metrics''")
    case True
    show ?thesis unfolding REST_List_def Let_def assms option.case if_P [OF True] prod.case by blast
  next
    case False
    show ?thesis unfolding REST_List_def Let_def assms option.case if_not_P [OF False] prod.case by blast
  qed
  then show ?thesis unfolding run_object_query [symmetric] by blast
qed

lemma external_List_query:
  assumes "ctx_RequestInfo ctx = Some ri"
  shows "\<exists>q. \<forall>prov. external_List prov ctx options = (case q of (ns, sel, info) \<Rightarrow> GetExternalMetric prov ns sel info)"
  unfolding external_List_def Let_def assms option.case split_paired_Ex prod.case by blast

text \<open>
  C11: One question per request. Whatever the request and the factory of request infos, as long as its
  query can be decoded or refused without a panic, each of the two APIs either answers an error that no
  provider has a part in, or asks the provider exactly one question, which does not depend on the
  provider, and passes its answer on.
\<close>

theorem any_request_one_question:
  assumes "\<not> aborts (req_options req)" and "\<forall>l v. \<not> aborts (ls_ConvertFieldLabel scope l v)"
  shows "((\<exists>err. \<forall>prov. serve_custom scope prov r req = Err err) \<or>
      (\<exists>q. \<forall>prov. serve_custom scope prov r req = run_query prov q)) \<and>
    ((\<exists>err. \<forall>prov. serve_external scope prov r req = Err err) \<or>
      (\<exists>ns sel info. \<forall>prov. serve_external scope prov r req = GetExternalMetric prov ns sel info))"
proof (cases "NewRequestInfo r req")
  case (Pair ri err)
  show ?thesis
  proof (cases err)
    case None
    let ?ctx = "\<lparr>ctx_Namespace = None, ctx_RequestInfo = Some ri\<rparr>"
    have ri: "ctx_RequestInfo ?ctx = Some ri" by simp
    have custom: "serve_custom scope prov r req = ListResource scope (REST_List prov) req ?ctx" for prov
      by (simp add: serve_custom_def WithRequestInfo_def Pair None)
    have external: "serve_external scope prov r req = ListResource scope (external_List prov) req ?ctx" for prov
      by (simp add: serve_external_def WithRequestInfo_def Pair None)
    from ListResource_one_question [OF assms ri, of REST_List, OF REST_List_query]
      ListResource_one_question [OF assms ri, of external_List, OF external_List_query]
    show ?thesis unfolding custom external split_paired_Ex prod.case by (rule conjI)
  qed (simp add: serve_custom_def serve_external_def WithRequestInfo_def Pair)
qed

definition odd_request :: http_request where
  "odd_request = \<lparr>req_Method = ''DELETE'', req_Path = ''/apis/custom.metrics.k8s.io//namespaces'', req_RawPath = [],
     req_options = Ok no_options, req_watch = [''yes'']\<rparr>"

theorem any_request_one_question_witness:
  "(\<exists>err. \<forall>prov. serve_custom example_scope prov example_factory odd_request = Err err) \<or>
   (\<exists>q. \<forall>prov. serve_custom example_scope prov example_factory odd_request = run_query prov q)"
  by (rule any_request_one_question [THEN conjunct1]) (simp_all add: example_scope_def odd_request_def)

end
