(* ===== verification/Request_Serving.thy ===== *)
theory Request_Serving
  imports Server_Dispatch Request_Safety
begin

text \<open>
  A request through the server: the request info filter, the director in front of the container
  (\<open>handler.go\<close>), the choice of a service and a route, and the list handler up to the list it writes,
  with the self links it sets. The other filters of the handler chain and the encoding of what is
  written are not modelled.
\<close>

section \<open>Self links of a list\<close>

text \<open>\<open>GenerateListLink\<close>: the path as it was sent, or escaped as \<open>net/url\<close> escapes a path.\<close>

definition path_unreserved :: "nat \<Rightarrow> bool" where
  "path_unreserved n \<longleftrightarrow> unreserved n \<or> n \<in> {36, 38, 43, 44, 47, 58, 59, 61, 64}"

definition EscapedPath :: "string \<Rightarrow> string" where
  "EscapedPath p =
     (if p = ''*'' then ''*''
      else concat (map (\<lambda>c. let n = of_char c :: nat
        in if path_unreserved n then [c] else [CHR ''%'', hex_digit (n div 16), hex_digit (n mod 16)]) p))"

definition GenerateListLink :: "http_request \<Rightarrow> string" where
  "GenerateListLink req = (if length (req_RawPath req) > 0 then req_RawPath req else EscapedPath (req_Path req))"

text \<open>\<open>meta.GetItemsPtr\<close>: the items of a list, when the object is one.\<close>

fun list_items :: "runtime_object \<Rightarrow> runtime_object list option" where
  "list_items (MetricValueListObject l) = Some (map MetricValueObject (mvl_Items l))"
| "list_items (ExternalMetricValueListObject l) = Some (map ExternalMetricValueObject (emvl_Items l))"
| "list_items obj = None"

text \<open>\<open>EachListItem\<close> with \<open>setSelfLink\<close>, which leaves out an item without a link.\<close>

fun link_items ::
  "runtime_object context_based_naming \<Rightarrow> request_info \<Rightarrow> runtime_object list \<Rightarrow> nat \<Rightarrow> nat result" where
  "link_items namer ri [] n = Ok n"
| "link_items namer ri (obj # objs) n =
     (case MetricsNaming_GenerateLink namer ri obj of
        Abort e \<Rightarrow> Abort e
      | Err err \<Rightarrow> link_items namer ri objs (n + 1)
      | Ok uri \<Rightarrow> bind_result (sl_SetSelfLink (cbn_SelfLinker namer) obj uri)
                   (\<lambda>_. link_items namer ri objs (n + 1)))"

text \<open>The link set on the list, if any, and the number of its items.\<close>

definition setListSelfLink ::
  "runtime_object \<Rightarrow> request_context \<Rightarrow> http_request \<Rightarrow> runtime_object context_based_naming \<Rightarrow>
   (string option \<times> nat) result" where
  "setListSelfLink obj ctx req namer =
     (case list_items obj of
        None \<Rightarrow> Ok (None, 0)
      | Some items \<Rightarrow>
          let uri = GenerateListLink req
          in (case sl_SetSelfLink (cbn_SelfLinker namer) obj uri of
                Abort e \<Rightarrow> Abort e
              | r \<Rightarrow>
                  let link = (if is_ok r then Some uri else None)
                  in (case ctx_RequestInfo ctx of
                        None \<Rightarrow> Err (Errorf ''missing requestInfo'' [] [])
                      | Some ri \<Rightarrow> bind_result (link_items namer ri items 0) (\<lambda>n. Ok (link, n)))))"

section \<open>Handlers\<close>

text \<open>What is written: a list with its self link, a discovery document, or an HTTP error of the router.\<close>

datatype answer =
    ListAnswer runtime_object "string option"
  | ResourcesAnswer group_version "api_resource list"
  | GroupAnswer api_group
  | StatusAnswer int
  | OutsideAnswer

text \<open>
  \<open>restfulListResource\<close>: \<open>ListResource\<close>, here with the part after \<open>List\<close> (an empty list is written with
  an empty, not a nil, slice of items, which are not told apart).
\<close>

definition restfulListResource ::
  "runtime_object rest_storage \<Rightarrow> runtime_object request_scope \<Rightarrow> http_request \<Rightarrow> request_context \<Rightarrow> answer result" where
  "restfulListResource storage scope req ctx =
     (case st_Lister storage of
        None \<Rightarrow> Abort ''interface conversion: missing method List''
      | Some lister \<Rightarrow>
          bind_result
            (ListResource \<lparr>ls_Resource = rs_Resource scope, ls_ConvertFieldLabel = rs_ConvertFieldLabel scope (rs_Kind scope)\<rparr>
              (rl_List lister) req ctx) (\<lambda>res.
          bind_result (setListSelfLink res ctx req (rs_Namer scope)) (\<lambda>(link, n).
            Ok (ListAnswer res link))))"

fun run_handler :: "runtime_object metrics_handler \<Rightarrow> http_request \<Rightarrow> request_context \<Rightarrow> answer result" where
  "run_handler (ListHandler verb res sub sc storage scope t) req ctx = restfulListResource storage scope req ctx"
| "run_handler (VersionDiscovery gv l) req ctx = Ok (ResourcesAnswer gv l)"
| "run_handler (GroupDiscovery g) req ctx = Ok (GroupAnswer g)"

section \<open>The server\<close>

text \<open>\<open>director.ServeHTTP\<close>: whether one of the services claims the path.\<close>

fun director_claims :: "runtime_object metrics_service list \<Rightarrow> string \<Rightarrow> bool" where
  "director_claims [] path = False"
| "director_claims (ws # wss) path =
     (if ws_rootPath ws = ''/apis''
      then (path = ''/apis'' \<or> path = ''/apis/'') \<or> director_claims wss path
      else if has_prefix path (ws_rootPath ws)
      then (length path = length (ws_rootPath ws) \<or> path ! length (ws_rootPath ws) = CHR ''/'') \<or>
           director_claims wss path
      else director_claims wss path)"

text \<open>
  The handler chain: errors are those written by \<open>scope.err\<close> or by the request info filter. The headers
  are \<open>Content-Type\<close> and \<open>Accept\<close>.
\<close>

definition dispatch ::
  "(string \<Rightarrow> string \<Rightarrow> bool) \<Rightarrow> runtime_object metrics_service list \<Rightarrow> string \<times> string \<Rightarrow> http_request \<Rightarrow>
   request_context \<Rightarrow> answer result" where
  "dispatch rx services headers req ctx =
     (case selected_handler (snd (SelectRoute rx services (req_Method req) (req_Path req) (fst headers) (snd headers))) of
        Inl code \<Rightarrow> Ok (StatusAnswer code)
      | Inr h \<Rightarrow> run_handler h req ctx)"

definition serve_http ::
  "request_info_factory \<Rightarrow> (string \<Rightarrow> string \<Rightarrow> bool) \<Rightarrow> generic_api_server \<Rightarrow> string \<times> string \<Rightarrow> http_request \<Rightarrow>
   answer result" where
  "serve_http r rx s headers req =
     WithRequestInfo r (\<lambda>req ctx.
       if director_claims (gs_Container s) (req_Path req) then dispatch rx (gs_Container s) headers req ctx
       else Ok OutsideAnswer) req"

section \<open>What the parts do\<close>

lemma director_claims_root:
  assumes "ws \<in> set wss" and "ws_rootPath ws \<noteq> ''/apis''"
    and "path = ws_rootPath ws \<or> (\<exists>rest. path = ws_rootPath ws @ CHR ''/'' # rest)"
  shows "director_claims wss path"
  using assms by (induction wss path rule: director_claims.induct) (auto simp: has_prefix_def)

lemma SetSelfLink_simps [simp]: "sl_SetSelfLink meta_NewAccessor = set_self_link"
  by (simp add: meta_NewAccessor_def)

text \<open>No item of a list has the metadata a link is made from.\<close>

lemma link_items_none:
  assumes "cbn_SelfLinker namer = meta_NewAccessor"
  shows "link_items namer ri objs n = Ok (n + length objs)"
proof -
  have "MetricsNaming_GenerateLink namer ri obj = Err errNotObject" for obj
    using assms by (simp add: MetricsNaming_GenerateLink_def GenerateLink_def ObjectName_def meta_NewAccessor_def
        errEmptyName_def errNotObject_def NewBadRequest_def Let_def)
  then show ?thesis by (induction objs arbitrary: n) simp_all
qed

lemma setListSelfLink_lists:
  assumes "cbn_SelfLinker namer = meta_NewAccessor" and "ctx_RequestInfo ctx = Some ri"
  shows "setListSelfLink (metric_list_object a) ctx req namer =
      Ok (map_option (\<lambda>_. GenerateListLink req) a, case a of None \<Rightarrow> 0 | Some l \<Rightarrow> length (mvl_Items l))"
    and "setListSelfLink (external_list_object b) ctx req namer =
      Ok (map_option (\<lambda>_. GenerateListLink req) b, case b of None \<Rightarrow> 0 | Some l \<Rightarrow> length (emvl_Items l))"
proof -
  show "setListSelfLink (metric_list_object a) ctx req namer =
      Ok (map_option (\<lambda>_. GenerateListLink req) a, case a of None \<Rightarrow> 0 | Some l \<Rightarrow> length (mvl_Items l))"
    using assms by (cases a) (simp_all add: setListSelfLink_def metric_list_object_def link_items_none)
  show "setListSelfLink (external_list_object b) ctx req namer =
      Ok (map_option (\<lambda>_. GenerateListLink req) b, case b of None \<Rightarrow> 0 | Some l \<Rightarrow> length (emvl_Items l))"
    using assms by (cases b) (simp_all add: setListSelfLink_def external_list_object_def link_items_none)
qed

lemma bind_result_assoc: "bind_result (bind_result x f) g = bind_result x (\<lambda>v. bind_result (f v) g)"
  by (cases x) simp_all

lemma ListResource_bind:
  "ListResource scope (\<lambda>ctx opts. bind_result (list ctx opts) f) req ctx = bind_result (ListResource scope list req ctx) f"
  unfolding ListResource_def Let_def bind_result_assoc result.case_distrib [of "\<lambda>r. bind_result r f"]
    if_distrib [of "\<lambda>r. bind_result r f"] bind_result.simps
  by (rule refl)

text \<open>What is written for the outcome of a \<open>List\<close>.\<close>

definition written_list :: "('l option \<Rightarrow> runtime_object) \<Rightarrow> http_request \<Rightarrow> 'l option result \<Rightarrow> answer result" where
  "written_list obj req outcome =
     bind_result outcome (\<lambda>a. Ok (ListAnswer (obj a) (map_option (\<lambda>_. GenerateListLink req) a)))"

lemma restfulListResource_written:
  assumes "st_Lister storage = Some lister"
    and "rl_List lister = (\<lambda>ctx opts. bind_result (list ctx opts) (\<lambda>a. Ok (obj a)))"
    and "\<And>a. \<exists>n. setListSelfLink (obj a) ctx req (rs_Namer scope) = Ok (map_option (\<lambda>_. GenerateListLink req) a, n)"
  shows "restfulListResource storage scope req ctx =
    written_list obj req (ListResource \<lparr>ls_Resource = rs_Resource scope,
      ls_ConvertFieldLabel = rs_ConvertFieldLabel scope (rs_Kind scope)\<rparr> list req ctx)"
proof -
  obtain n where n: "\<And>a. setListSelfLink (obj a) ctx req (rs_Namer scope) = Ok (map_option (\<lambda>_. GenerateListLink req) a, n a)"
    using assms(3) by metis
  show ?thesis
    by (simp add: restfulListResource_def assms(1,2) ListResource_bind bind_result_assoc written_list_def n)
qed

end
