(* ===== verification/Server_Answers.thy ===== *)
theory Server_Answers
  imports Request_Serving
begin

text \<open>
  What the server made from the given providers answers to every request below its two APIs, from the
  filter of the request info to the list that is written.
\<close>

section \<open>The handlers of the two APIs\<close>

definition metrics_list_scope :: "group_version \<Rightarrow> list_scope" where
  "metrics_list_scope gv =
     \<lparr>ls_Resource = WithResource gv ''*'', ls_ConvertFieldLabel = DefaultMetaV1FieldSelectorConversion\<rparr>"

lemma api_scope:
  assumes "mg_APIGroupVersion g = api_group_version_of (NewDefaultAPIGroupInfo n (api_scheme flds docs mediaTypes sc)) gv"
  shows "\<lparr>ls_Resource = rs_Resource (request_scope_of (newDynamicInstaller g) kind c p),
      ls_ConvertFieldLabel = rs_ConvertFieldLabel (request_scope_of (newDynamicInstaller g) kind c p)
        (rs_Kind (request_scope_of (newDynamicInstaller g) kind c p))\<rparr> = metrics_list_scope gv"
    and "cbn_SelfLinker (rs_Namer (request_scope_of (newDynamicInstaller g) kind c p)) = meta_NewAccessor"
  using assms
  by (simp_all add: request_scope_of_def Let_def api_group_version_of_def NewDefaultAPIGroupInfo_def
      api_scheme_def metrics_list_scope_def)

lemma custom_handler_answers:
  fixes prov gv flds docs mediaTypes sc
  defines "g \<equiv> cmAPI prov (NewDefaultAPIGroupInfo custom_GroupName (api_scheme flds docs mediaTypes sc)) gv"
  assumes "i < length (custom_handlers g kind)" and "ctx_RequestInfo ctx = Some ri"
  shows "run_handler (custom_handlers g kind ! i) req ctx =
    written_list metric_list_object req (ListResource (metrics_list_scope gv) (REST_List prov) req ctx)"
proof -
  have g: "mg_APIGroupVersion g = api_group_version_of (NewDefaultAPIGroupInfo custom_GroupName (api_scheme flds docs mediaTypes sc)) gv"
    "mg_DynamicStorage g = custom_NewREST prov" by (simp_all add: g_def cmAPI_def)
  have "restfulListResource (custom_NewREST prov) (request_scope_of (newDynamicInstaller g) kind c p) req ctx =
      written_list metric_list_object req (ListResource (metrics_list_scope gv) (REST_List prov) req ctx)" for c p
    using restfulListResource_written [of "custom_NewREST prov" _ "REST_List prov" metric_list_object ctx req
        "request_scope_of (newDynamicInstaller g) kind c p"]
      setListSelfLink_lists(1) [OF api_scope(2) [OF g(1)] assms(3)]
    by (simp add: api_scope(1) [OF g(1)])
  moreover have "i = 0 \<or> i = 1 \<or> i = 2" using assms(2) by (auto simp: custom_handlers_def Let_def)
  ultimately show ?thesis using g(2) by (auto simp: custom_handlers_def Let_def)
qed

lemma external_handler_answers:
  fixes prov gv flds docs mediaTypes sc
  defines "g \<equiv> emAPI prov (NewDefaultAPIGroupInfo external_GroupName (api_scheme flds docs mediaTypes sc)) gv"
  assumes "ctx_RequestInfo ctx = Some ri"
  shows "run_handler (external_handler g kind) req ctx =
    written_list external_list_object req (ListResource (metrics_list_scope gv) (external_List prov) req ctx)"
proof -
  have g: "mg_APIGroupVersion g = api_group_version_of (NewDefaultAPIGroupInfo external_GroupName (api_scheme flds docs mediaTypes sc)) gv"
    "mg_DynamicStorage g = external_NewREST prov" by (simp_all add: g_def emAPI_def)
  have "restfulListResource (external_NewREST prov) (request_scope_of (newDynamicInstaller g) kind c p) req ctx =
      written_list external_list_object req (ListResource (metrics_list_scope gv) (external_List prov) req ctx)" for c p
    using restfulListResource_written [of "external_NewREST prov" _ "external_List prov" external_list_object ctx req
        "request_scope_of (newDynamicInstaller g) kind c p"]
      setListSelfLink_lists(2) [OF api_scope(2) [OF g(1)] assms(2)]
    by (simp add: api_scope(1) [OF g(1)])
  then show ?thesis using g(2) by (simp add: external_handler_def)
qed

section \<open>Requests below a version\<close>

definition version_path :: "string \<Rightarrow> string \<Rightarrow> string list \<Rightarrow> string" where
  "version_path g v segs = CHR ''/'' # join_byte (CHR ''/'') ([''apis'', g, v] @ segs)"

text \<open>
  A request whose path is that of a version or below it, with any segments (empty ones too, as slashes repeated or at the
  end make them); \<open>segs\<close> are those after the version.
\<close>

definition below_version :: "string \<Rightarrow> string \<Rightarrow> string list \<Rightarrow> http_request \<Rightarrow> bool" where
  "below_version g v segs req \<longleftrightarrow>
     (req_Path req = version_path g v [] \<or> has_prefix (req_Path req) (version_path g v [] @ ''/'')) \<and>
     segs = drop 3 (tokenizePath (req_Path req))"

lemma version_path_root: "version_path g v [] = ''/apis/'' @ g @ ''/'' @ v"
  by (simp add: version_path_def)

lemma has_prefix_ex: "has_prefix s p \<longleftrightarrow> (\<exists>t. s = p @ t)"
  by (auto simp: has_prefix_def) (metis append_take_drop_id)

lemma trim_right_append:
  assumes "w \<noteq> []" and "last w \<noteq> c"
  shows "trim_right_byte c (w @ s) = w @ trim_right_byte c s"
proof -
  obtain x xs where "rev w = x # xs" "x \<noteq> c"
    using assms by (cases w rule: rev_cases) auto
  then have "w = rev (x # xs)" "x \<noteq> c" by (metis rev_rev_ident)+
  then show ?thesis by (simp add: trim_right_byte_def dropWhile_append)
qed

lemma trim_right_slash: "trim_right_byte c (c # s) = [] \<or> (\<exists>t. trim_right_byte c (c # s) = c # t)"
  by (cases "\<forall>x \<in> set s. x = c") (auto simp: trim_right_byte_def dropWhile_append dropWhile_eq_Nil_conv, metis rev_rev_ident)

lemma below_version_trimmed:
  assumes "below_version g v segs req" and "segment g" and "segment v"
  shows "\<exists>t. trim_byte (CHR ''/'') (req_Path req) = ''apis/'' @ g @ ''/'' @ v @ t \<and> (t = [] \<or> (\<exists>u. t = CHR ''/'' # u))"
proof -
  obtain rest where path: "req_Path req = ''/apis/'' @ g @ ''/'' @ v @ rest" and rest: "rest = [] \<or> (\<exists>u. rest = CHR ''/'' # u)"
    using assms(1) by (auto simp: below_version_def version_path_root has_prefix_ex)
  have "v \<noteq> []" "last v \<noteq> CHR ''/''" using assms(3) by (auto simp: segment_def dest: last_in_set)
  then have "trim_right_byte (CHR ''/'') ((''apis/'' @ g @ ''/'' @ v) @ rest) =
      (''apis/'' @ g @ ''/'' @ v) @ trim_right_byte (CHR ''/'') rest"
    by (intro trim_right_append) simp_all
  moreover have "trim_right_byte (CHR ''/'') rest = [] \<or> (\<exists>u. trim_right_byte (CHR ''/'') rest = CHR ''/'' # u)"
  proof (cases rest)
    case (Cons c u)
    then show ?thesis using rest trim_right_slash [of "CHR ''/''" u] by simp
  qed (simp add: trim_right_byte_def)
  ultimately show ?thesis by (simp add: path trim_byte_def trim_left_byte_def)
qed

lemma below_version_tokens:
  assumes "below_version g v segs req" and "segment g" and "segment v"
  shows "tokenizePath (req_Path req) = ''apis'' # g # v # segs" and "splitPath (req_Path req) = ''apis'' # g # v # segs"
proof -
  obtain t where trim: "trim_byte (CHR ''/'') (req_Path req) = ''apis/'' @ g @ ''/'' @ v @ t"
    and t: "t = [] \<or> (\<exists>u. t = CHR ''/'' # u)"
    using below_version_trimmed [OF assms] by blast
  have no: "CHR ''/'' \<notin> set g" "CHR ''/'' \<notin> set v" using assms(2,3) by (simp_all add: segment_def)
  have "split_byte (CHR ''/'') (''apis'' @ CHR ''/'' # g @ CHR ''/'' # v @ t) =
      ''apis'' # g # split_byte (CHR ''/'') (v @ t)"
    using no(1) by (subst split_byte_append; simp)+
  then obtain ts where split: "split_byte (CHR ''/'') (trim_byte (CHR ''/'') (req_Path req)) = ''apis'' # g # v # ts"
    using t no(2) by (auto simp: trim)
  moreover have "req_Path req \<noteq> ''/''" using trim by (auto simp: trim_byte_def trim_left_byte_def trim_right_byte_def)
  ultimately have "tokenizePath (req_Path req) = ''apis'' # g # v # ts" by (simp add: tokenizePath_def)
  moreover from this have "segs = ts" using assms(1) by (simp add: below_version_def)
  ultimately show "tokenizePath (req_Path req) = ''apis'' # g # v # segs" by simp
  show "splitPath (req_Path req) = ''apis'' # g # v # segs"
    using split \<open>segs = ts\<close> by (simp add: splitPath_def trim)
qed

lemma below_versionI:
  assumes "req_Path req = version_path g v segs" and "list_all segment (g # v # segs)"
  shows "below_version g v segs req"
proof -
  have "tokenizePath (version_path g v segs) = ''apis'' # g # v # segs"
    using assms(2) tokenizePath_segments [of "''apis'' # g # v # segs"]
    by (simp add: version_path_def segment_def list_all_iff)
  moreover have "segs \<noteq> [] \<Longrightarrow> version_path g v segs = version_path g v [] @ ''/'' @ join_byte (CHR ''/'') segs"
    by (cases segs) (simp_all add: version_path_def)
  ultimately show ?thesis
    by (cases segs) (auto simp: below_version_def assms(1) has_prefix_ex)
qed

text \<open>
  The request info of a request below a version is made unless it is only a special verb; the filter writes
  that error as an internal one, with status 500.
\<close>

definition only_special_verb :: "string list \<Rightarrow> bool" where
  "only_special_verb segs \<longleftrightarrow> length segs = 1 \<and> hd segs \<in> set specialVerbs"

definition no_request_info :: "string \<Rightarrow> go_error" where
  "no_request_info path = Errorf ''failed to create RequestInfo: %v'' []
     [Errorf ''unable to determine kind and namespace from url, %v'' [path] []]"

lemma below_version_info:
  assumes "below_version g v segs req" and "segment g" and "segment v" and "serves_apis r"
  shows "only_special_verb segs \<Longrightarrow> WithRequestInfo r handler req = Err (no_request_info (req_Path req))"
    and "\<not> only_special_verb segs \<Longrightarrow> \<exists>ri. NewRequestInfo r req = (ri, None)"
  using assms(4) unfolding WithRequestInfo_def NewRequestInfo_def below_version_tokens(2) [OF assms(1-3)]
  by (cases segs; cases "tl segs";
      auto simp: ri_resource_def serves_apis_def Let_def only_special_verb_def no_request_info_def)+

lemma version_path_claimed:
  assumes "ws \<in> set wss" and "ws_rootPath ws = ''/apis/'' @ g @ ''/'' @ v" and "below_version g v segs req"
  shows "director_claims wss (req_Path req)"
proof (rule director_claims_root [OF assms(1)])
  show "ws_rootPath ws \<noteq> ''/apis''" using assms(2) by simp
  show "req_Path req = ws_rootPath ws \<or> (\<exists>rest. req_Path req = ws_rootPath ws @ CHR ''/'' # rest)"
    using assms(2,3) by (auto simp: below_version_def version_path_root has_prefix_ex)
qed

text \<open>
  The answers of an API as a table: the error of the filter, the routes the API has, the discovery of its version, and what
  it writes for the metrics asked for.
\<close>

definition api_answer ::
  "(string list \<Rightarrow> nat option) \<Rightarrow> group_version \<Rightarrow> api_resource list \<Rightarrow> string list \<Rightarrow> http_request \<Rightarrow> answer result \<Rightarrow>
   answer result" where
  "api_answer route gv l segs req listing =
     (if only_special_verb segs then Err (no_request_info (req_Path req))
      else if route segs = None then Ok (StatusAnswer 404)
      else if req_Method req \<noteq> ''GET'' then Ok (StatusAnswer 405)
      else if segs = [] then Ok (ResourcesAnswer gv l)
      else listing)"

text \<open>What it may answer when the headers of the request are not known.\<close>

definition possible_answers ::
  "group_version \<Rightarrow> api_resource list \<Rightarrow> http_request \<Rightarrow> answer result \<Rightarrow> answer result set" where
  "possible_answers gv l req listing =
     {Err (no_request_info (req_Path req)), Ok (ResourcesAnswer gv l), listing} \<union> range (\<lambda>code. Ok (StatusAnswer code))"

lemma serve_http_version:
  assumes w: "w \<in> set (gs_Container s)" "ws_rootPath w = ''/apis/'' @ gv_Group gv @ ''/'' @ gv_Version gv"
    and selected: "selected_handler (snd (SelectRoute rx (gs_Container s) (req_Method req) (req_Path req) [] accept)) =
      api_endpoint route (hs @ [VersionDiscovery gv l]) (req_Method req) segs"
    and handlers: "\<And>i ctx ri. i < length hs \<Longrightarrow> ctx_RequestInfo ctx = Some ri \<Longrightarrow>
      run_handler (hs ! i) req ctx = written_list obj req (ListResource scope list req ctx)"
    and route: "\<And>i. route segs = Some i \<Longrightarrow> i \<le> length hs \<and> (i = length hs \<longleftrightarrow> segs = [])"
    and below: "below_version (gv_Group gv) (gv_Version gv) segs req" "segment (gv_Group gv)" "segment (gv_Version gv)"
      "serves_apis r"
  shows "serve_http r rx s ([], accept) req =
    api_answer route gv l segs req (written_list obj req (WithRequestInfo r (ListResource scope list) req))"
proof (cases "only_special_verb segs")
  case True
  then show ?thesis
    by (simp add: serve_http_def api_answer_def below_version_info(1) [OF below])
next
  case False
  then obtain ri where ri: "NewRequestInfo r req = (ri, None)"
    using below_version_info(2) [OF below] by blast
  let ?ctx = "\<lparr>ctx_Namespace = None, ctx_RequestInfo = Some ri\<rparr>"
  have served: "serve_http r rx s ([], accept) req =
      (case api_endpoint route (hs @ [VersionDiscovery gv l]) (req_Method req) segs of
         Inl code \<Rightarrow> Ok (StatusAnswer code) | Inr h \<Rightarrow> run_handler h req ?ctx)"
    using version_path_claimed [OF w below(1)] selected
    by (simp add: serve_http_def WithRequestInfo_def ri dispatch_def)
  show ?thesis
  proof (cases "route segs")
    case (Some i)
    then have i: "i \<le> length hs" "i = length hs \<longleftrightarrow> segs = []" using route by auto
    show ?thesis
    proof (cases "segs = []")
      case False
      then have "i < length hs" using i by linarith
      then show ?thesis using False Some \<open>\<not> only_special_verb segs\<close>
        by (simp add: served api_endpoint_def api_answer_def nth_append handlers WithRequestInfo_def ri)
    qed (use i Some False in \<open>simp add: served api_endpoint_def api_answer_def\<close>)
  qed (simp add: served api_endpoint_def api_answer_def False)
qed

section \<open>Requests to a new server\<close>

lemma api_versions:
  "segment custom_GroupName" "segment external_GroupName" "segment ''v1beta1''" "plain_element ''v1beta1''"
  "literal ''v1beta1''" "literal custom_GroupName" "literal external_GroupName"
  by (simp_all add: segment_def plain_element_def literal_def has_prefix_def custom_GroupName_def external_GroupName_def)

lemma routes_in_range:
  "custom_route segs = Some i \<Longrightarrow> i \<le> 3 \<and> (i = 3 \<longleftrightarrow> segs = [])"
  "external_route segs = Some i \<Longrightarrow> i \<le> 1 \<and> (i = 1 \<longleftrightarrow> segs = [])"
  by (cases segs rule: custom_route.cases; auto split: if_splits)
    (cases segs rule: external_route.cases; auto split: if_splits)

text \<open>
  One installed API in the container of a server: what its installation routes to (an interpretation of
  \<open>routed_handlers\<close>) and what its handlers answer give what the server answers below its version.
\<close>

lemma installed_version_answers:
  assumes installed: "\<And>container. \<forall>x \<in> set container. ws_rootPath x \<noteq> ins_prefix (newDynamicInstaller g) \<Longrightarrow>
      \<exists>ws. InstallREST reg g container = (container @ [ws], Ok ()) \<and>
        ws_rootPath ws = CHR ''/'' # join_byte (CHR ''/'') (api_root gv) \<and>
        (\<forall>r \<in> set (ws_routes ws). r_Method r = ''GET'' \<and> r_Function r \<in> set (hs @ [VersionDiscovery gv l])) \<and>
        (\<forall>m path segs. tokenizePath path = api_root gv @ segs \<longrightarrow>
           selected_handler (route_by_method rx ws m path) = api_endpoint route (hs @ [VersionDiscovery gv l]) m segs)"
    and handlers: "\<And>i ctx ri. i < length hs \<Longrightarrow> ctx_RequestInfo ctx = Some ri \<Longrightarrow>
      run_handler (hs ! i) req ctx = written_list obj req (ListResource scope list req ctx)"
    and route: "\<And>i. route segs = Some i \<Longrightarrow> i \<le> length hs \<and> (i = length hs \<longleftrightarrow> segs = [])"
    and gv: "agv_GroupVersion (mg_APIGroupVersion g) = gv" and serves: "serves_under_apis g"
    and adds: "adds_api reg g base base'" and pre: "prefix (gs_Container base') (gs_Container s)"
    and roots: "(\<forall>w \<in> set (gs_Container s). plain_root w) \<and> distinct (map root_tokens (gs_Container s))"
      "\<forall>v \<in> set (gs_Container s). prefix [''apis'', gv_Group gv] (root_tokens v) \<longrightarrow> length (root_tokens v) \<le> 3"
    and below: "below_version (gv_Group gv) (gv_Version gv) segs req" "segment (gv_Group gv)" "segment (gv_Version gv)"
      "serves_apis r"
  shows "accepts_any accept \<Longrightarrow> serve_http r rx s ([], accept) req =
      api_answer route gv l segs req (written_list obj req (WithRequestInfo r (ListResource scope list) req))"
    and "serve_http r rx s headers req \<in>
      possible_answers gv l req (written_list obj req (WithRequestInfo r (ListResource scope list) req))"
proof -
  have tokens: "tokenizePath (req_Path req) = api_root gv @ segs"
    using below_version_tokens(1) [OF below(1-3)] by (simp add: api_root_def)
  let ?route = "SelectRoute rx (gs_Container s)"
  have "\<exists>w \<in> set (gs_Container s). ws_rootPath w = version_root gv \<and>
    (\<forall>m path segs contentType accept r. tokenizePath path = api_root gv @ segs \<longrightarrow>
       snd (?route m path contentType accept) = Selected r \<longrightarrow> r_Function r \<in> set (hs @ [VersionDiscovery gv l])) \<and>
    (\<forall>m path segs accept. tokenizePath path = api_root gv @ segs \<longrightarrow> accepts_any accept \<longrightarrow>
       selected_handler (snd (?route m path [] accept)) = api_endpoint route (hs @ [VersionDiscovery gv l]) m segs)"
    by (rule api_requests [OF installed gv serves adds pre conjunct1 [OF roots(1)] conjunct2 [OF roots(1)] roots(2)])
  then obtain w where w: "w \<in> set (gs_Container s)" "ws_rootPath w = version_root gv"
    and any: "\<And>m contentType accept r. snd (?route m (req_Path req) contentType accept) = Selected r \<Longrightarrow>
       r_Function r \<in> set (hs @ [VersionDiscovery gv l])"
    and routed: "\<And>m accept. accepts_any accept \<Longrightarrow>
       selected_handler (snd (?route m (req_Path req) [] accept)) =
         api_endpoint route (hs @ [VersionDiscovery gv l]) m segs"
    using tokens by meson
  show "accepts_any accept \<Longrightarrow> serve_http r rx s ([], accept) req =
      api_answer route gv l segs req (written_list obj req (WithRequestInfo r (ListResource scope list) req))"
    using w by (intro serve_http_version [OF w(1) _ routed handlers route below]) (simp_all add: version_root_def)
  show "serve_http r rx s headers req \<in>
      possible_answers gv l req (written_list obj req (WithRequestInfo r (ListResource scope list) req))"
  proof (cases "only_special_verb segs")
    case True
    then show ?thesis by (simp add: serve_http_def below_version_info(1) [OF below] possible_answers_def)
  next
    case False
    then obtain ri where ri: "NewRequestInfo r req = (ri, None)"
      using below_version_info(2) [OF below] by blast
    have handled: "run_handler h req \<lparr>ctx_Namespace = None, ctx_RequestInfo = Some ri\<rparr> \<in> {Ok (ResourcesAnswer gv l),
        written_list obj req (WithRequestInfo r (ListResource scope list) req)}"
      if "h \<in> set (hs @ [VersionDiscovery gv l])" for h
      using that by (auto simp: in_set_conv_nth handlers WithRequestInfo_def ri)
    have "director_claims (gs_Container s) (req_Path req)"
      using w by (intro version_path_claimed [OF w(1) _ below(1)]) (simp add: version_root_def)
    then have served: "serve_http r rx s headers req =
        (case selected_handler (snd (?route (req_Method req) (req_Path req) (fst headers) (snd headers))) of
           Inl code \<Rightarrow> Ok (StatusAnswer code)
         | Inr h \<Rightarrow> run_handler h req \<lparr>ctx_Namespace = None, ctx_RequestInfo = Some ri\<rparr>)"
      by (simp add: serve_http_def WithRequestInfo_def ri dispatch_def)
    show ?thesis
    proof (cases "snd (?route (req_Method req) (req_Path req) (fst headers) (snd headers))")
      case (Selected x)
      from handled [OF any [OF this]] show ?thesis by (auto simp: served Selected possible_answers_def)
    qed (simp add: served possible_answers_def)
  qed
qed

lemma custom_version_answers:
  fixes flds docs mediaTypes sc
  defines "scheme \<equiv> api_scheme flds docs mediaTypes sc" and "gv \<equiv> custom_gv ''v1beta1''"
  assumes "normal_container base" and "without_metrics base" and "custom_scheme scheme ''v1beta1''"
    and steps: "custom_step scheme ''v1beta1'' (Some prov) base base'" "external_step scheme ''v1beta1'' em base' s"
    and "serves_apis r" and below: "below_version custom_GroupName ''v1beta1'' segs req"
  shows "accepts_any accept \<Longrightarrow> serve_http r rx s ([], accept) req =
      api_answer custom_route gv (customMetrics_ListAPIResources prov) segs req
        (written_list metric_list_object req (serve_custom (metrics_list_scope gv) prov r req))"
    and "serve_http r rx s headers req \<in> possible_answers gv (customMetrics_ListAPIResources prov) req
      (written_list metric_list_object req (serve_custom (metrics_list_scope gv) prov r req))"
proof -
  let ?g = "cmAPI prov (NewDefaultAPIGroupInfo custom_GroupName scheme) gv"
  have gv: "gv_Group gv = custom_GroupName" "gv_Version gv = ''v1beta1''" "gv = agv_GroupVersion (mg_APIGroupVersion ?g)"
    by (simp_all add: gv_def custom_gv_def)
  have "resolves ?g"
    using assms(5) resolves_any_provider(1) [of prov _ _ example_provider]
    by (auto simp: custom_scheme_def gv_def custom_gv_def split: list.splits)
  then obtain k vl v d where vo: "versioned_objects (newDynamicInstaller ?g) = Ok (k, vl, Pointer v d)"
    using resolvesD by blast
  have parts: "serves_under_apis ?g" "literal (gv_Group gv)" "literal (gv_Version gv)"
    "mg_ResourceLister ?g = Some (customMetrics_ListAPIResources prov)"
    "adds_api CMHandlers_registerResourceHandlers ?g base base'" "prefix (gs_Container base') (gs_Container s)"
    using api_versions steps(1) step_containers [OF steps] by (auto simp: gv_def custom_gv_def custom_step_def prefix_def)
  have run: "run_handler (custom_handlers ?g k ! i) req ctx =
      written_list metric_list_object req (ListResource (metrics_list_scope gv) (REST_List prov) req ctx)"
    if "i < length (custom_handlers ?g k)" "ctx_RequestInfo ctx = Some ri" for i ctx ri
    using custom_handler_answers that unfolding scheme_def by blast
  have range: "i \<le> length (custom_handlers ?g k) \<and> (i = length (custom_handlers ?g k) \<longleftrightarrow> segs = [])"
    if "custom_route segs = Some i" for i
    using routes_in_range(1) [OF that] cm_routed.as_many [of ?g k] by (simp add: custom_templates_def numeral_3_eq_3)
  note roots = new_container [OF assms(3,4) steps api_versions(4,5,4,5)]
  show "accepts_any accept \<Longrightarrow> serve_http r rx s ([], accept) req =
      api_answer custom_route gv (customMetrics_ListAPIResources prov) segs req
        (written_list metric_list_object req (serve_custom (metrics_list_scope gv) prov r req))"
    unfolding serve_custom_def
    by (rule installed_version_answers(1) [OF cm_routed.installed [OF gv(3) parts(1-3) vo parts(4)] run range
        gv(3) [symmetric] parts(1,5,6)])
      (use roots below api_versions \<open>serves_apis r\<close> in \<open>simp_all add: gv(1,2)\<close>)
  show "serve_http r rx s headers req \<in> possible_answers gv (customMetrics_ListAPIResources prov) req
      (written_list metric_list_object req (serve_custom (metrics_list_scope gv) prov r req))"
    unfolding serve_custom_def
    by (rule installed_version_answers(2) [OF cm_routed.installed [OF gv(3) parts(1-3) vo parts(4)] run range
        gv(3) [symmetric] parts(1,5,6)])
      (use roots below api_versions \<open>serves_apis r\<close> in \<open>simp_all add: gv(1,2)\<close>)
qed

lemma external_version_answers:
  fixes flds docs mediaTypes sc
  defines "scheme \<equiv> api_scheme flds docs mediaTypes sc" and "gv \<equiv> external_gv ''v1beta1''"
  assumes "normal_container base" and "without_metrics base" and "external_scheme scheme ''v1beta1''"
    and steps: "custom_step scheme ''v1beta1'' cm base base'" "external_step scheme ''v1beta1'' (Some prov) base' s"
    and "serves_apis r" and below: "below_version external_GroupName ''v1beta1'' segs req"
  shows "accepts_any accept \<Longrightarrow> serve_http r rx s ([], accept) req =
      api_answer external_route gv (externalMetrics_ListAPIResources prov) segs req
        (written_list external_list_object req (serve_external (metrics_list_scope gv) prov r req))"
    and "serve_http r rx s headers req \<in> possible_answers gv (externalMetrics_ListAPIResources prov) req
      (written_list external_list_object req (serve_external (metrics_list_scope gv) prov r req))"
proof -
  let ?g = "emAPI prov (NewDefaultAPIGroupInfo external_GroupName scheme) gv"
  have gv: "gv_Group gv = external_GroupName" "gv_Version gv = ''v1beta1''" "gv = agv_GroupVersion (mg_APIGroupVersion ?g)"
    by (simp_all add: gv_def external_gv_def)
  have "resolves ?g"
    using assms(5) resolves_any_provider(2) [of prov _ _ no_external]
    by (auto simp: external_scheme_def gv_def external_gv_def split: list.splits)
  then obtain k vl v d where vo: "versioned_objects (newDynamicInstaller ?g) = Ok (k, vl, Pointer v d)"
    using resolvesD by blast
  have parts: "serves_under_apis ?g" "literal (gv_Group gv)" "literal (gv_Version gv)"
    "mg_ResourceLister ?g = Some (externalMetrics_ListAPIResources prov)"
    "adds_api EMHandlers_registerResourceHandlers ?g base' s"
    using api_versions steps(2) by (simp_all add: gv_def external_gv_def external_step_def)
  have run: "run_handler ([external_handler ?g k] ! i) req ctx =
      written_list external_list_object req (ListResource (metrics_list_scope gv) (external_List prov) req ctx)"
    if "i < length [external_handler ?g k]" "ctx_RequestInfo ctx = Some ri" for i ctx ri
    using external_handler_answers [OF that(2)] that(1) unfolding scheme_def by simp
  have range: "i \<le> length [external_handler ?g k] \<and> (i = length [external_handler ?g k] \<longleftrightarrow> segs = [])"
    if "external_route segs = Some i" for i
    using routes_in_range(2) [OF that] by simp
  note roots = new_container [OF assms(3,4) steps api_versions(4,5,4,5)]
  show "accepts_any accept \<Longrightarrow> serve_http r rx s ([], accept) req =
      api_answer external_route gv (externalMetrics_ListAPIResources prov) segs req
        (written_list external_list_object req (serve_external (metrics_list_scope gv) prov r req))"
    unfolding serve_external_def
    by (rule installed_version_answers(1) [OF em_routed.installed [OF gv(3) parts(1-3) vo parts(4)] run range
        gv(3) [symmetric] parts(1,5) prefix_order.refl])
      (use roots below api_versions \<open>serves_apis r\<close> in \<open>simp_all add: gv(1,2)\<close>)
  show "serve_http r rx s headers req \<in> possible_answers gv (externalMetrics_ListAPIResources prov) req
      (written_list external_list_object req (serve_external (metrics_list_scope gv) prov r req))"
    unfolding serve_external_def
    by (rule installed_version_answers(2) [OF em_routed.installed [OF gv(3) parts(1-3) vo parts(4)] run range
        gv(3) [symmetric] parts(1,5) prefix_order.refl])
      (use roots below api_versions \<open>serves_apis r\<close> in \<open>simp_all add: gv(1,2)\<close>)
qed

lemma New_answers:
  assumes "generic_new name = Ok base" and "normal_container base" and "without_metrics base" and "serves_apis r"
    and "apiserver_init (NewScheme n) = Ok sc"
    and "New generic_new (api_scheme flds docs mediaTypes sc) name cm em = Ok s"
  shows "cm = Some prov \<Longrightarrow> below_version custom_GroupName ''v1beta1'' segs req \<Longrightarrow> accepts_any accept \<Longrightarrow>
      serve_http r rx (GenericAPIServer s) ([], accept) req =
      api_answer custom_route (custom_gv ''v1beta1'') (customMetrics_ListAPIResources prov) segs req
        (written_list metric_list_object req (serve_custom (metrics_list_scope (custom_gv ''v1beta1'')) prov r req))"
    and "em = Some eprov \<Longrightarrow> below_version external_GroupName ''v1beta1'' segs req \<Longrightarrow> accepts_any accept \<Longrightarrow>
      serve_http r rx (GenericAPIServer s) ([], accept) req =
      api_answer external_route (external_gv ''v1beta1'') (externalMetrics_ListAPIResources eprov) segs req
        (written_list external_list_object req (serve_external (metrics_list_scope (external_gv ''v1beta1'')) eprov r req))"
    and "cm = Some prov \<Longrightarrow> below_version custom_GroupName ''v1beta1'' segs req \<Longrightarrow>
      serve_http r rx (GenericAPIServer s) headers req \<in>
      possible_answers (custom_gv ''v1beta1'') (customMetrics_ListAPIResources prov) req
        (written_list metric_list_object req (serve_custom (metrics_list_scope (custom_gv ''v1beta1'')) prov r req))"
    and "em = Some eprov \<Longrightarrow> below_version external_GroupName ''v1beta1'' segs req \<Longrightarrow>
      serve_http r rx (GenericAPIServer s) headers req \<in>
      possible_answers (external_gv ''v1beta1'') (externalMetrics_ListAPIResources eprov) req
        (written_list external_list_object req (serve_external (metrics_list_scope (external_gv ''v1beta1'')) eprov r req))"
proof -
  note schemes = init_scheme_Ok [OF assms(5), of flds docs mediaTypes]
  obtain base' where steps: "custom_step (api_scheme flds docs mediaTypes sc) ''v1beta1'' cm base base'"
      "external_step (api_scheme flds docs mediaTypes sc) ''v1beta1'' em base' (GenericAPIServer s)"
    using New_steps [where generic_new = generic_new and name = name, OF assms(1,3) schemes, of cm em] assms(6) by auto
  note custom = custom_version_answers [OF assms(2,3) schemes(1) _ steps(2) assms(4)]
  note external = external_version_answers [OF assms(2,3) schemes(2) steps(1) _ assms(4)]
  show "cm = Some prov \<Longrightarrow> below_version custom_GroupName ''v1beta1'' segs req \<Longrightarrow> accepts_any accept \<Longrightarrow>
      serve_http r rx (GenericAPIServer s) ([], accept) req =
      api_answer custom_route (custom_gv ''v1beta1'') (customMetrics_ListAPIResources prov) segs req
        (written_list metric_list_object req (serve_custom (metrics_list_scope (custom_gv ''v1beta1'')) prov r req))"
    using custom(1) steps(1) by simp
  show "em = Some eprov \<Longrightarrow> below_version external_GroupName ''v1beta1'' segs req \<Longrightarrow> accepts_any accept \<Longrightarrow>
      serve_http r rx (GenericAPIServer s) ([], accept) req =
      api_answer external_route (external_gv ''v1beta1'') (externalMetrics_ListAPIResources eprov) segs req
        (written_list external_list_object req (serve_external (metrics_list_scope (external_gv ''v1beta1'')) eprov r req))"
    using external(1) steps(2) by simp
  show "cm = Some prov \<Longrightarrow> below_version custom_GroupName ''v1beta1'' segs req \<Longrightarrow>
      serve_http r rx (GenericAPIServer s) headers req \<in>
      possible_answers (custom_gv ''v1beta1'') (customMetrics_ListAPIResources prov) req
        (written_list metric_list_object req (serve_custom (metrics_list_scope (custom_gv ''v1beta1'')) prov r req))"
    using custom(2) steps(1) by simp
  show "em = Some eprov \<Longrightarrow> below_version external_GroupName ''v1beta1'' segs req \<Longrightarrow>
      serve_http r rx (GenericAPIServer s) headers req \<in>
      possible_answers (external_gv ''v1beta1'') (externalMetrics_ListAPIResources eprov) req
        (written_list external_list_object req (serve_external (metrics_list_scope (external_gv ''v1beta1'')) eprov r req))"
    using external(2) steps(2) by simp
qed

text \<open>
  C6: What a new server answers. On a generic server whose services have different roots in normal form,
  none of them below the two groups, the server is constructed with the scheme \<open>init\<close> fills, for any of
  the two providers being nil. To every request without a \<open>Content-Type\<close>, with no \<open>Accept\<close> header or one
  that accepts anything, of any method and with any query, whose path is the version of an API that has a
  provider or anything below it, it answers: the internal error of the request info filter if
  all that follows the version is one of the special verbs \<open>proxy\<close> and \<open>watch\<close>; otherwise 404 if no
  documented route has the shape of the path, 405 if the method is not \<open>GET\<close>, the resources the provider lists at the
  version itself, and else the list, with the request's path as its self link, or the error, that the
  storage over that provider gives for the request.
\<close>

theorem server_answers:
  assumes "generic_new name = Ok base" and "normal_container base" and "without_metrics base"
    and "serves_apis r" and accept: "accepts_any accept"
  shows "\<exists>sc s. apiserver_init (NewScheme n) = Ok sc \<and>
    New generic_new (api_scheme flds docs mediaTypes sc) name cm em = Ok s \<and>
    (\<forall>prov segs req. cm = Some prov \<longrightarrow> below_version custom_GroupName ''v1beta1'' segs req \<longrightarrow>
       serve_http r rx (GenericAPIServer s) ([], accept) req =
       api_answer custom_route (custom_gv ''v1beta1'') (customMetrics_ListAPIResources prov) segs req
         (written_list metric_list_object req (serve_custom (metrics_list_scope (custom_gv ''v1beta1'')) prov r req))) \<and>
    (\<forall>prov segs req. em = Some prov \<longrightarrow> below_version external_GroupName ''v1beta1'' segs req \<longrightarrow>
       serve_http r rx (GenericAPIServer s) ([], accept) req =
       api_answer external_route (external_gv ''v1beta1'') (externalMetrics_ListAPIResources prov) segs req
         (written_list external_list_object req (serve_external (metrics_list_scope (external_gv ''v1beta1'')) prov r req)))"
proof -
  obtain sc where sc: "apiserver_init (NewScheme n) = Ok sc" using apiserver_init_Ok by blast
  note schemes = init_scheme_Ok [OF sc, of flds docs mediaTypes]
  obtain s where s: "New generic_new (api_scheme flds docs mediaTypes sc) name cm em = Ok s"
    using New_steps [where generic_new = generic_new and name = name, OF assms(1,3) schemes, of cm em] by blast
  show ?thesis
    by (intro exI [of _ sc] exI [of _ s] conjI allI impI) (use sc s New_answers(1,2) [OF assms(1-4) sc s _ _ accept] in simp_all)
qed

lemma example_base_normal: "normal_container example_base"
  unfolding normal_container_def normal_root_def
  by (simp add: example_base_def server_roots_def ws_Path_def new_web_service_def)
    (rule exI [of _ "[''apis'']"], simp add: segment_def has_prefix_def)

abbreviation all_pods :: "string list" where
  "all_pods \<equiv> [''namespaces'', ''ns'', ''pods'', ''*'', ''m'']"

lemma all_pods_below: "below_version custom_GroupName ''v1beta1'' all_pods (api_request custom_GroupName ''v1beta1'' all_pods no_options)"
  by (rule below_versionI) (simp_all add: version_path_def api_request_def segment_def custom_GroupName_def)

lemma watch_below: "below_version custom_GroupName ''v1beta1'' [''watch''] (api_request custom_GroupName ''v1beta1'' [''watch''] no_options)"
  by (rule below_versionI) (simp_all add: version_path_def api_request_def segment_def custom_GroupName_def)

lemma all_pods_link:
  "GenerateListLink (api_request custom_GroupName ''v1beta1'' all_pods no_options) =
    ''/apis/custom.metrics.k8s.io/v1beta1/namespaces/ns/pods/%2A/m''"
  by (simp add: GenerateListLink_def api_request_def custom_GroupName_def EscapedPath_def path_unreserved_def
      unreserved_def hex_digit_def Let_def)
    code_simp

lemma accepts_json_or_any: "accepts_any ''application/json, */*''"
  by (simp add: accepts_any_def media_type_def trim_byte_def trim_left_byte_def trim_right_byte_def)

theorem server_answers_witness:
  "\<exists>sc s. apiserver_init (NewScheme ''scheme'') = Ok sc \<and>
    New (\<lambda>_. Ok example_base) (api_scheme (\<lambda>_. []) (\<lambda>_. None) [] sc) ''adapter'' (Some example_provider) None = Ok s \<and>
    serve_http example_factory (\<lambda>_ _. False) (GenericAPIServer s) ([], ''application/json, */*'')
      (api_request custom_GroupName ''v1beta1'' all_pods no_options) =
    Ok (ListAnswer (MetricValueListObject \<lparr>mvl_Items = []\<rparr>)
      (Some ''/apis/custom.metrics.k8s.io/v1beta1/namespaces/ns/pods/%2A/m'')) \<and>
    serve_http example_factory (\<lambda>_ _. False) (GenericAPIServer s) ([], ''application/json, */*'')
      (api_request custom_GroupName ''v1beta1'' [''watch''] no_options) =
    Err (no_request_info ''/apis/custom.metrics.k8s.io/v1beta1/watch'')"
proof -
  let ?req = "api_request custom_GroupName ''v1beta1'' all_pods no_options"
  have list: "serve_custom (metrics_list_scope (custom_gv ''v1beta1'')) example_provider example_factory ?req =
      Ok (Some \<lparr>mvl_Items = []\<rparr>)"
    by (subst custom_served [OF example_factory_serves, where q = "BySelector ''ns'' labels_Everything (example_info ''pods'' True ''m'')"])
      (simp_all add: segment_def specialVerbs_def namespaceSubresources_def
        object_query_def example_provider_def example_info_def custom_GroupName_def)
  have answer: "api_answer custom_route (custom_gv ''v1beta1'') l all_pods ?req
      (written_list metric_list_object ?req (Ok (Some \<lparr>mvl_Items = []\<rparr>))) =
    Ok (ListAnswer (MetricValueListObject \<lparr>mvl_Items = []\<rparr>)
      (Some ''/apis/custom.metrics.k8s.io/v1beta1/namespaces/ns/pods/%2A/m''))" for l
    by (simp add: api_answer_def written_list_def metric_list_object_def all_pods_link only_special_verb_def)
      (simp add: api_request_def)
  have refused: "api_answer route gv l [''watch''] (api_request custom_GroupName ''v1beta1'' [''watch''] no_options) listing =
      Err (no_request_info ''/apis/custom.metrics.k8s.io/v1beta1/watch'')" for route gv l listing
    by (simp add: api_answer_def only_special_verb_def specialVerbs_def) (simp add: api_request_def custom_GroupName_def)
  from server_answers [where generic_new = "\<lambda>_. Ok example_base", OF refl example_base_normal example_base_without_metrics
      example_factory_serves accepts_json_or_any, of "''scheme''" "\<lambda>_. []" "\<lambda>_. None" "[]" "''adapter''" "Some example_provider" None "\<lambda>_ _. False"]
  obtain sc s where made: "apiserver_init (NewScheme ''scheme'') = Ok sc"
    "New (\<lambda>_. Ok example_base) (api_scheme (\<lambda>_. []) (\<lambda>_. None) [] sc) ''adapter'' (Some example_provider) None = Ok s"
    and answers: "\<And>segs req. below_version custom_GroupName ''v1beta1'' segs req \<Longrightarrow>
      serve_http example_factory (\<lambda>_ _. False) (GenericAPIServer s) ([], ''application/json, */*'') req =
      api_answer custom_route (custom_gv ''v1beta1'') (customMetrics_ListAPIResources example_provider) segs req
        (written_list metric_list_object req
          (serve_custom (metrics_list_scope (custom_gv ''v1beta1'')) example_provider example_factory req))"
    by blast
  from made answers [OF all_pods_below] answers [OF watch_below] show ?thesis
    by (simp only: list answer refused) blast
qed

text \<open>
  C40: Three segments below the version that begin with \<open>namespaces\<close> have the shape of the route for
  root-scoped objects, and are served, but are not read as the metric of a namespace. When the third
  segment is not \<open>metrics\<close>, \<open>status\<close> or \<open>finalize\<close> (which are read in other ways), the query has no field selector and
  does not watch, and the headers play no part, the server lists what the provider
  answers for all objects of the third segment, taken for a resource, in the second, taken for the namespace, and
  for the metric with the empty name.
\<close>

theorem namespaces_root_path_misread:
  assumes "generic_new name = Ok base" and "normal_container base" and "without_metrics base" and "serves_apis r"
    and "apiserver_init (NewScheme n) = Ok sc"
    and "New generic_new (api_scheme flds docs mediaTypes sc) name (Some prov) em = Ok s" and "accepts_any accept"
    and "list_all segment [ns, res]" and "res \<notin> set (''metrics'' # namespaceSubresources)"
    and "selects_no_field opts" and "\<not> lo_Watch opts"
  shows "custom_route [''namespaces'', ns, res] = Some 0 \<and>
    serve_http r rx (GenericAPIServer s) ([], accept) (api_request custom_GroupName ''v1beta1'' [''namespaces'', ns, res] opts) =
      written_list metric_list_object (api_request custom_GroupName ''v1beta1'' [''namespaces'', ns, res] opts)
        (GetMetricBySelector prov ns (options_selector opts)
          \<lparr>cmi_GroupResource = ParseGroupResource res, cmi_Namespaced = True, cmi_Metric = []\<rparr>)"
proof -
  let ?req = "api_request custom_GroupName ''v1beta1'' [''namespaces'', ns, res] opts"
  have "below_version custom_GroupName ''v1beta1'' [''namespaces'', ns, res] ?req"
    using assms(8) by (intro below_versionI) (simp_all add: version_path_def api_request_def custom_GroupName_def segment_def)
  from New_answers(1) [OF assms(1-6) refl this assms(7), of rx] show ?thesis
    using assms(4,8-11) api_versions
    by (simp add: namespaces_root_misread api_answer_def only_special_verb_def) (simp add: api_request_def)
qed

theorem namespaces_root_path_misread_witness:
  "\<exists>sc s. apiserver_init (NewScheme ''scheme'') = Ok sc \<and>
    New (\<lambda>_. Ok example_base) (api_scheme (\<lambda>_. []) (\<lambda>_. None) [] sc) ''adapter''
      (Some (example_provider\<lparr>GetMetricBySelector := (\<lambda>ns sel info.
         Err (NewMetricNotFoundError (cmi_GroupResource info) (cmi_Metric info)))\<rparr>)) None = Ok s \<and>
    serve_http example_factory (\<lambda>_ _. False) (GenericAPIServer s) ([], [])
      (api_request custom_GroupName ''v1beta1'' [''namespaces'', ''prod'', ''queue''] label_options) =
    Err (NewMetricNotFoundError \<lparr>gr_Group = [], gr_Resource = ''queue''\<rparr> [])"
proof -
  let ?prov = "example_provider\<lparr>GetMetricBySelector := (\<lambda>ns sel info.
         Err (NewMetricNotFoundError (cmi_GroupResource info) (cmi_Metric info)))\<rparr>"
  obtain sc where sc: "apiserver_init (NewScheme ''scheme'') = Ok sc" using apiserver_init_Ok by blast
  obtain s where s: "New (\<lambda>_. Ok example_base) (api_scheme (\<lambda>_. []) (\<lambda>_. None) [] sc) ''adapter'' (Some ?prov) None = Ok s"
    using New_steps [where generic_new = "\<lambda>_. Ok example_base", OF refl example_base_without_metrics
        init_scheme_Ok [OF sc, of "\<lambda>_. []" "\<lambda>_. None" "[]"]] by blast
  have "accepts_any []" "list_all segment [''prod'', ''queue'']" "''queue'' \<notin> set (''metrics'' # namespaceSubresources)"
    by (simp_all add: accepts_any_def segment_def namespaceSubresources_def)
  from namespaces_root_path_misread [OF refl example_base_normal example_base_without_metrics example_factory_serves sc s this
      example_queries(4,5), of "\<lambda>_ _. False"] sc s
  show ?thesis by (intro exI [of _ sc] exI [of _ s]) (simp add: written_list_def)
qed

end
