(* ===== verification/Panic_Freedom.thy ===== *)
theory Panic_Freedom
  imports End_To_End Server_Answers
begin

text \<open>
  No request to the APIs makes the adapter panic, whatever has been posted to the sample provider, as
  long as the REST mapper, the dynamic client and the parser of label selectors do not.
\<close>

section \<open>What the sample provider calls\<close>

definition mapper_returns :: "rest_mapper \<Rightarrow> bool" where
  "mapper_returns mapper \<longleftrightarrow>
     (\<forall>r. \<not> aborts (rm_KindFor mapper r) \<and> \<not> aborts (rm_ResourceFor mapper r) \<and> \<not> aborts (rm_ResourcesFor mapper r)) \<and>
     (\<forall>s. \<not> aborts (rm_ResourceSingularizer mapper s))"

definition client_returns :: "dynamic_client \<Rightarrow> bool" where
  "client_returns client \<longleftrightarrow> (\<forall>res ns sel. \<not> aborts (client res ns sel) \<and> client res ns sel \<noteq> Ok None)"

definition provider_returns :: "request_env \<Rightarrow> testing_provider \<Rightarrow> bool" where
  "provider_returns env p \<longleftrightarrow>
     mapper_returns (tp_mapper p) \<and> client_returns (tp_client p) \<and> (\<forall>s. \<not> aborts (env_ParseToLabelSelector env s))"

lemma not_Abort: "\<not> aborts x \<Longrightarrow> x \<noteq> Abort e"
  by auto

lemma Normalized_no_abort: "mapper_returns m \<Longrightarrow> \<not> aborts (snd (Normalized info m))"
  by (auto simp: mapper_returns_def Normalized_def Let_def split: result.splits dest: not_Abort)

lemma valueFor_no_abort:
  assumes "mapper_returns (tp_mapper p)"
  shows "\<not> aborts (valueFor p info nn)"
  using Normalized_no_abort [OF assms, of info]
  by (cases "Normalized info (tp_mapper p)"; cases "snd (Normalized info (tp_mapper p))")
    (auto simp: valueFor_def Let_def split: option.splits)

lemma metricFor_no_abort:
  assumes "provider_returns env p"
  shows "\<not> aborts (metricFor env p k v nn sel info)"
proof -
  have "\<not> aborts (ReferenceFor (tp_mapper p) nn info)"
    using assms by (auto simp: provider_returns_def mapper_returns_def ReferenceFor_def split: result.splits dest: not_Abort)
  moreover have "\<not> aborts (env_ParseToLabelSelector env (sel_String sel))"
    using assms by (simp add: provider_returns_def)
  ultimately show ?thesis
    by (cases "ReferenceFor (tp_mapper p) nn info"; cases "env_ParseToLabelSelector env (sel_String sel)")
      (simp_all add: metricFor_def Let_def)
qed

lemma metricFor_not_nil: "metricFor env p k v nn sel info \<noteq> Ok None"
  by (auto simp: metricFor_def Let_def split: result.splits)

lemma metrics_loop_no_abort:
  assumes "provider_returns env p"
  shows "\<not> aborts (metrics_loop env p ns sel info names res)"
proof (induction names arbitrary: res)
  case (Cons name names)
  let ?nn = "\<lparr>nn_Namespace = ns, nn_Name = name\<rparr>"
  show ?case
  proof (cases "valueFor p info ?nn")
    case (Ok v)
    then show ?thesis
      using Cons.IH metricFor_no_abort [OF assms, of "length res" v ?nn sel info]
        metricFor_not_nil [of env p "length res" v ?nn sel info]
      by (cases "metricFor env p (length res) v ?nn sel info") (auto simp: deref_def split: option.splits)
  next
    case (Abort e)
    then show ?thesis using assms valueFor_no_abort [of p info ?nn] by (simp add: provider_returns_def)
  qed (simp add: Cons.IH)
qed simp

lemma ListObjectNames_no_abort:
  assumes "mapper_returns mapper" and "client_returns client"
  shows "\<not> aborts (ListObjectNames mapper client ns sel info)"
proof -
  have "\<not> aborts (ResourceFor mapper info)"
    using assms(1) ResourceFor_no_new_abort by (auto simp: mapper_returns_def)
  moreover have "\<not> aborts (client res x (sel_String sel))" "client res x (sel_String sel) \<noteq> Ok None" for res x
    using assms(2) by (auto simp: client_returns_def)
  ultimately show ?thesis
    by (auto simp: ListObjectNames_def Let_def IsListType_def each_item_append deref_def
        split: result.splits option.splits if_splits dest: not_Abort)
qed

lemma query_returns_always:
  assumes "provider_returns env p"
  shows "query_returns (as_custom_provider env order p) q"
proof (cases q)
  case (ByName nn info)
  then show ?thesis
    using valueFor_no_abort [of p info nn] metricFor_no_abort [OF assms] assms
    by (cases "valueFor p info nn") (simp_all add: testing_GetMetricByName_def provider_returns_def)
next
  case (BySelector ns sel info)
  have "\<not> aborts (ListObjectNames (tp_mapper p) (tp_client p) ns sel info)"
    using assms by (simp add: provider_returns_def ListObjectNames_no_abort)
  then show ?thesis
    using BySelector
    by (auto simp: testing_GetMetricBySelector_def metricsFor_def not_Abort [OF metrics_loop_no_abort [OF assms]]
        split: result.splits dest: not_Abort)
qed

section \<open>Requests\<close>

lemma field_labels_no_abort: "\<not> aborts (ls_ConvertFieldLabel (metrics_list_scope gv) l v)"
  by (simp add: metrics_list_scope_def DefaultMetaV1FieldSelectorConversion_def)

lemma ListResource_no_abort:
  assumes "\<not> aborts (req_options req)" and "\<forall>l v. \<not> aborts (ls_ConvertFieldLabel scope l v)"
    and "\<And>ctx ri opts. ctx_RequestInfo ctx = Some ri \<Longrightarrow> \<not> aborts (list ctx opts)"
  shows "\<not> aborts (WithRequestInfo r (ListResource scope list) req)"
proof (cases "NewRequestInfo r req")
  case (Pair ri err)
  let ?ctx = "\<lparr>ctx_Namespace = None, ctx_RequestInfo = Some ri\<rparr>"
  have "(\<exists>err. \<forall>f :: request_context \<Rightarrow> list_options option \<Rightarrow> 'a result. ListResource scope f req ?ctx = Err err) \<or>
    (\<exists>ctx' opts. ctx_RequestInfo ctx' = Some ri \<and>
      (\<forall>f :: request_context \<Rightarrow> list_options option \<Rightarrow> 'a result. ListResource scope f req ?ctx = f ctx' (Some opts)))"
    by (rule ListResource_reaches [OF assms(1,2)]) simp
  then have "\<not> aborts (ListResource scope list req ?ctx)" using assms(3) by auto
  then show ?thesis by (cases err) (simp_all add: WithRequestInfo_def Pair)
qed

lemma possible_answers_no_abort:
  "x \<in> possible_answers gv l req (written_list obj req listing) \<Longrightarrow> \<not> aborts listing \<Longrightarrow> \<not> aborts x"
  by (cases listing) (auto simp: possible_answers_def written_list_def no_request_info_def)

text \<open>
  C12: No request panics. Whatever has been posted to the sample provider, the server made of it answers
  every request whose path is the version of either API or anything below it, of any method, with any headers and with any query that
  can be decoded or refused, without a panic, as long as the REST mapper, the dynamic client (which
  answers no nil list) and the parser of label selectors do not panic.
\<close>

theorem no_request_panics:
  assumes "generic_new host = Ok base" and "normal_container base" and "without_metrics base"
    and "apiserver_init (NewScheme n) = Ok sc" and "serves_apis r"
    and "New generic_new (api_scheme flds docs mediaTypes sc) host (Some (as_custom_provider env order p))
           (Some (as_external_provider env p)) = Ok s"
    and "provider_returns env p" and "\<not> aborts (req_options req)"
    and "below_version custom_GroupName ''v1beta1'' segs req \<or> below_version external_GroupName ''v1beta1'' segs req"
  shows "\<not> aborts (serve_http r rx (GenericAPIServer s) headers req)"
proof -
  note answers = New_answers(3,4) [OF assms(1-3,5,4,6) refl] and labels = field_labels_no_abort
  show ?thesis
    using assms(9)
  proof
    assume below: "below_version custom_GroupName ''v1beta1'' segs req"
    have "\<not> aborts (REST_List (as_custom_provider env order p) ctx opts)" if "ctx_RequestInfo ctx = Some ri" for ctx ri opts
      using REST_List_query [OF that, of opts] tprov.query_no_new_panic [OF query_returns_always [OF assms(7)]] by auto
    then show ?thesis
      by (intro possible_answers_no_abort [OF answers(1) [OF below]])
        (unfold serve_custom_def, intro ListResource_no_abort assms(8) allI labels)
  next
    assume below: "below_version external_GroupName ''v1beta1'' segs req"
    have "\<not> aborts (external_List (as_external_provider env p) ctx opts)" if "ctx_RequestInfo ctx = Some ri" for ctx ri opts
      using external_List_query [OF that, of opts]
      by (auto simp: as_external_provider_def testing_GetExternalMetric_def)
    then show ?thesis
      by (intro possible_answers_no_abort [OF answers(2) [OF below]])
        (unfold serve_external_def, intro ListResource_no_abort assms(8) allI labels)
  qed
qed

lemma example_returns: "provider_returns example_env example_testing"
proof -
  have "\<not> aborts (find_known r)" for r by (auto simp: find_known_def split: option.splits)
  then show ?thesis
    by (auto simp: provider_returns_def mapper_returns_def client_returns_def example_testing_def NewFakeProvider_def
        example_client_def example_env_def example_mapper_def split: option.splits)
qed

text \<open>A request of another shape and method, with a JSON body and a query that cannot be decoded.\<close>

definition odd_post :: http_request where
  "odd_post = \<lparr>req_Method = ''POST'', req_Path = ''/apis/external.metrics.k8s.io/v1beta1//namespaces//queue/'',
     req_RawPath = [], req_options = Err (OtherError ''invalid query''), req_watch = []\<rparr>"

theorem no_request_panics_witness:
  "\<exists>sc s. apiserver_init (NewScheme ''scheme'') = Ok sc \<and>
    New (\<lambda>_. Ok example_base) (api_scheme (\<lambda>_. []) (\<lambda>_. None) [] sc) ''adapter''
      (Some (as_custom_provider example_env id example_testing)) (Some (as_external_provider example_env example_testing)) = Ok s \<and>
    \<not> aborts (serve_http example_factory (\<lambda>_ _. False) (GenericAPIServer s) (''application/json'', ''text/plain'') odd_post)"
proof -
  obtain sc where sc: "apiserver_init (NewScheme ''scheme'') = Ok sc" using apiserver_init_Ok by blast
  obtain s where s: "New (\<lambda>_. Ok example_base) (api_scheme (\<lambda>_. []) (\<lambda>_. None) [] sc) ''adapter''
      (Some (as_custom_provider example_env id example_testing)) (Some (as_external_provider example_env example_testing)) = Ok s"
    using New_installs [where generic_new = "\<lambda>_. Ok example_base", OF refl example_base_without_metrics
        init_scheme_Ok [OF sc, of "\<lambda>_. []" "\<lambda>_. None" "[]"]] by blast
  have "below_version external_GroupName ''v1beta1'' (drop 3 (tokenizePath (req_Path odd_post))) odd_post"
    by (simp add: below_version_def version_path_root external_GroupName_def has_prefix_def) (simp add: odd_post_def)
  then have "\<not> aborts (serve_http example_factory (\<lambda>_ _. False) (GenericAPIServer s) (''application/json'', ''text/plain'') odd_post)"
    by (intro no_request_panics [OF refl example_base_normal example_base_without_metrics sc example_factory_serves s
        example_returns, of odd_post "drop 3 (tokenizePath (req_Path odd_post))"] disjI2)
      (simp_all add: odd_post_def)
  with sc s show ?thesis by blast
qed

end
