(* ===== verification/Testing_Concurrent.thy ===== *)
theory Testing_Concurrent
  imports Testing_Correct Rw_Mutex
begin

text \<open>
  The sample provider under concurrent requests: \<open>updateMetric\<close> holds the write lock from before the
  normalisation to after the store, the reading methods the read lock. The write of the guarded state
  is one update with the path parameters and the body of its request; a write that does not store
  leaves the state as it is.
\<close>

type_synonym metric_write = "(string, string) go_map \<times> quantity result"

definition provider_write :: "metric_write \<Rightarrow> testing_provider \<Rightarrow> testing_provider" where
  "provider_write w p = fst (updateMetric (fst w) (snd w) p)"

text \<open>What no write changes, and the map that stays one.\<close>

definition provider_good ::
  "dynamic_client \<Rightarrow> rest_mapper \<Rightarrow> testing_provider \<Rightarrow> bool" where
  "provider_good client mapper p \<longleftrightarrow>
     tp_client p = client \<and> tp_mapper p = mapper \<and> tp_externalMetrics p = testingExternalMetrics \<and>
     go_map_wf (tp_values p)"

interpretation gprov: guarded_state provider_write "provider_good client mapper"
  by unfold_locales (simp add: provider_good_def provider_write_def go_map_wf_updateMetric)

lemma provider_good_new: "provider_good client mapper (fst (NewFakeProvider client mapper))"
  by (simp add: provider_good_def NewFakeProvider_def)

section \<open>The last write\<close>

text \<open>The value a write stores under a key, if it stores one there.\<close>

definition writes_to ::
  "rest_mapper \<Rightarrow> custom_metric_info \<Rightarrow> namespaced_name \<Rightarrow> metric_write \<Rightarrow> quantity option" where
  "writes_to mapper i nn w =
     (case snd w of
        Ok v \<Rightarrow>
          (case Normalized (write_info (fst w)) mapper of
             (winfo, r) \<Rightarrow>
               if \<not> aborts r \<and> winfo = i \<and> write_name (fst w) = nn then Some v else None)
      | _ \<Rightarrow> None)"

fun last_write ::
  "rest_mapper \<Rightarrow> custom_metric_info \<Rightarrow> namespaced_name \<Rightarrow> metric_write list \<Rightarrow> quantity option" where
  "last_write mapper i nn [] = None"
| "last_write mapper i nn (w # ws) =
     (case last_write mapper i nn ws of Some v \<Rightarrow> Some v | None \<Rightarrow> writes_to mapper i nn w)"

lemma stored_provider_write:
  "stored (provider_write w p) i nn =
     (case writes_to (tp_mapper p) i nn w of Some v \<Rightarrow> Some v | None \<Rightarrow> stored p i nn)"
  by (auto simp: provider_write_def updateMetric_def writes_to_def stored_def Let_def
      split: result.splits prod.splits)

lemma provider_write_mapper [simp]: "tp_mapper (provider_write w p) = tp_mapper p"
  by (simp add: provider_write_def)

lemma stored_writes:
  "stored (foldl (\<lambda>p w. provider_write w p) p ws) i nn =
     (case last_write (tp_mapper p) i nn ws of Some v \<Rightarrow> Some v | None \<Rightarrow> stored p i nn)"
  by (induction ws arbitrary: p) (auto simp: stored_provider_write split: option.splits)

text \<open>
  C4: Concurrent requests behave as if they came one after the other. In every interleaving of write
  and read requests to a new provider, a read sees one state for its whole body, and the value it
  finds for an object is the one stored by the last write to that identity in the order the writes
  were stored, or the not-found error when there is none: no write is lost and none is half seen.
\<close>

theorem concurrent_read_last_write:
  assumes "rw_reachable provider_write (fst (NewFakeProvider client mapper)) m"
    and "m_pc m t = RDone p p'"
    and "Normalized info mapper = (info', Ok s)"
  shows "p = p' \<and> provider_good client mapper p \<and>
    valueFor p info nn =
      (case last_write mapper info' nn (m_log m) of
         None \<Rightarrow> Err (NewMetricNotFoundForError (cmi_GroupResource info') (cmi_Metric info') (nn_Name nn))
       | Some v \<Rightarrow> Ok v)"
proof -
  let ?p0 = "fst (NewFakeProvider client mapper)"
  have good: "provider_good client mapper p" and same: "p = p'"
    using gprov.reader_sees_good [OF provider_good_new assms(1,2)] by auto
  have p: "p = foldl (\<lambda>p w. provider_write w p) ?p0 (m_log m)"
    using rw_read_one_state [OF assms(1,2)] by blast
  have "stored p info' nn = last_write mapper info' nn (m_log m)"
    unfolding p stored_writes by (simp add: NewFakeProvider_def stored_def split: option.splits)
  moreover have "Normalized info (tp_mapper p) = (info', Ok s)"
    using good assms(3) by (simp add: provider_good_def)
  ultimately show ?thesis
    using good same by (simp add: valueFor_normalized)
qed

theorem concurrent_read_last_write_witness:
  "\<exists>m p. rw_reachable provider_write example_testing m \<and> m_pc m 3 = RDone p p \<and>
     valueFor p (example_info ''pods'' True ''m'') \<lparr>nn_Namespace = ''ns'', nn_Name = ''web''\<rparr> = Ok q300"
proof -
  let ?w = "(pod_params, Ok q300)"
  let ?m0 = "unlocked example_testing :: (testing_provider, metric_write) machine"
  let ?m = "?m0\<lparr>m_state := provider_write ?w (m_state ?m0), m_log := m_log ?m0 @ [?w]\<rparr>"
  have "rw_reachable provider_write example_testing ?m"
    by (rule reachable_write [OF rw_reachable.start]) (simp_all add: unlocked_def)
  then obtain m where m: "rw_reachable provider_write example_testing m"
    and pc: "m_pc m 3 = RDone (m_state ?m) (m_state ?m)" and log: "m_log m = m_log ?m"
    using reachable_read [of provider_write example_testing ?m 3] by (auto simp: unlocked_def)
  have "valueFor (m_state ?m) (example_info ''pods'' True ''m'')
      \<lparr>nn_Namespace = ''ns'', nn_Name = ''web''\<rparr> = Ok q300"
    using concurrent_read_last_write [where nn = "\<lparr>nn_Namespace = ''ns'', nn_Name = ''web''\<rparr>",
        OF m [unfolded example_testing_def] pc example_Normalized(2) [of "''m''"]]
    by (simp add: log unlocked_def writes_to_def pod_params_simps example_Normalized)
  with m pc show ?thesis by blast
qed

end
