(* ===== verification/Fake_Discovery.thy ===== *)
theory Fake_Discovery
  imports Provider_Api
begin

text \<open>
  \<open>pkg/dynamicmapper/fake_discovery.go\<close>: a discovery client over a fixed list of API resources, which
  records what it is asked (\<open>testing.Fake\<close>; it is used without reactors, so \<open>Invokes\<close> only records).
  The elements of \<open>Resources\<close> are not nil.
\<close>

record api_resource_list =
  arl_GroupVersion :: string
  arl_APIResources :: "api_resource list"

record action_impl =
  act_Verb :: string
  act_Resource :: group_version_resource

record fake_discovery =
  fd_Actions :: "action_impl list"
  fd_Resources :: "api_resource_list list"

definition Invokes :: "action_impl \<Rightarrow> fake_discovery \<Rightarrow> fake_discovery" where
  "Invokes action c = c\<lparr>fd_Actions := fd_Actions c @ [action]\<rparr>"

definition get_action :: "string \<Rightarrow> action_impl" where
  "get_action r = \<lparr>act_Verb = ''get'',
     act_Resource = \<lparr>gvr_Group = [], gvr_Version = [], gvr_Resource = r\<rparr>\<rparr>"

section \<open>The methods\<close>

fun find_resources :: "string \<Rightarrow> api_resource_list list \<Rightarrow> api_resource_list result" where
  "find_resources groupVersion [] = Err (Errorf ''GroupVersion %q not found'' [groupVersion] [])"
| "find_resources groupVersion (resourceList # ls) =
     (if arl_GroupVersion resourceList = groupVersion then Ok resourceList
      else find_resources groupVersion ls)"

definition ServerResourcesForGroupVersion ::
  "string \<Rightarrow> fake_discovery \<Rightarrow> fake_discovery \<times> api_resource_list result" where
  "ServerResourcesForGroupVersion groupVersion c =
     (Invokes (get_action ''resource'') c, find_resources groupVersion (fd_Resources c))"

definition ServerResources ::
  "fake_discovery \<Rightarrow> fake_discovery \<times> api_resource_list list result" where
  "ServerResources c = (Invokes (get_action ''resource'') c, Ok (fd_Resources c))"

definition ServerPreferredResources ::
  "fake_discovery \<Rightarrow> fake_discovery \<times> api_resource_list list result" where
  "ServerPreferredResources c = (c, Ok [])"

definition ServerPreferredNamespacedResources ::
  "fake_discovery \<Rightarrow> fake_discovery \<times> api_resource_list list result" where
  "ServerPreferredNamespacedResources c = (c, Ok [])"

text \<open>The first loop of \<open>ServerGroups\<close>: the groups by name, and the set of all group-versions.\<close>

fun groups_loop ::
  "api_resource_list list \<Rightarrow> (string, api_group) go_map \<Rightarrow>
   (group_version_for_discovery, unit) go_map \<Rightarrow>
   ((string, api_group) go_map \<times> (group_version_for_discovery, unit) go_map) result" where
  "groups_loop [] groups groupVersions = Ok (groups, groupVersions)"
| "groups_loop (resourceList # ls) groups groupVersions =
     (case ParseGroupVersion (arl_GroupVersion resourceList) of
        Abort e \<Rightarrow> Abort e
      | Err err \<Rightarrow> Err err
      | Ok groupVer \<Rightarrow>
          let groupVerForDisc = \<lparr>gvd_GroupVersion = arl_GroupVersion resourceList,
                                 gvd_Version = gv_Version groupVer\<rparr>;
              agroup = (case go_get groups (gv_Group groupVer) of
                         Some agroup \<Rightarrow> agroup
                       | None \<Rightarrow> \<lparr>ag_Name = gv_Group groupVer, ag_Versions = [],
                                  ag_PreferredVersion = groupVerForDisc\<rparr>)
          in groups_loop ls
               (go_put (gv_Group groupVer)
                  (agroup\<lparr>ag_Versions := ag_Versions agroup @ [groupVerForDisc]\<rparr>) groups)
               (go_put groupVerForDisc () groupVersions))"

text \<open>The loop over the versions of a group, and the one over the groups, in the order of the map.\<close>

fun versions_loop ::
  "group_version_for_discovery list \<Rightarrow> (group_version_for_discovery, unit) go_map \<Rightarrow>
   group_version_for_discovery list \<Rightarrow>
   (group_version_for_discovery, unit) go_map \<times> group_version_for_discovery list" where
  "versions_loop [] groupVersions acc = (groupVersions, acc)"
| "versions_loop (groupVer # vs) groupVersions acc =
     (case go_get groupVersions groupVer of
        Some _ \<Rightarrow> versions_loop vs (go_delete groupVer groupVersions) (acc @ [groupVer])
      | None \<Rightarrow> versions_loop vs groupVersions acc)"

fun group_list_loop ::
  "api_group list \<Rightarrow> (group_version_for_discovery, unit) go_map \<Rightarrow> api_group list \<Rightarrow> api_group list" where
  "group_list_loop [] groupVersions groupList = groupList"
| "group_list_loop (agroup # gs) groupVersions groupList =
     (let (groupVersions', versions) = versions_loop (ag_Versions agroup) groupVersions []
      in group_list_loop gs groupVersions'
           (groupList @ [\<lparr>ag_Name = ag_Name agroup, ag_Versions = versions,
                          ag_PreferredVersion = ag_PreferredVersion agroup\<rparr>]))"

text \<open>\<open>order\<close> is the order in which the runtime visits the map of groups.\<close>

definition ServerGroups ::
  "((string \<times> api_group) list \<Rightarrow> (string \<times> api_group) list) \<Rightarrow> fake_discovery \<Rightarrow>
   api_group list result" where
  "ServerGroups order c =
     bind_result (groups_loop (fd_Resources c) [] []) (\<lambda>(groups, groupVersions).
       Ok (group_list_loop (map snd (order groups)) groupVersions []))"

definition ServerVersion :: "'v \<Rightarrow> fake_discovery \<Rightarrow> fake_discovery \<times> 'v result" where
  "ServerVersion versionInfo c = (Invokes (get_action ''version'') c, Ok versionInfo)"

text \<open>The empty declaration and the empty document carry nothing; \<open>v1.SchemeGroupVersion\<close> is \<open>v1\<close>.\<close>

definition SwaggerSchema :: "group_version \<Rightarrow> fake_discovery \<Rightarrow> fake_discovery \<times> unit result" where
  "SwaggerSchema version c =
     (let r = (if version = \<lparr>gv_Group = [], gv_Version = ''v1''\<rparr>
               then ''/swaggerapi/api/'' @ gv_Version version
               else ''/swaggerapi/apis/'' @ gv_Group version @ ''/'' @ gv_Version version)
      in (Invokes (get_action r) c, Ok ()))"

definition OpenAPISchema :: "fake_discovery \<Rightarrow> fake_discovery \<times> unit result" where
  "OpenAPISchema c = (c, Ok ())"

section \<open>What the groups are\<close>

text \<open>The elements of a list in the order they first occur.\<close>

fun firsts :: "'a list \<Rightarrow> 'a list" where
  "firsts [] = []"
| "firsts (x # xs) = x # filter (\<lambda>y. y \<noteq> x) (firsts xs)"

lemma set_firsts [simp]: "set (firsts xs) = set xs"
  by (induction xs) auto

lemma distinct_firsts [simp]: "distinct (firsts xs)"
  by (induction xs) auto

lemma hd_firsts: "hd (firsts xs) = hd xs"
  by (cases xs) auto

lemma firsts_Nil_iff [simp]: "firsts xs = [] \<longleftrightarrow> xs = []"
  by (cases xs) auto

text \<open>The group and the discovery entry of one group-version.\<close>

definition group_of :: "string \<Rightarrow> string" where
  "group_of s = (case ParseGroupVersion s of Ok gv \<Rightarrow> gv_Group gv | _ \<Rightarrow> [])"

definition entry_of :: "string \<Rightarrow> group_version_for_discovery" where
  "entry_of s = \<lparr>gvd_GroupVersion = s,
     gvd_Version = (case ParseGroupVersion s of Ok gv \<Rightarrow> gv_Version gv | _ \<Rightarrow> [])\<rparr>"

definition parses :: "string \<Rightarrow> bool" where
  "parses s \<longleftrightarrow> is_ok (ParseGroupVersion s)"

text \<open>The entries of a group among the listed group-versions.\<close>

definition entries_of :: "string \<Rightarrow> string list \<Rightarrow> group_version_for_discovery list" where
  "entries_of g ss = map entry_of (filter (\<lambda>s. group_of s = g) ss)"

lemma entries_of_snoc:
  "entries_of g (ss @ [s]) = entries_of g ss @ (if group_of s = g then [entry_of s] else [])"
  by (simp add: entries_of_def)

lemma entries_of_Nil_iff: "entries_of g ss = [] \<longleftrightarrow> g \<notin> group_of ` set ss"
  by (auto simp: entries_of_def filter_empty_conv)

definition collected ::
  "string list \<Rightarrow> (string, api_group) go_map \<Rightarrow> (group_version_for_discovery, unit) go_map \<Rightarrow> bool" where
  "collected ss groups groupVersions \<longleftrightarrow>
     go_map_wf groups \<and> set (go_keys groupVersions) = entry_of ` set ss \<and>
     (\<forall>g. go_get groups g =
        (if entries_of g ss = [] then None
         else Some \<lparr>ag_Name = g, ag_Versions = entries_of g ss,
                    ag_PreferredVersion = hd (entries_of g ss)\<rparr>))"

lemma groups_loop_collected:
  assumes "\<forall>r \<in> set rs. parses (arl_GroupVersion r)" and "collected ss groups groupVersions"
  shows "\<exists>groups' groupVersions'. groups_loop rs groups groupVersions = Ok (groups', groupVersions') \<and>
    collected (ss @ map arl_GroupVersion rs) groups' groupVersions'"
  using assms
proof (induction rs arbitrary: ss groups groupVersions)
  case Nil
  then show ?case by simp
next
  case (Cons r rs)
  let ?s = "arl_GroupVersion r"
  obtain gv where gv: "ParseGroupVersion ?s = Ok gv"
    using Cons.prems(1) by (auto simp: parses_def is_ok_iff)
  define agroup where "agroup = (case go_get groups (gv_Group gv) of Some agroup \<Rightarrow> agroup
     | None \<Rightarrow> \<lparr>ag_Name = gv_Group gv, ag_Versions = [], ag_PreferredVersion = \<lparr>gvd_GroupVersion = ?s, gvd_Version = gv_Version gv\<rparr>\<rparr>)"
  have entry: "entry_of ?s = \<lparr>gvd_GroupVersion = ?s, gvd_Version = gv_Version gv\<rparr>"
    and grp: "group_of ?s = gv_Group gv" by (simp_all add: entry_of_def group_of_def gv)
  have "agroup\<lparr>ag_Versions := ag_Versions agroup @ [entry_of ?s]\<rparr> =
      \<lparr>ag_Name = gv_Group gv, ag_Versions = entries_of (gv_Group gv) (ss @ [?s]),
       ag_PreferredVersion = hd (entries_of (gv_Group gv) (ss @ [?s]))\<rparr>"
    using Cons.prems(2) by (auto simp: agroup_def collected_def entries_of_snoc grp entry)
  then have "collected (ss @ [?s])
      (go_put (gv_Group gv) (agroup\<lparr>ag_Versions := ag_Versions agroup @ [entry_of ?s]\<rparr>) groups)
      (go_put (entry_of ?s) () groupVersions)"
    using Cons.prems(2) by (auto simp: collected_def entries_of_snoc grp)
  from Cons.IH [OF _ this] Cons.prems(1) show ?case
    by (simp add: gv entry agroup_def Let_def)
qed

lemma versions_loop_filter:
  assumes "versions_loop vs m acc = (m', out)"
  shows "set (go_keys m') = set (go_keys m) - set vs"
    and "out = acc @ filter (\<lambda>v. v \<in> set (go_keys m)) (firsts vs)"
proof -
  have "set (go_keys (fst (versions_loop vs m acc))) = set (go_keys m) - set vs \<and>
    snd (versions_loop vs m acc) = acc @ filter (\<lambda>v. v \<in> set (go_keys m)) (firsts vs)"
  proof (induction vs arbitrary: m acc)
    case Nil
    then show ?case by simp
  next
    case (Cons v vs)
    show ?case
    proof (cases "go_get m v")
      case None
      then have "v \<notin> set (go_keys m)" by (simp add: set_go_keys domIff)
      then show ?thesis
        using Cons.IH [of m acc] None by (auto simp: filter_filter intro!: filter_cong)
    next
      case (Some u)
      then have "v \<in> set (go_keys m)" by (auto simp: set_go_keys)
      moreover have "set (go_keys (go_delete v m)) = set (go_keys m) - {v}"
        by (auto simp: set_go_keys split: if_splits)
      ultimately show ?thesis
        using Cons.IH [of "go_delete v m" "acc @ [v]"] Some
        by (auto simp: filter_filter intro!: filter_cong)
    qed
  qed
  then show "set (go_keys m') = set (go_keys m) - set vs"
    and "out = acc @ filter (\<lambda>v. v \<in> set (go_keys m)) (firsts vs)"
    using assms by simp_all
qed

text \<open>The groups' version lists are disjoint, so each keeps its own first occurrences.\<close>

definition deduplicated :: "api_group \<Rightarrow> api_group" where
  "deduplicated g = g\<lparr>ag_Versions := firsts (ag_Versions g)\<rparr>"

lemma group_list_loop_deduplicated:
  assumes "\<forall>g \<in> set gs. set (ag_Versions g) \<subseteq> set (go_keys m)"
    and "distinct gs"
    and "\<forall>g \<in> set gs. \<forall>h \<in> set gs. g \<noteq> h \<longrightarrow> set (ag_Versions g) \<inter> set (ag_Versions h) = {}"
  shows "group_list_loop gs m acc = acc @ map deduplicated gs"
  using assms
proof (induction gs arbitrary: m acc)
  case Nil
  then show ?case by simp
next
  case (Cons g gs)
  obtain m' out where loop: "versions_loop (ag_Versions g) m [] = (m', out)" by fastforce
  note v = versions_loop_filter [OF loop]
  have "filter (\<lambda>v. v \<in> set (go_keys m)) (firsts (ag_Versions g)) = firsts (ag_Versions g)"
    using Cons.prems(1) by (auto simp: filter_id_conv)
  then have out: "out = firsts (ag_Versions g)" using v(2) by simp
  have "\<forall>h \<in> set gs. set (ag_Versions h) \<subseteq> set (go_keys m')"
    using Cons.prems unfolding v(1) by fastforce
  then have "group_list_loop gs m' (acc @ [deduplicated g])
      = (acc @ [deduplicated g]) @ map deduplicated gs"
    using Cons.prems by (intro Cons.IH) auto
  moreover have "deduplicated g = \<lparr>ag_Name = ag_Name g, ag_Versions = out,
      ag_PreferredVersion = ag_PreferredVersion g\<rparr>"
    by (cases g) (simp add: deduplicated_def out)
  ultimately show ?case by (simp add: loop)
qed

lemma collected_start: "collected [] [] []"
  by (simp add: collected_def entries_of_def)

text \<open>What the collected map of groups holds.\<close>

definition group_entry :: "string list \<Rightarrow> string \<Rightarrow> api_group" where
  "group_entry ss g = \<lparr>ag_Name = g, ag_Versions = entries_of g ss,
     ag_PreferredVersion = hd (entries_of g ss)\<rparr>"

lemma collected_entries:
  assumes "collected ss groups m"
  shows "distinct (map snd groups)"
    and "set (map snd groups) = group_entry ss ` (group_of ` set ss)"
proof -
  have wf: "distinct (map fst groups)" and get: "\<And>g. go_get groups g =
      (if entries_of g ss = [] then None else Some (group_entry ss g))"
    using assms by (simp_all add: collected_def go_map_wf_def go_keys_def group_entry_def)
  have in_iff: "(g, a) \<in> set groups \<longleftrightarrow> g \<in> group_of ` set ss \<and> a = group_entry ss g" for g a
  proof -
    have "(g, a) \<in> set groups \<longleftrightarrow> go_get groups g = Some a"
      using wf by (simp add: map_of_eq_Some_iff)
    then show ?thesis by (auto simp: get entries_of_Nil_iff)
  qed
  show "set (map snd groups) = group_entry ss ` (group_of ` set ss)"
  proof -
    have "set groups = (\<lambda>g. (g, group_entry ss g)) ` (group_of ` set ss)"
      using in_iff by fast
    then show ?thesis by (simp add: image_image)
  qed
  have "inj_on snd (set groups)"
    by (rule inj_onI) (auto simp: in_iff group_entry_def)
  then show "distinct (map snd groups)"
    using wf by (simp add: distinct_map)
qed

lemma ServerGroups_groups:
  assumes "\<forall>r \<in> set (fd_Resources c). parses (arl_GroupVersion r)"
    and order: "\<And>xs. mset (order xs) = mset xs"
  shows "\<exists>gs. ServerGroups order c = Ok gs \<and>
    distinct (map ag_Name gs) \<and>
    set (map ag_Name gs) = group_of ` arl_GroupVersion ` set (fd_Resources c) \<and>
    (\<forall>g \<in> set gs.
       ag_Versions g = firsts (entries_of (ag_Name g) (map arl_GroupVersion (fd_Resources c))) \<and>
       ag_PreferredVersion g = hd (ag_Versions g))"
proof -
  let ?ss = "map arl_GroupVersion (fd_Resources c)"
  obtain groups m where loop: "groups_loop (fd_Resources c) [] [] = Ok (groups, m)"
    and col: "collected ?ss groups m"
    using groups_loop_collected [OF assms(1) collected_start] by auto
  let ?gs = "map snd (order groups)"
  have mset: "mset ?gs = mset (map snd groups)" using order [of groups] by simp
  have set: "set ?gs = group_entry ?ss ` (group_of ` set ?ss)" and dist: "distinct ?gs"
    using collected_entries [OF col] mset_eq_setD [OF mset] mset_eq_imp_distinct_iff [OF mset] by auto
  have keys: "set (go_keys m) = entry_of ` set ?ss" using col by (simp add: collected_def)
  have "group_list_loop ?gs m [] = map deduplicated ?gs"
  proof (rule group_list_loop_deduplicated [where acc = "[]", simplified append_Nil])
    show "\<forall>g \<in> set ?gs. set (ag_Versions g) \<subseteq> set (go_keys m)"
      unfolding set keys by (auto simp: group_entry_def entries_of_def)
    show "\<forall>g \<in> set ?gs. \<forall>h \<in> set ?gs. g \<noteq> h \<longrightarrow> set (ag_Versions g) \<inter> set (ag_Versions h) = {}"
      unfolding set by (auto simp: group_entry_def entries_of_def entry_of_def)
  qed (rule dist)
  then have ok: "ServerGroups order c = Ok (map deduplicated ?gs)"
    by (simp add: ServerGroups_def loop)
  have names: "map ag_Name (map deduplicated ?gs) = map ag_Name ?gs"
    by (simp add: deduplicated_def)
  have "inj_on ag_Name (set ?gs)"
    unfolding set by (auto intro!: inj_onI simp: group_entry_def)
  then have "distinct (map ag_Name (map deduplicated ?gs))"
    unfolding names using dist by (simp only: distinct_map)
  moreover have "set (map ag_Name (map deduplicated ?gs))
      = group_of ` arl_GroupVersion ` set (fd_Resources c)"
    unfolding names set_map [of ag_Name] set by (simp add: image_image group_entry_def)
  moreover have "\<forall>g \<in> set (map deduplicated ?gs).
       ag_Versions g = firsts (entries_of (ag_Name g) ?ss) \<and> ag_PreferredVersion g = hd (ag_Versions g)"
    unfolding set_map [of deduplicated] set by (auto simp: deduplicated_def group_entry_def hd_firsts)
  ultimately show ?thesis using ok by blast
qed

text \<open>
  C19: The groups of a discovery whose group-versions all parse: whatever the order in which the
  runtime visits the map, each group that occurs is listed once; its versions are the group-versions
  listed for it, each once, in the order of their first occurrence; and its preferred version is the
  first of them.
\<close>

theorem ServerGroups_exact:
  assumes "\<forall>r \<in> set (fd_Resources c). parses (arl_GroupVersion r)"
    and order: "\<And>xs. mset (order xs) = mset xs"
  shows "\<exists>gs. ServerGroups order c = Ok gs \<and>
    distinct (map ag_Name gs) \<and>
    set (map ag_Name gs) = group_of ` arl_GroupVersion ` set (fd_Resources c) \<and>
    (\<forall>g \<in> set gs.
       ag_Versions g = firsts (entries_of (ag_Name g) (map arl_GroupVersion (fd_Resources c))) \<and>
       ag_PreferredVersion g = hd (ag_Versions g))"
  using assms(1) order by (rule ServerGroups_groups)

definition example_discovery :: fake_discovery where
  "example_discovery = \<lparr>fd_Actions = [], fd_Resources =
     [\<lparr>arl_GroupVersion = ''wardle/v1alpha1'', arl_APIResources = []\<rparr>,
      \<lparr>arl_GroupVersion = ''v1'', arl_APIResources = []\<rparr>,
      \<lparr>arl_GroupVersion = ''wardle/v1'', arl_APIResources = []\<rparr>,
      \<lparr>arl_GroupVersion = ''wardle/v1alpha1'', arl_APIResources = []\<rparr>]\<rparr>"

lemma ParseGroupVersion_examples [simp]:
  "ParseGroupVersion ''v1'' = Ok \<lparr>gv_Group = [], gv_Version = ''v1''\<rparr>"
  "ParseGroupVersion ''wardle/v1'' = Ok \<lparr>gv_Group = ''wardle'', gv_Version = ''v1''\<rparr>"
  "ParseGroupVersion ''wardle/v1alpha1'' = Ok \<lparr>gv_Group = ''wardle'', gv_Version = ''v1alpha1''\<rparr>"
  by (simp_all add: ParseGroupVersion_def)

theorem ServerGroups_exact_witness:
  "\<exists>gs. ServerGroups rev example_discovery = Ok gs \<and>
     (\<forall>g \<in> set gs. ag_Name g = ''wardle'' \<longrightarrow>
        map gvd_Version (ag_Versions g) = [''v1alpha1'', ''v1''])"
proof -
  have ok: "\<forall>r \<in> set (fd_Resources example_discovery). parses (arl_GroupVersion r)"
    by (simp add: example_discovery_def parses_def)
  have "firsts (entries_of ''wardle'' (map arl_GroupVersion (fd_Resources example_discovery))) =
      [entry_of ''wardle/v1alpha1'', entry_of ''wardle/v1'']"
    by (simp add: example_discovery_def entries_of_def group_of_def entry_of_def)
  then show ?thesis
    using ServerGroups_exact [OF ok, of rev] by (fastforce simp: entry_of_def)
qed

lemma find_resources_found:
  "s \<in> arl_GroupVersion ` set ls \<Longrightarrow>
   \<exists>l \<in> set ls. find_resources s ls = Ok l \<and> arl_GroupVersion l = s"
  by (induction ls) auto

lemma groups_loop_Ok_parses:
  "groups_loop rs groups m = Ok x \<Longrightarrow> \<forall>r \<in> set rs. parses (arl_GroupVersion r)"
  by (induction rs arbitrary: groups m) (auto simp: parses_def Let_def split: result.splits)

lemma entries_of_origin:
  "v \<in> set (entries_of g ss) \<Longrightarrow> gvd_GroupVersion v \<in> set ss"
  by (auto simp: entries_of_def entry_of_def)

text \<open>
  C30: The two halves of discovery agree. Whenever the groups can be listed, every version they list can
  be fetched: its resources are found and are one of the lists the client holds, and the fetch is
  recorded.
\<close>

theorem listed_versions_are_served:
  assumes order: "\<And>xs. mset (order xs) = mset xs"
    and "ServerGroups order c = Ok gs" and "g \<in> set gs" and "v \<in> set (ag_Versions g)"
  shows "\<exists>l \<in> set (fd_Resources c).
    ServerResourcesForGroupVersion (gvd_GroupVersion v) c = (Invokes (get_action ''resource'') c, Ok l) \<and>
    arl_GroupVersion l = gvd_GroupVersion v"
proof -
  have "\<forall>r \<in> set (fd_Resources c). parses (arl_GroupVersion r)"
    using assms(2) groups_loop_Ok_parses [of "fd_Resources c"] by (auto simp: ServerGroups_def)
  from ServerGroups_groups [OF this order] assms(2,3)
  have "ag_Versions g = firsts (entries_of (ag_Name g) (map arl_GroupVersion (fd_Resources c)))"
    by auto
  then have "gvd_GroupVersion v \<in> arl_GroupVersion ` set (fd_Resources c)"
    using assms(4) entries_of_origin [of v] by fastforce
  then show ?thesis
    using find_resources_found by (fastforce simp: ServerResourcesForGroupVersion_def)
qed

theorem listed_versions_are_served_witness:
  "\<exists>gs g v. ServerGroups rev example_discovery = Ok gs \<and> g \<in> set gs \<and> v \<in> set (ag_Versions g) \<and>
     (\<exists>l \<in> set (fd_Resources example_discovery).
        ServerResourcesForGroupVersion (gvd_GroupVersion v) example_discovery
          = (Invokes (get_action ''resource'') example_discovery, Ok l))"
proof -
  have "parses (arl_GroupVersion r)" if "r \<in> set (fd_Resources example_discovery)" for r
    using that by (auto simp: example_discovery_def parses_def)
  then obtain gs where gs: "ServerGroups rev example_discovery = Ok gs"
    and names: "set (map ag_Name gs) = group_of ` arl_GroupVersion ` set (fd_Resources example_discovery)"
    and vs: "\<forall>g \<in> set gs. ag_Versions g
      = firsts (entries_of (ag_Name g) (map arl_GroupVersion (fd_Resources example_discovery)))"
    using ServerGroups_groups [of example_discovery rev] by auto
  have "''wardle'' \<in> set (map ag_Name gs)"
    unfolding names by (simp add: example_discovery_def group_of_def)
  then obtain g where g: "g \<in> set gs" and name: "ag_Name g = ''wardle''" by auto
  then have "ag_Versions g
      = firsts (entries_of ''wardle'' (map arl_GroupVersion (fd_Resources example_discovery)))"
    using vs by simp
  then have "ag_Versions g = [entry_of ''wardle/v1alpha1'', entry_of ''wardle/v1'']"
    by (simp add: example_discovery_def entries_of_def group_of_def entry_of_def)
  then have v: "entry_of ''wardle/v1'' \<in> set (ag_Versions g)" by simp
  show ?thesis
    using listed_versions_are_served [OF _ gs g v] gs g v by fastforce
qed

end
