(* ===== verification/Wait_Until.thy ===== *)
theory Wait_Until
  imports Dynamic_Mapper
begin

text \<open>
  The loop under \<open>RunUntil\<close>: \<open>JitterUntil\<close> and \<open>Until\<close> of apimachinery's \<open>util/wait\<close>, with the timer
  it reuses and a stop channel that may never be closed. A loop that never returns has the value
  \<open>None\<close>. Shown is when the refreshes of a REST mapper happen and when they end.
\<close>

section \<open>Timers\<close>

text \<open>
  \<open>time.Timer\<close>: when it fires, whether the value it then sends has been received, and whether a value
  from before the last \<open>Reset\<close> is left in its channel. Times are in nanoseconds.
\<close>

record timer =
  tm_fires :: int
  tm_received :: bool
  tm_stale :: bool

definition NewTimer :: "int \<Rightarrow> int \<Rightarrow> timer" where
  "NewTimer now d = \<lparr>tm_fires = now + max 0 d, tm_received = False, tm_stale = False\<rparr>"

definition tm_ready :: "timer \<Rightarrow> int \<Rightarrow> bool" where
  "tm_ready t now \<longleftrightarrow> tm_stale t \<or> (\<not> tm_received t \<and> tm_fires t \<le> now)"

definition tm_receive :: "timer \<Rightarrow> int \<Rightarrow> timer" where
  "tm_receive t now = t\<lparr>tm_received := tm_received t \<or> tm_fires t \<le> now, tm_stale := False\<rparr>"

definition tm_Stop :: "timer \<Rightarrow> int \<Rightarrow> bool" where
  "tm_Stop t now \<longleftrightarrow> now < tm_fires t"

definition tm_Reset :: "timer \<Rightarrow> int \<Rightarrow> int \<Rightarrow> timer" where
  "tm_Reset t now d = (NewTimer now d)\<lparr>tm_stale := tm_ready t now\<rparr>"

text \<open>\<open>None\<close>: blocked for ever on the channel of the timer.\<close>

definition resetOrReuseTimer :: "timer option \<Rightarrow> int \<Rightarrow> int \<Rightarrow> bool \<Rightarrow> timer option" where
  "resetOrReuseTimer t now d sawTimeout =
     (case t of
        None \<Rightarrow> Some (NewTimer now d)
      | Some t \<Rightarrow>
          if \<not> tm_Stop t now \<and> \<not> sawTimeout
          then (if tm_ready t now then Some (tm_Reset (tm_receive t now) now d) else None)
          else Some (tm_Reset t now d))"

text \<open>When a value can be received from the timer, from now on.\<close>

definition tm_expiry :: "timer \<Rightarrow> int \<Rightarrow> int option" where
  "tm_expiry t now = (if tm_ready t now then Some now else if tm_received t then None else Some (tm_fires t))"

section \<open>The loop\<close>

text \<open>
  The \<open>select\<close> that waits for the stop channel (closed at the time \<open>stop\<close>, if ever) and the timer: the
  time it goes on, and whether it was stopped. When both are ready, \<open>pick\<close> is the choice of the runtime.
\<close>

definition select_stop :: "bool \<Rightarrow> int option \<Rightarrow> timer \<Rightarrow> int \<Rightarrow> (int \<times> bool) option" where
  "select_stop pick stop t now =
     (case (stop, tm_expiry t now) of
        (None, None) \<Rightarrow> None
      | (Some c, None) \<Rightarrow> Some (max now c, True)
      | (None, Some e) \<Rightarrow> Some (e, False)
      | (Some c, Some e) \<Rightarrow>
          if max now c < e then Some (max now c, True)
          else if e < max now c then Some (e, False)
          else Some (e, pick))"

definition stopped :: "int option \<Rightarrow> int \<Rightarrow> bool" where
  "stopped stop now = (case stop of None \<Rightarrow> False | Some c \<Rightarrow> c \<le> now)"

text \<open>
  One round: it returns, or goes on with the timer, the time and the state. The function that is run
  tells how long it takes; \<open>HandleCrash\<close> lets a panic through. The jittered period of a round, drawn at
  random, is given by \<open>jitter\<close>, if the factor is positive.
\<close>

definition until_round ::
  "(int \<Rightarrow> 's \<Rightarrow> nat \<times> 's result) \<Rightarrow> int \<Rightarrow> int option \<Rightarrow> bool \<Rightarrow> int option \<Rightarrow> bool \<Rightarrow> timer option \<Rightarrow> bool \<Rightarrow> int \<Rightarrow>
   's \<Rightarrow> ((int \<times> 's) result + timer \<times> int \<times> 's) option" where
  "until_round f period jittered sliding stop pick t sawTimeout now s =
     (if stopped stop now then Some (Inl (Ok (now, s)))
      else
        let jitteredPeriod = (case jittered of None \<Rightarrow> period | Some d \<Rightarrow> d)
        in (case (if sliding then Some t else map_option Some (resetOrReuseTimer t now jitteredPeriod sawTimeout)) of
              None \<Rightarrow> None
            | Some t \<Rightarrow>
                (case f now s of
                   (took, Abort e) \<Rightarrow> Some (Inl (Abort e))
                 | (took, Err err) \<Rightarrow> Some (Inl (Err err))
                 | (took, Ok s') \<Rightarrow>
                     let now' = now + int took
                     in (case (if sliding then resetOrReuseTimer t now' jitteredPeriod sawTimeout else t) of
                           None \<Rightarrow> None
                         | Some t \<Rightarrow>
                             (case select_stop pick stop t now' of
                                None \<Rightarrow> None
                              | Some (at_time, True) \<Rightarrow> Some (Inl (Ok (at_time, s')))
                              | Some (at_time, False) \<Rightarrow> Some (Inr (tm_receive t at_time, at_time, s')))))))"

partial_function (option) until_loop ::
  "(int \<Rightarrow> 's \<Rightarrow> nat \<times> 's result) \<Rightarrow> int \<Rightarrow> (nat \<Rightarrow> int) option \<Rightarrow> bool \<Rightarrow> int option \<Rightarrow> (nat \<Rightarrow> bool) \<Rightarrow> nat \<Rightarrow>
   timer option \<Rightarrow> bool \<Rightarrow> int \<Rightarrow> 's \<Rightarrow> (int \<times> 's) result option" where
  "until_loop f period jitter sliding stop pick i t sawTimeout now s =
     (case until_round f period (map_option (\<lambda>j. j i) jitter) sliding stop (pick i) t sawTimeout now s of
        None \<Rightarrow> None
      | Some (Inl r) \<Rightarrow> Some r
      | Some (Inr (t', now', s')) \<Rightarrow>
          until_loop f period jitter sliding stop pick (i + 1) (Some t') True now' s')"

definition JitterUntil ::
  "(int \<Rightarrow> 's \<Rightarrow> nat \<times> 's result) \<Rightarrow> int \<Rightarrow> (nat \<Rightarrow> int) option \<Rightarrow> bool \<Rightarrow> int option \<Rightarrow> (nat \<Rightarrow> bool) \<Rightarrow> int \<Rightarrow> 's \<Rightarrow>
   (int \<times> 's) result option" where
  "JitterUntil f period jitter sliding stop pick now s = until_loop f period jitter sliding stop pick 0 None False now s"

definition Until ::
  "(int \<Rightarrow> 's \<Rightarrow> nat \<times> 's result) \<Rightarrow> int \<Rightarrow> int option \<Rightarrow> (nat \<Rightarrow> bool) \<Rightarrow> int \<Rightarrow> 's \<Rightarrow> (int \<times> 's) result option" where
  "Until f period stop pick now s = JitterUntil f period None True stop pick now s"

text \<open>
  What the goroutine of \<open>RunUntil\<close> runs: \<open>discovery\<close> and \<open>took\<close> are what discovery answers at a time, and
  how long a refresh then takes. The errors that are logged are kept.
\<close>

definition refresh ::
  "('d \<Rightarrow> 'r result) \<Rightarrow> ('r \<Rightarrow> rest_mapper) \<Rightarrow> (int \<Rightarrow> 'd) \<Rightarrow> int \<Rightarrow> regenerating_mapper \<times> go_error list \<Rightarrow>
   (regenerating_mapper \<times> go_error list) result" where
  "refresh get_resources new_mapper discovery now s =
     (case s of (m, logged) \<Rightarrow>
        (case RegenerateMappings get_resources new_mapper (discovery now) m of
           (m', Abort e) \<Rightarrow> Abort e
         | (m', Err err) \<Rightarrow>
             Ok (m', logged @ [Errorf ''error regenerating REST mappings from discovery: %v'' [] [err]])
         | (m', Ok _) \<Rightarrow> Ok (m', logged)))"

definition RunUntil_goroutine ::
  "('d \<Rightarrow> 'r result) \<Rightarrow> ('r \<Rightarrow> rest_mapper) \<Rightarrow> (int \<Rightarrow> 'd) \<Rightarrow> (int \<Rightarrow> nat) \<Rightarrow> int option \<Rightarrow> (nat \<Rightarrow> bool) \<Rightarrow> int \<Rightarrow>
   regenerating_mapper \<Rightarrow> (int \<times> regenerating_mapper \<times> go_error list) result option" where
  "RunUntil_goroutine get_resources new_mapper discovery took stop pick now m =
     Until (\<lambda>now s. (took now, refresh get_resources new_mapper discovery now s)) (rdm_refreshInterval m) stop pick now
       (m, [])"

section \<open>The timer between two rounds\<close>

text \<open>Between rounds the timer has fired and its value has been received, so it is reset without waiting.\<close>

definition idle :: "timer option \<Rightarrow> bool \<Rightarrow> int \<Rightarrow> bool" where
  "idle t sawTimeout now \<longleftrightarrow>
     (case t of None \<Rightarrow> \<not> sawTimeout
      | Some t \<Rightarrow> sawTimeout \<and> tm_received t \<and> \<not> tm_stale t \<and> tm_fires t \<le> now)"

lemma reset_idle: "idle t saw now \<Longrightarrow> resetOrReuseTimer t now d saw = Some (NewTimer now d)"
  by (auto simp: idle_def resetOrReuseTimer_def tm_Reset_def tm_ready_def NewTimer_def tm_Stop_def split: option.splits)

lemma idle_later: "idle t saw now \<Longrightarrow> now \<le> now' \<Longrightarrow> idle t saw now'"
  by (auto simp: idle_def split: option.splits)

lemma expiry_new: "tm_expiry (NewTimer now d) now = Some (now + max 0 d)"
  by (auto simp: tm_expiry_def tm_ready_def NewTimer_def)

lemma idle_received: "idle (Some (tm_receive (NewTimer now d) (now + max 0 d))) True (now + max 0 d)"
  by (simp add: idle_def tm_receive_def NewTimer_def)

text \<open>A round of \<open>Until\<close> whose function does not panic.\<close>

lemma sliding_round:
  fixes now period took
  defines "done \<equiv> now + int took" and "next \<equiv> now + int took + max 0 period"
  assumes "idle t saw now" and "\<not> stopped stop now" and "f now s = (took, Ok s')"
  shows "until_round f period None True stop pick t saw now s =
    (case stop of
       None \<Rightarrow> Some (Inr (tm_receive (NewTimer done period) next, next, s'))
     | Some c \<Rightarrow>
         if c < next \<and> done < next \<or> max done c = next \<and> pick then Some (Inl (Ok (max done c, s')))
         else Some (Inr (tm_receive (NewTimer done period) next, next, s')))"
proof -
  have "idle t saw done" using idle_later [OF assms(3)] by (simp add: done_def)
  note timer = reset_idle [OF this, of period]
  have expiry: "tm_expiry (NewTimer done period) done = Some next"
    by (simp add: expiry_new) (simp add: done_def next_def)
  have later: "done \<le> next" by (simp add: done_def next_def)
  have round: "until_round f period None True stop pick t saw now s =
      (case select_stop pick stop (NewTimer done period) done of
         None \<Rightarrow> None
       | Some (at_time, True) \<Rightarrow> Some (Inl (Ok (at_time, s')))
       | Some (at_time, False) \<Rightarrow> Some (Inr (tm_receive (NewTimer done period) at_time, at_time, s')))"
    using assms(4) by (simp add: until_round_def assms(5) done_def [symmetric] timer Let_def)
  show ?thesis
    unfolding round using later by (cases stop; cases pick) (auto simp: select_stop_def expiry max_def)
qed

section \<open>When the rounds are\<close>

text \<open>
  The times at which rounds start, until the channel is closed at \<open>c\<close>: at once, and an interval after
  the end of every round.
\<close>

fun schedule :: "(int \<Rightarrow> nat) \<Rightarrow> int \<Rightarrow> int \<Rightarrow> int \<Rightarrow> int list \<Rightarrow> bool" where
  "schedule took period c now [] \<longleftrightarrow> c \<le> now"
| "schedule took period c now (a # starts) \<longleftrightarrow>
     a = now \<and> now < c \<and> schedule took period c (now + int (took now) + max 0 period) starts"

fun run_rounds :: "(int \<Rightarrow> 's \<Rightarrow> 's result) \<Rightarrow> int list \<Rightarrow> 's \<Rightarrow> 's result" where
  "run_rounds g [] s = Ok s"
| "run_rounds g (a # starts) s = bind_result (g a s) (run_rounds g starts)"

definition ends_at :: "(int \<Rightarrow> nat) \<Rightarrow> int \<Rightarrow> int \<Rightarrow> int list \<Rightarrow> int" where
  "ends_at took c now starts = (if starts = [] then now else max c (last starts + int (took (last starts))))"

text \<open>A function that does not panic, and rounds that take time.\<close>

lemma until_loop_stops:
  fixes took :: "int \<Rightarrow> nat" and period :: int
  assumes ok: "\<And>a s. is_ok (g a s)" and time: "\<And>a. 0 < period \<or> 0 < took a"
    and "idle t saw now"
  shows "\<exists>starts s'. schedule took period c now starts \<and> run_rounds g starts s = Ok s' \<and>
    until_loop (\<lambda>now s. (took now, g now s)) period None True (Some c) pick i t saw now s =
      Some (Ok (ends_at took c now starts, s'))"
  using assms(3)
proof (induction "nat (c - now)" arbitrary: i t saw now s rule: less_induct)
  case less
  let ?f = "\<lambda>now s. (took now, g now s)"
  let ?done = "now + int (took now)" and ?next = "now + int (took now) + max 0 period"
  let ?t = "tm_receive (NewTimer ?done period) ?next"
  show ?case
  proof (cases "c \<le> now")
    case True
    then have "until_loop ?f period None True (Some c) pick i t saw now s = Some (Ok (now, s))"
      by (simp add: until_loop.simps until_round_def stopped_def)
    then show ?thesis using True by (intro exI [of _ "[]"] exI [of _ s]) (simp add: ends_at_def)
  next
    case False
    then have open_: "\<not> stopped (Some c) now" by (simp add: stopped_def)
    obtain s1 where s1: "g now s = Ok s1" using ok [of now s] by (cases "g now s") auto
    have f: "?f now s = (took now, Ok s1)" by (simp add: s1)
    note round = sliding_round [where f = ?f, OF less.prems open_ f, of period "pick i"]
    show ?thesis
    proof (cases "c < ?next \<and> ?done < ?next \<or> max ?done c = ?next \<and> pick i")
      case True
      then have "until_loop ?f period None True (Some c) pick i t saw now s = Some (Ok (max ?done c, s1))"
        by (subst until_loop.simps) (simp add: round)
      then show ?thesis using False True s1
        by (intro exI [of _ "[now]"] exI [of _ s1]) (auto simp: ends_at_def)
    next
      case go: False
      have step: "until_loop ?f period None True (Some c) pick i t saw now s =
          until_loop ?f period None True (Some c) pick (i + 1) (Some ?t) True ?next s1"
      proof -
        have "until_round ?f period None True (Some c) (pick i) t saw now s = Some (Inr (?t, ?next, s1))"
          using round go by (simp only: option.case if_False)
        then show ?thesis by (subst until_loop.simps) simp
      qed
      have "idle (Some ?t) True ?next" by (rule idle_received)
      moreover have "nat (c - ?next) < nat (c - now)" using False time [of now] by auto
      ultimately obtain starts s' where rest: "schedule took period c ?next starts" "run_rounds g starts s1 = Ok s'"
        "until_loop ?f period None True (Some c) pick (i + 1) (Some ?t) True ?next s1 =
          Some (Ok (ends_at took c ?next starts, s'))"
        using less.hyps by blast
      have "ends_at took c ?next starts = ends_at took c now (now # starts)"
      proof (cases starts)
        case Nil
        then have "c \<le> ?next" using rest(1) by simp
        then show ?thesis using go Nil by (auto simp: ends_at_def)
      qed (simp add: ends_at_def)
      then show ?thesis using rest s1 step False by (intro exI [of _ "now # starts"] exI [of _ s']) simp
    qed
  qed
qed

lemma until_loop_never:
  assumes ok: "\<And>a s. is_ok (g a s)" and "idle t saw now"
  shows "until_loop (\<lambda>now s. (took now, g now s)) period None True None pick i t saw now s = None"
proof (rule ccontr)
  assume "until_loop (\<lambda>now s. (took now, g now s)) period None True None pick i t saw now s \<noteq> None"
  then obtain y where ret: "until_loop (\<lambda>now s. (took now, g now s)) period None True None pick i t saw now s = Some y"
    by blast
  have "idle t saw now \<longrightarrow> False"
  proof (rule until_loop.raw_induct [where P = "\<lambda>f period' jitter sliding stop pick i t saw now s y.
      f = (\<lambda>now s. (took now, g now s)) \<and> period' = period \<and> jitter = None \<and> sliding \<and> stop = None \<longrightarrow>
      idle t saw now \<longrightarrow> False", OF _ ret, THEN mp], goal_cases)
    case (1 loop f period' jitter sliding stop pick i t saw now s y)
    show ?case
    proof (intro impI, elim conjE)
      assume args: "f = (\<lambda>now s. (took now, g now s))" "period' = period" "jitter = None" sliding "stop = None"
        and idle: "idle t saw now"
      obtain s1 where s1: "g now s = Ok s1" using ok [of now s] by (cases "g now s") auto
      have round: "f now s = (took now, Ok s1)" "\<not> stopped stop now" by (simp_all add: args s1 stopped_def)
      let ?next = "now + int (took now) + max 0 period"
      let ?t = "tm_receive (NewTimer (now + int (took now)) period) ?next"
      have "loop f period' jitter sliding stop pick (i + 1) (Some ?t) True ?next s1 = Some y"
        using 1(2) sliding_round [where f = f, OF idle round(2,1), of period "pick i"] args by simp
      from 1(1) [OF this] args idle_received show False by simp
    qed
  qed simp
  then show False using assms(2) by simp
qed

section \<open>The refreshes of a REST mapper\<close>

lemma refresh_apply:
  "refresh get new discovery a (m, logged) =
     (case get (discovery a) of
        Abort e \<Rightarrow> Abort e
      | Err err \<Rightarrow> Ok (m, logged @ [Errorf ''error regenerating REST mappings from discovery: %v'' [] [err]])
      | Ok r \<Rightarrow> Ok (m\<lparr>rdm_delegate := Some (new r)\<rparr>, logged))"
  by (simp add: refresh_def RegenerateMappings_def split: result.splits)

lemma run_refresh:
  "run_rounds (refresh get new discovery) starts (m, logged) =
    bind_result (RunUntil get new (map discovery starts) m) (\<lambda>(m', l). Ok (m', logged @ l))"
proof (induction starts arbitrary: m logged)
  case (Cons a starts)
  show ?case
  proof (cases "get (discovery a)")
    case (Err err)
    then show ?thesis
      using Cons.IH [of m] by (cases "RunUntil get new (map discovery starts) m")
        (auto simp: refresh_apply RegenerateMappings_def)
  qed (simp_all add: refresh_apply RegenerateMappings_def Cons.IH)
qed simp

lemma refresh_ok: "\<not> aborts (get (discovery a)) \<Longrightarrow> is_ok (refresh get new discovery a s)"
  by (cases s; cases "get (discovery a)") (simp_all add: refresh_apply)

text \<open>
  C33: Refreshing ends when the channel is closed, and only then. As long as discovery does not panic
  and every round takes some time, the goroutine of \<open>RunUntil\<close> never returns when its channel is never
  closed, and returns when it is closed, at any time: it has then refreshed at once and an interval
  after each refresh, at all these times before the channel was closed and at none after, and it
  returns as soon as the channel is closed, or at the end of the refresh that then runs. The timer it
  reuses never blocks it, and how the runtime chooses between timer and channel does not matter.
\<close>

theorem refresh_ends_when_stopped:
  assumes "\<forall>a. \<not> aborts (get (discovery a))" and "\<forall>a. 0 < rdm_refreshInterval m \<or> 0 < took a"
  shows "RunUntil_goroutine get new discovery took None pick now m = None \<and>
    (\<exists>starts m' logged. schedule took (rdm_refreshInterval m) c now starts \<and>
       RunUntil get new (map discovery starts) m = Ok (m', logged) \<and>
       RunUntil_goroutine get new discovery took (Some c) pick now m = Some (Ok (ends_at took c now starts, m', logged)))"
proof -
  note defs = RunUntil_goroutine_def Until_def JitterUntil_def
  have ok: "is_ok (refresh get new discovery a s)" for a s using assms(1) refresh_ok by blast
  have idle: "idle None False now" by (simp add: idle_def)
  have "RunUntil_goroutine get new discovery took None pick now m = None"
    unfolding defs using until_loop_never [where g = "refresh get new discovery", OF ok idle] by simp
  moreover obtain starts s' where "schedule took (rdm_refreshInterval m) c now starts"
    and run: "run_rounds (refresh get new discovery) starts (m, []) = Ok s'"
    and "RunUntil_goroutine get new discovery took (Some c) pick now m = Some (Ok (ends_at took c now starts, s'))"
    unfolding defs using until_loop_stops [where g = "refresh get new discovery" and took = took,
        OF ok assms(2) [rule_format] idle] by blast
  moreover obtain m' logged where "s' = (m', logged)" and "RunUntil get new (map discovery starts) m = Ok (m', logged)"
    using run by (cases "RunUntil get new (map discovery starts) m") (auto simp: run_refresh)
  ultimately show ?thesis by blast
qed

text \<open>A refresh that takes a second, started six seconds apart; the channel is closed while the goroutine waits.\<close>

theorem refresh_ends_when_stopped_witness:
  "\<exists>m' logged. RunUntil_goroutine flaky singular_mapper nat (\<lambda>_. 1) (Some 15) (\<lambda>_. True) 1
      \<lparr>rdm_refreshInterval = 5, rdm_delegate = Some (singular_mapper ''old'')\<rparr> = Some (Ok (15, m', logged)) \<and>
    RunUntil flaky singular_mapper [1, 7, 13] \<lparr>rdm_refreshInterval = 5, rdm_delegate = Some (singular_mapper ''old'')\<rparr> =
      Ok (m', logged)"
proof -
  let ?m = "\<lparr>rdm_refreshInterval = 5, rdm_delegate = Some (singular_mapper ''old'')\<rparr>"
  obtain starts m' logged where run: "schedule (\<lambda>_. 1) (rdm_refreshInterval ?m) 15 1 starts"
    "RunUntil flaky singular_mapper (map nat starts) ?m = Ok (m', logged)"
    "RunUntil_goroutine flaky singular_mapper nat (\<lambda>_. 1) (Some 15) (\<lambda>_. True) 1 ?m =
      Some (Ok (ends_at (\<lambda>_. 1) 15 1 starts, m', logged))"
  proof -
    have "\<forall>a. \<not> aborts (flaky (nat a))" and "\<forall>a :: int. 0 < rdm_refreshInterval ?m \<or> 0 < (1 :: nat)"
      by (simp_all add: flaky_def)
    from refresh_ends_when_stopped [where get = flaky and discovery = nat and m = ?m and took = "\<lambda>_. 1",
        OF this, of singular_mapper "\<lambda>_. True" 1 15] that show ?thesis by blast
  qed
  have "starts = [1, 7, 13]"
    using run(1) by (cases starts; cases "tl starts"; cases "tl (tl starts)"; cases "tl (tl (tl starts))") auto
  then show ?thesis using run(2,3) by (simp add: ends_at_def)
qed

end
