(* ===== verification/Rest_Mapper.thy ===== *)
theory Rest_Mapper
  imports Fake_Discovery Dynamic_Mapper
begin

text \<open>
  The REST mapper that is made from discovery: \<open>GetAPIGroupResources\<close> and \<open>NewDiscoveryRESTMapper\<close> of
  client-go (\<open>restmapper/discovery.go\<close>), and the three mappers of apimachinery it is made of
  (\<open>api/meta/restmapper.go\<close>, \<open>multirestmapper.go\<close>, \<open>priority.go\<close>). They are the two functions
  \<open>Dynamic_Mapper\<close> takes as parameters.

  The orders in which the runtime visits the maps of resources are given by \<open>range_orders\<close>.
\<close>

section \<open>Text and order\<close>

fun string_less :: "string \<Rightarrow> string \<Rightarrow> bool" where
  "string_less s [] = False"
| "string_less [] (y # ys) = True"
| "string_less (x # xs) (y # ys) =
     ((of_char x :: nat) < of_char y \<or> (x = y \<and> string_less xs ys))"

text \<open>\<open>sort.Sort\<close>, by its contract: insertion by \<open>Less\<close>.\<close>

fun insert_less :: "('a \<Rightarrow> 'a \<Rightarrow> bool) \<Rightarrow> 'a \<Rightarrow> 'a list \<Rightarrow> 'a list" where
  "insert_less lt x [] = [x]"
| "insert_less lt x (y # ys) = (if lt y x then y # insert_less lt x ys else x # y # ys)"

definition sort_less :: "('a \<Rightarrow> 'a \<Rightarrow> bool) \<Rightarrow> 'a list \<Rightarrow> 'a list" where
  "sort_less lt xs = foldr (insert_less lt) xs []"

lemma set_insert_less [simp]: "set (insert_less lt x xs) = insert x (set xs)"
  by (induction xs) auto

lemma set_sort_less [simp]: "set (sort_less lt xs) = set xs"
  by (induction xs) (simp_all add: sort_less_def)

text \<open>\<open>%v\<close> of a resource, a kind and a slice of them.\<close>

definition gvr_v :: "group_version_resource \<Rightarrow> string" where
  "gvr_v r = ''{'' @ gvr_Group r @ '' '' @ gvr_Version r @ '' '' @ gvr_Resource r @ ''}''"

definition gvk_v :: "group_version_kind \<Rightarrow> string" where
  "gvk_v k = gvk_Group k @ ''/'' @ gvk_Version k @ '', Kind='' @ gvk_Kind k"

definition slice_v :: "('a \<Rightarrow> string) \<Rightarrow> 'a list \<Rightarrow> string" where
  "slice_v f xs = ''['' @ join_byte (CHR '' '') (map f xs) @ '']''"

definition quoted :: "string \<Rightarrow> string" where
  "quoted s = [CHR 0x22] @ s @ [CHR 0x22]"

section \<open>Errors\<close>

definition NoResourceMatchError :: "group_version_resource \<Rightarrow> go_error" where
  "NoResourceMatchError r = NoMatchError (''no matches for '' @ gvr_v r)"

text \<open>\<open>searchedVersions\<close> is a set; its list is sorted. A group and a kind are a pair.\<close>

definition NoKindMatchError :: "string \<times> string \<Rightarrow> string list \<Rightarrow> go_error" where
  "NoKindMatchError gk versions =
     (let searchedVersions = sort_less string_less
            (remdups (map (\<lambda>v. gv_String \<lparr>gv_Group = fst gk, gv_Version = v\<rparr>) versions))
      in NoMatchError (''no matches for kind '' @ quoted (snd gk) @
           (case searchedVersions of
              [] \<Rightarrow> '' in group '' @ quoted (fst gk)
            | [v] \<Rightarrow> '' in version '' @ quoted v
            | vs \<Rightarrow> '' in versions '' @ slice_v quoted vs)))"

fun IsNoMatchError :: "go_error \<Rightarrow> bool" where
  "IsNoMatchError (NoMatchError m) = True"
| "IsNoMatchError err = False"

definition AmbiguousResources :: "group_version_resource \<Rightarrow> group_version_resource list \<Rightarrow> go_error" where
  "AmbiguousResources r rs =
     OtherError (if length rs > 0 then gvr_v r @ '' matches multiple resources '' @ slice_v gvr_v rs
       else gvr_v r @ '' matches multiple resources or kinds'')"

definition AmbiguousKinds :: "string \<Rightarrow> group_version_kind list \<Rightarrow> go_error" where
  "AmbiguousKinds partial ks =
     OtherError (if length ks > 0 then partial @ '' matches multiple kinds '' @ slice_v gvk_v ks
       else partial @ '' matches multiple resources or kinds'')"

section \<open>The mapper of a group-version\<close>

record default_mapper =
  dm_defaultGroupVersions :: "group_version list"
  dm_resourceToKind :: "(group_version_resource, group_version_kind) go_map"
  dm_kindToPluralResource :: "(group_version_kind, group_version_resource) go_map"
  dm_kindToScope :: "(group_version_kind, string) go_map"
  dm_singularToPlural :: "(group_version_resource, group_version_resource) go_map"
  dm_pluralToSingular :: "(group_version_resource, group_version_resource) go_map"

record range_orders =
  ro_plurals :: "(group_version_resource \<times> group_version_resource) list \<Rightarrow> (group_version_resource \<times> group_version_resource) list"
  ro_kinds :: "(group_version_resource \<times> group_version_kind) list \<Rightarrow> (group_version_resource \<times> group_version_kind) list"

definition NewDefaultRESTMapper :: "group_version list \<Rightarrow> default_mapper" where
  "NewDefaultRESTMapper gvs =
     \<lparr>dm_defaultGroupVersions = gvs, dm_resourceToKind = [], dm_kindToPluralResource = [], dm_kindToScope = [],
      dm_singularToPlural = [], dm_pluralToSingular = []\<rparr>"

definition AddSpecific ::
  "group_version_kind \<Rightarrow> group_version_resource \<Rightarrow> group_version_resource \<Rightarrow> string \<Rightarrow> default_mapper \<Rightarrow> default_mapper" where
  "AddSpecific kind plural singular scope m =
     m\<lparr>dm_singularToPlural := go_put singular plural (dm_singularToPlural m),
       dm_pluralToSingular := go_put plural singular (dm_pluralToSingular m),
       dm_resourceToKind := go_put plural kind (go_put singular kind (dm_resourceToKind m)),
       dm_kindToPluralResource := go_put kind plural (dm_kindToPluralResource m),
       dm_kindToScope := go_put kind scope (dm_kindToScope m)\<rparr>"

definition zero_gvr :: group_version_resource where
  "zero_gvr = \<lparr>gvr_Group = [], gvr_Version = [], gvr_Resource = []\<rparr>"

definition gvk_gv :: "group_version_kind \<Rightarrow> group_version" where
  "gvk_gv k = \<lparr>gv_Group = gvk_Group k, gv_Version = gvk_Version k\<rparr>"

definition gvr_gv :: "group_version_resource \<Rightarrow> group_version" where
  "gvr_gv r = \<lparr>gv_Group = gvr_Group r, gv_Version = gvr_Version r\<rparr>"

definition UnsafeGuessKindToResource :: "group_version_kind \<Rightarrow> group_version_resource \<times> group_version_resource" where
  "UnsafeGuessKindToResource kind =
     (if gvk_Kind kind = [] then (zero_gvr, zero_gvr)
      else
        let singularName = to_lower (gvk_Kind kind);
            gv = gvk_gv kind;
            singular = WithResource gv singularName
        in if has_prefix (rev singularName) (rev ''endpoints'') then (singular, singular)
           else if last singularName = CHR ''s'' then (WithResource gv (singularName @ ''es''), singular)
           else if last singularName = CHR ''y'' then (WithResource gv (butlast singularName @ ''ies''), singular)
           else (WithResource gv (singularName @ ''s''), singular))"

definition mapper_Add :: "group_version_kind \<Rightarrow> string \<Rightarrow> default_mapper \<Rightarrow> default_mapper" where
  "mapper_Add kind scope m =
     (let (plural, singular) = UnsafeGuessKindToResource kind in AddSpecific kind plural singular scope m)"

definition coerceResourceForMatching :: "group_version_resource \<Rightarrow> group_version_resource" where
  "coerceResourceForMatching r =
     r\<lparr>gvr_Resource := to_lower (gvr_Resource r),
       gvr_Version := (if gvr_Version r = ''__internal'' then [] else gvr_Version r)\<rparr>"

text \<open>The two \<open>Less\<close>: the last index at which the preferred order has a group-version.\<close>

definition last_index :: "'a \<Rightarrow> 'a list \<Rightarrow> int" where
  "last_index x xs = foldl (\<lambda>acc (i, y). if y = x then int i else acc) (-1) (enumerate 0 xs)"

definition gv_less :: "group_version list \<Rightarrow> group_version \<Rightarrow> group_version \<Rightarrow> bool" where
  "gv_less sortOrder l r \<longleftrightarrow> (if last_index r sortOrder = -1 then True else last_index l sortOrder < last_index r sortOrder)"

definition resource_less :: "group_version list \<Rightarrow> group_version_resource \<Rightarrow> group_version_resource \<Rightarrow> bool" where
  "resource_less sortOrder lhs rhs \<longleftrightarrow>
     (if lhs = rhs then False
      else if gvr_gv lhs = gvr_gv rhs then string_less (gvr_Resource lhs) (gvr_Resource rhs)
      else gv_less sortOrder (gvr_gv lhs) (gvr_gv rhs))"

definition kind_less :: "group_version list \<Rightarrow> group_version_kind \<Rightarrow> group_version_kind \<Rightarrow> bool" where
  "kind_less sortOrder lhs rhs \<longleftrightarrow>
     (if lhs = rhs then False
      else if gvk_gv lhs = gvk_gv rhs then string_less (gvk_Kind lhs) (gvk_Kind rhs)
      else gv_less sortOrder (gvk_gv lhs) (gvk_gv rhs))"

text \<open>
  The entries of a map that match, in the order they are visited. An entry whose plural and singular
  both match appears twice.
\<close>

definition plural_matches ::
  "(group_version_resource \<Rightarrow> bool) \<Rightarrow> (group_version_resource \<times> group_version_resource) list \<Rightarrow>
   group_version_resource list" where
  "plural_matches q entries =
     concat (map (\<lambda>(plural, singular). (if q singular then [plural] else []) @ (if q plural then [plural] else [])) entries)"

definition default_ResourcesFor ::
  "range_orders \<Rightarrow> default_mapper \<Rightarrow> group_version_resource \<Rightarrow> group_version_resource list result" where
  "default_ResourcesFor ro m input =
     (let resource = coerceResourceForMatching input;
          hasResource = length (gvr_Resource resource) > 0;
          hasGroup = length (gvr_Group resource) > 0;
          hasVersion = length (gvr_Version resource) > 0;
          entries = ro_plurals ro (dm_pluralToSingular m);
          same_resource = (\<lambda>r. gvr_Resource r = gvr_Resource resource)
      in if \<not> hasResource then Err (Errorf ''a resource must be present, got: %v'' [gvr_v resource] [])
         else
           let ret =
             (if hasGroup \<and> hasVersion then
                (case find (\<lambda>(plural, singular). singular = resource \<or> plural = resource) entries of
                   None \<Rightarrow> []
                 | Some (plural, singular) \<Rightarrow> [plural])
              else if hasGroup then
                let exact = plural_matches (\<lambda>r. gvr_GroupResource r = gvr_GroupResource resource) entries
                in if exact \<noteq> [] then exact
                   else plural_matches same_resource
                     (filter (\<lambda>(plural, singular). has_prefix (gvr_Group plural) (gvr_Group resource)) entries)
              else if hasVersion then
                plural_matches (\<lambda>r. gvr_Version r = gvr_Version resource \<and> same_resource r) entries
              else plural_matches same_resource entries)
           in if length ret = 0 then Err (NoResourceMatchError resource)
              else Ok (sort_less (resource_less (dm_defaultGroupVersions m)) ret))"

definition only_resource ::
  "group_version_resource \<Rightarrow> group_version_resource list \<Rightarrow> group_version_resource result" where
  "only_resource resource resources =
     (if length resources = 1 then Ok (hd resources) else Err (AmbiguousResources resource resources))"

definition default_ResourceFor ::
  "range_orders \<Rightarrow> default_mapper \<Rightarrow> group_version_resource \<Rightarrow> group_version_resource result" where
  "default_ResourceFor ro m resource = bind_result (default_ResourcesFor ro m resource) (only_resource resource)"

definition default_KindsFor ::
  "range_orders \<Rightarrow> default_mapper \<Rightarrow> group_version_resource \<Rightarrow> group_version_kind list result" where
  "default_KindsFor ro m input =
     (let resource = coerceResourceForMatching input;
          hasResource = length (gvr_Resource resource) > 0;
          hasGroup = length (gvr_Group resource) > 0;
          hasVersion = length (gvr_Version resource) > 0;
          entries = ro_kinds ro (dm_resourceToKind m);
          same_resource = (\<lambda>r. gvr_Resource r = gvr_Resource resource);
          kinds = (\<lambda>q. map snd (filter (\<lambda>(r, k). q r) entries))
      in if \<not> hasResource then Err (Errorf ''a resource must be present, got: %v'' [gvr_v resource] [])
         else
           let ret =
             (if hasGroup \<and> hasVersion then
                (case go_get (dm_resourceToKind m) resource of None \<Rightarrow> [] | Some kind \<Rightarrow> [kind])
              else if hasGroup then
                let exact = kinds (\<lambda>r. gvr_GroupResource r = gvr_GroupResource resource)
                in if exact \<noteq> [] then exact
                   else kinds (\<lambda>r. has_prefix (gvr_Group r) (gvr_Group resource) \<and> same_resource r)
              else if hasVersion then kinds (\<lambda>r. gvr_Version r = gvr_Version resource \<and> same_resource r)
              else kinds same_resource)
           in if length ret = 0 then Err (NoResourceMatchError input)
              else Ok (sort_less (kind_less (dm_defaultGroupVersions m)) ret))"

definition only_kind :: "group_version_resource \<Rightarrow> group_version_kind list \<Rightarrow> group_version_kind result" where
  "only_kind resource kinds =
     (if length kinds = 1 then Ok (hd kinds) else Err (AmbiguousKinds (gvr_v resource) kinds))"

definition default_KindFor ::
  "range_orders \<Rightarrow> default_mapper \<Rightarrow> group_version_resource \<Rightarrow> group_version_kind result" where
  "default_KindFor ro m resource = bind_result (default_KindsFor ro m resource) (only_kind resource)"

text \<open>The loop of \<open>ResourceSingularizer\<close> over the resources found.\<close>

fun singular_loop ::
  "(group_version_resource, group_version_resource) go_map \<Rightarrow> string \<Rightarrow> group_version_resource list \<Rightarrow>
   group_version_resource list \<Rightarrow> group_version_resource \<Rightarrow> string result" where
  "singular_loop pluralToSingular resourceType resources [] singular =
     (if singular = zero_gvr
      then Err (Errorf ''no singular of resource %v has been defined'' [resourceType] [])
      else Ok (gvr_Resource singular))"
| "singular_loop pluralToSingular resourceType resources (current # rest) singular =
     (case go_get pluralToSingular current of
        None \<Rightarrow> singular_loop pluralToSingular resourceType resources rest singular
      | Some currSingular \<Rightarrow>
          if singular = zero_gvr then singular_loop pluralToSingular resourceType resources rest currSingular
          else if gvr_Resource currSingular \<noteq> gvr_Resource singular
          then Err (Errorf ''multiple possible singular resources (%v) found for %v''
                 [slice_v gvr_v resources, resourceType] [])
          else singular_loop pluralToSingular resourceType resources rest singular)"

definition default_ResourceSingularizer :: "range_orders \<Rightarrow> default_mapper \<Rightarrow> string \<Rightarrow> string result" where
  "default_ResourceSingularizer ro m resourceType =
     bind_result (default_ResourcesFor ro m \<lparr>gvr_Group = [], gvr_Version = [], gvr_Resource = resourceType\<rparr>)
       (\<lambda>resources. singular_loop (dm_pluralToSingular m) resourceType resources resources zero_gvr)"

text \<open>A group and a kind, with a version.\<close>

definition gk_WithVersion :: "string \<times> string \<Rightarrow> string \<Rightarrow> group_version_kind" where
  "gk_WithVersion gk version = \<lparr>gvk_Group = fst gk, gvk_Version = version, gvk_Kind = snd gk\<rparr>"

text \<open>The first loop of \<open>RESTMappings\<close>: whether there was a version, and the kind found.\<close>

fun potential_gvk ::
  "default_mapper \<Rightarrow> string \<times> string \<Rightarrow> string list \<Rightarrow> bool \<Rightarrow> bool \<times> group_version_kind list" where
  "potential_gvk m gk [] hadVersion = (hadVersion, [])"
| "potential_gvk m gk (version # versions) hadVersion =
     (if length version = 0 \<or> version = ''__internal'' then potential_gvk m gk versions hadVersion
      else if go_get (dm_kindToPluralResource m) (gk_WithVersion gk version) \<noteq> None
      then (True, [gk_WithVersion gk version])
      else potential_gvk m gk versions True)"

fun mappings_loop :: "default_mapper \<Rightarrow> group_version_kind list \<Rightarrow> rest_mapping list \<Rightarrow> rest_mapping list result" where
  "mappings_loop m [] mappings = Ok mappings"
| "mappings_loop m (gvk # gvks) mappings =
     (case go_get (dm_kindToPluralResource m) gvk of
        None \<Rightarrow> mappings_loop m gvks mappings
      | Some res \<Rightarrow>
          (case go_get (dm_kindToScope m) gvk of
             None \<Rightarrow> Err (Errorf ''the provided version %q and kind %q cannot be mapped to a supported scope''
                       [gv_String (gvk_gv gvk), gvk_Kind gvk] [])
           | Some scope \<Rightarrow> mappings_loop m gvks
               (mappings @ [\<lparr>map_Resource = res, map_GroupVersionKind = gvk, map_ScopeName = scope\<rparr>])))"

definition default_RESTMappings ::
  "default_mapper \<Rightarrow> string \<times> string \<Rightarrow> string list \<Rightarrow> rest_mapping list result" where
  "default_RESTMappings m gk versions =
     (let (hadVersion, found) = potential_gvk m gk versions False;
          potentialGVK = (if \<not> hadVersion \<and> length found = 0
            then map (\<lambda>gv. gk_WithVersion gk (gv_Version gv))
                   (filter (\<lambda>gv. gv_Group gv = fst gk) (dm_defaultGroupVersions m))
            else found)
      in if length potentialGVK = 0 then Err (NoKindMatchError gk versions)
         else bind_result (mappings_loop m potentialGVK []) (\<lambda>mappings.
           if length mappings = 0
           then Err (NoResourceMatchError \<lparr>gvr_Group = fst gk, gvr_Version = [], gvr_Resource = snd gk\<rparr>)
           else Ok mappings))"

definition default_RESTMapping ::
  "default_mapper \<Rightarrow> string \<times> string \<Rightarrow> string list \<Rightarrow> rest_mapping result" where
  "default_RESTMapping m gk versions =
     bind_result (default_RESTMappings m gk versions) (\<lambda>mappings.
       if length mappings = 0 then Err (NoKindMatchError gk versions) else Ok (hd mappings))"

definition DefaultRESTMapper :: "range_orders \<Rightarrow> default_mapper \<Rightarrow> rest_mapper" where
  "DefaultRESTMapper ro m =
     \<lparr>rm_KindFor = default_KindFor ro m, rm_KindsFor = default_KindsFor ro m,
      rm_ResourceFor = default_ResourceFor ro m, rm_ResourcesFor = default_ResourcesFor ro m,
      rm_RESTMapping = default_RESTMapping m, rm_RESTMappings = default_RESTMappings m,
      rm_ResourceSingularizer = default_ResourceSingularizer ro m\<rparr>"

section \<open>The union of mappers\<close>

fun multi_singularizer :: "rest_mapper list \<Rightarrow> string \<Rightarrow> string result \<Rightarrow> string result" where
  "multi_singularizer [] resource r = r"
| "multi_singularizer (t # ts) resource r =
     (case rm_ResourceSingularizer t resource of
        Abort e \<Rightarrow> Abort e
      | Err err \<Rightarrow> multi_singularizer ts resource (Err err)
      | Ok singular \<Rightarrow> Ok singular)"

text \<open>Both loops that gather what the mappers find, without repetition.\<close>

definition add_new :: "'a list \<Rightarrow> 'a list \<Rightarrow> 'a list" where
  "add_new found xs = foldl (\<lambda>all current. if current \<in> set all then all else all @ [current]) found xs"

fun gather :: "'a list result list \<Rightarrow> 'a list \<Rightarrow> 'a list result" where
  "gather [] found = Ok found"
| "gather (r # rs) found =
     (case r of
        Abort e \<Rightarrow> Abort e
      | Err err \<Rightarrow> if IsNoMatchError err then gather rs found else Err err
      | Ok xs \<Rightarrow> gather rs (add_new found xs))"

definition some_match :: "group_version_resource \<Rightarrow> 'a list \<Rightarrow> 'a list result" where
  "some_match resource found = (if length found = 0 then Err (NoResourceMatchError resource) else Ok found)"

definition multi_ResourcesFor ::
  "rest_mapper list \<Rightarrow> group_version_resource \<Rightarrow> group_version_resource list result" where
  "multi_ResourcesFor m resource =
     bind_result (gather (map (\<lambda>t. rm_ResourcesFor t resource) m) []) (some_match resource)"

definition multi_KindsFor :: "rest_mapper list \<Rightarrow> group_version_resource \<Rightarrow> group_version_kind list result" where
  "multi_KindsFor m resource = bind_result (gather (map (\<lambda>t. rm_KindsFor t resource) m) []) (some_match resource)"

text \<open>The loops over the mappings: what was found, and the errors other than of no match.\<close>

fun gather_mappings ::
  "'a result list \<Rightarrow> 'a list \<Rightarrow> go_error list \<Rightarrow> ('a list \<times> go_error list) result" where
  "gather_mappings [] found errs = Ok (found, errs)"
| "gather_mappings (r # rs) found errs =
     (case r of
        Abort e \<Rightarrow> Abort e
      | Err err \<Rightarrow> if IsNoMatchError err then gather_mappings rs found errs else gather_mappings rs found (errs @ [err])
      | Ok x \<Rightarrow> gather_mappings rs (found @ [x]) errs)"

definition multi_RESTMapping ::
  "rest_mapper list \<Rightarrow> string \<times> string \<Rightarrow> string list \<Rightarrow> rest_mapping result" where
  "multi_RESTMapping m gk versions =
     bind_result (gather_mappings (map (\<lambda>t. rm_RESTMapping t gk versions) m) [] []) (\<lambda>(found, errs).
       if length found = 1 then Ok (hd found)
       else if length found > 1 then Err (AmbiguousKinds (gvk_v (gk_WithVersion gk [])) (map map_GroupVersionKind found))
       else if length errs > 0 then Err (Aggregate errs)
       else Err (NoKindMatchError gk versions))"

definition multi_RESTMappings ::
  "rest_mapper list \<Rightarrow> string \<times> string \<Rightarrow> string list \<Rightarrow> rest_mapping list result" where
  "multi_RESTMappings m gk versions =
     bind_result (gather_mappings (map (\<lambda>t. rm_RESTMappings t gk versions) m) [] []) (\<lambda>(found, errs).
       if length errs > 0 then Err (Aggregate errs)
       else if length (concat found) = 0 then Err (NoKindMatchError gk versions)
       else Ok (concat found))"

definition MultiRESTMapper :: "rest_mapper list \<Rightarrow> rest_mapper" where
  "MultiRESTMapper m =
     \<lparr>rm_KindFor = (\<lambda>r. bind_result (multi_KindsFor m r) (only_kind r)), rm_KindsFor = multi_KindsFor m,
      rm_ResourceFor = (\<lambda>r. bind_result (multi_ResourcesFor m r) (only_resource r)),
      rm_ResourcesFor = multi_ResourcesFor m,
      rm_RESTMapping = multi_RESTMapping m, rm_RESTMappings = multi_RESTMappings m,
      rm_ResourceSingularizer = (\<lambda>r. multi_singularizer m r (Ok []))\<rparr>"

section \<open>Priorities\<close>

text \<open>\<open>AnyGroup\<close>, \<open>AnyVersion\<close>, \<open>AnyResource\<close> and \<open>AnyKind\<close> are all \<open>*\<close>.\<close>

definition resourceMatches :: "group_version_resource \<Rightarrow> group_version_resource \<Rightarrow> bool" where
  "resourceMatches p r \<longleftrightarrow>
     (gvr_Group p = ''*'' \<or> gvr_Group p = gvr_Group r) \<and>
     (gvr_Version p = ''*'' \<or> gvr_Version p = gvr_Version r) \<and>
     (gvr_Resource p = ''*'' \<or> gvr_Resource p = gvr_Resource r)"

definition kindMatches :: "group_version_kind \<Rightarrow> group_version_kind \<Rightarrow> bool" where
  "kindMatches p k \<longleftrightarrow>
     (gvk_Group p = ''*'' \<or> gvk_Group p = gvk_Group k) \<and>
     (gvk_Version p = ''*'' \<or> gvk_Version p = gvk_Version k) \<and>
     (gvk_Kind p = ''*'' \<or> gvk_Kind p = gvk_Kind k)"

text \<open>
  The loop over the patterns: the only match of the first pattern that has just one, or what remains
  after all of them.
\<close>

fun narrow :: "('p \<Rightarrow> 'a \<Rightarrow> bool) \<Rightarrow> 'p list \<Rightarrow> 'a list \<Rightarrow> 'a + 'a list" where
  "narrow m [] remaining = Inr remaining"
| "narrow m (p # ps) remaining =
     (case filter (m p) remaining of
        [] \<Rightarrow> narrow m ps remaining
      | [x] \<Rightarrow> Inl x
      | matched \<Rightarrow> narrow m ps matched)"

definition priority_ResourceFor ::
  "rest_mapper \<Rightarrow> group_version_resource list \<Rightarrow> group_version_resource \<Rightarrow> group_version_resource result" where
  "priority_ResourceFor mappers resourcePriority r =
     bind_result (rm_ResourcesFor mappers r) (\<lambda>originalGVRs.
       if length originalGVRs = 1 then Ok (hd originalGVRs)
       else (case narrow resourceMatches resourcePriority originalGVRs of
               Inl gvr \<Rightarrow> Ok gvr
             | Inr _ \<Rightarrow> Err (AmbiguousResources r originalGVRs)))"

definition priority_KindFor ::
  "rest_mapper \<Rightarrow> group_version_kind list \<Rightarrow> group_version_resource \<Rightarrow> group_version_kind result" where
  "priority_KindFor mappers kindPriority r =
     bind_result (rm_KindsFor mappers r) (\<lambda>originalGVKs.
       if length originalGVKs = 1 then Ok (hd originalGVKs)
       else (case narrow kindMatches kindPriority originalGVKs of
               Inl gvk \<Rightarrow> Ok gvk
             | Inr _ \<Rightarrow> Err (AmbiguousKinds (gvr_v r) originalGVKs)))"

definition priority_RESTMapping ::
  "rest_mapper \<Rightarrow> group_version_kind list \<Rightarrow> string \<times> string \<Rightarrow> string list \<Rightarrow> rest_mapping result" where
  "priority_RESTMapping mappers kindPriority gk versions =
     bind_result (rm_RESTMappings mappers gk versions) (\<lambda>mappings.
       let priorities = map (\<lambda>v. \<lparr>gvk_Group = fst gk, gvk_Version = v, gvk_Kind = ''*''\<rparr>) versions @ kindPriority
       in (case narrow (\<lambda>p m. kindMatches p (map_GroupVersionKind m)) priorities mappings of
             Inl m \<Rightarrow> Ok m
           | Inr remaining \<Rightarrow>
               if length remaining = 1 then Ok (hd remaining)
               else Err (AmbiguousKinds (gvk_v (gk_WithVersion gk [])) (map map_GroupVersionKind mappings))))"

definition PriorityRESTMapper ::
  "rest_mapper \<Rightarrow> group_version_resource list \<Rightarrow> group_version_kind list \<Rightarrow> rest_mapper" where
  "PriorityRESTMapper mappers resourcePriority kindPriority =
     \<lparr>rm_KindFor = priority_KindFor mappers kindPriority, rm_KindsFor = rm_KindsFor mappers,
      rm_ResourceFor = priority_ResourceFor mappers resourcePriority, rm_ResourcesFor = rm_ResourcesFor mappers,
      rm_RESTMapping = priority_RESTMapping mappers kindPriority, rm_RESTMappings = rm_RESTMappings mappers,
      rm_ResourceSingularizer = rm_ResourceSingularizer mappers\<rparr>"

section \<open>From discovery\<close>

record api_group_resources =
  agr_Group :: api_group
  agr_VersionedResources :: "(string, api_resource list) go_map"

text \<open>The loop over the resources of a version; a name with a slash is that of a subresource.\<close>

definition add_resource :: "group_version \<Rightarrow> default_mapper \<Rightarrow> api_resource \<Rightarrow> default_mapper" where
  "add_resource gv m resource =
     (if CHR ''/'' \<in> set (res_Name resource) then m
      else
        let scope = (if res_Namespaced resource then ''namespace'' else ''root'');
            plural = WithResource gv (res_Name resource);
            singular = (if length (res_SingularName resource) = 0
                        then snd (UnsafeGuessKindToResource (WithKind gv (res_Kind resource)))
                        else WithResource gv (res_SingularName resource))
        in mapper_Add (WithKind gv (res_Kind resource @ ''List'')) scope
             (AddSpecific (WithKind gv (res_Kind resource)) plural singular scope
               (AddSpecific (WithKind gv (to_lower (res_Kind resource))) plural singular scope m)))"

definition version_mapper :: "group_version \<Rightarrow> api_resource list \<Rightarrow> default_mapper" where
  "version_mapper gv resources =
     mapper_Add (WithKind gv ''List'') ''root'' (foldl (add_resource gv) (NewDefaultRESTMapper [gv]) resources)"

text \<open>The versions of a group that have resources, with them, in the order of the group.\<close>

definition group_versions :: "api_group_resources \<Rightarrow> (group_version \<times> api_resource list) list" where
  "group_versions g =
     List.map_filter (\<lambda>discoveryVersion.
         map_option (Pair \<lparr>gv_Group = ag_Name (agr_Group g), gv_Version = gvd_Version discoveryVersion\<rparr>)
           (go_get (agr_VersionedResources g) (gvd_Version discoveryVersion)))
       (ag_Versions (agr_Group g))"

text \<open>The versions with a priority of their own: the preferred one, if it has resources, and the others.\<close>

definition priority_versions :: "api_group_resources \<Rightarrow> group_version list" where
  "priority_versions g =
     (let preferred = gvd_Version (ag_PreferredVersion (agr_Group g)) in
      (if length preferred \<noteq> 0 \<and> go_get (agr_VersionedResources g) preferred \<noteq> None
       then [\<lparr>gv_Group = ag_Name (agr_Group g), gv_Version = preferred\<rparr>] else []) @
      filter (\<lambda>gv. gv_Version gv \<noteq> preferred) (map fst (group_versions g)))"

definition priorities :: "api_group_resources list \<Rightarrow> group_version list" where
  "priorities groupResources =
     [\<lparr>gv_Group = [], gv_Version = ''v1''\<rparr>] @ concat (map priority_versions groupResources) @
     map (\<lambda>g. \<lparr>gv_Group = ag_Name (agr_Group g), gv_Version = ''*''\<rparr>) groupResources"

definition version_mappers :: "api_group_resources list \<Rightarrow> default_mapper list" where
  "version_mappers groupResources =
     map (\<lambda>(gv, resources). version_mapper gv resources) (concat (map group_versions groupResources))"

definition NewDiscoveryRESTMapper :: "range_orders \<Rightarrow> api_group_resources list \<Rightarrow> rest_mapper" where
  "NewDiscoveryRESTMapper ro groupResources =
     PriorityRESTMapper (MultiRESTMapper (map (DefaultRESTMapper ro) (version_mappers groupResources)))
       (map (\<lambda>gv. WithResource gv ''*'') (priorities groupResources))
       (map (\<lambda>gv. WithKind gv ''*'') (priorities groupResources))"

text \<open>
  \<open>GetAPIGroupResources\<close>, on what a client answers for the groups and for a group-version. A client may
  answer something beside an error; such partial answers are used.
\<close>

type_synonym 'a answer = "'a option \<times> go_error option"

fun versions_resources ::
  "(string \<Rightarrow> api_resource_list answer result) \<Rightarrow> group_version_for_discovery list \<Rightarrow>
   (string, api_resource list) go_map \<Rightarrow> (string, api_resource list) go_map result" where
  "versions_resources resources_for [] m = Ok m"
| "versions_resources resources_for (version # versions) m =
     bind_result (resources_for (gvd_GroupVersion version)) (\<lambda>(resources, err).
       if err \<noteq> None \<and> (case resources of None \<Rightarrow> True | Some rs \<Rightarrow> length (arl_APIResources rs) = 0)
       then versions_resources resources_for versions m
       else bind_result (deref resources) (\<lambda>rs.
         versions_resources resources_for versions (go_put (gvd_Version version) (arl_APIResources rs) m)))"

fun groups_resources ::
  "(string \<Rightarrow> api_resource_list answer result) \<Rightarrow> api_group list \<Rightarrow> api_group_resources list result" where
  "groups_resources resources_for [] = Ok []"
| "groups_resources resources_for (g # gs) =
     bind_result (versions_resources resources_for (ag_Versions g) []) (\<lambda>m.
     bind_result (groups_resources resources_for gs) (\<lambda>rs.
       Ok (\<lparr>agr_Group = g, agr_VersionedResources = m\<rparr> # rs)))"

definition GetAPIGroupResources ::
  "api_group list answer result \<Rightarrow> (string \<Rightarrow> api_resource_list answer result) \<Rightarrow> api_group_resources list result" where
  "GetAPIGroupResources server_groups resources_for =
     bind_result server_groups (\<lambda>(apiGroups, err).
       case err of
         Some e \<Rightarrow> if (case apiGroups of None \<Rightarrow> True | Some gs \<Rightarrow> length gs = 0) then Err e
                   else bind_result (deref apiGroups) (groups_resources resources_for)
       | None \<Rightarrow> bind_result (deref apiGroups) (groups_resources resources_for))"

text \<open>The same of the fake discovery client, which answers nothing beside an error, and records the calls elsewhere.\<close>

fun whole :: "'a result \<Rightarrow> 'a answer result" where
  "whole (Ok x) = Ok (Some x, None)"
| "whole (Err e) = Ok (None, Some e)"
| "whole (Abort e) = Abort e"

definition fake_resources ::
  "((string \<times> api_group) list \<Rightarrow> (string \<times> api_group) list) \<Rightarrow> fake_discovery \<Rightarrow> api_group_resources list result" where
  "fake_resources order c =
     GetAPIGroupResources (whole (ServerGroups order c)) (\<lambda>gv. whole (snd (ServerResourcesForGroupVersion gv c)))"

end
