(* ===== verification/Rest_Mapper_Correct.thy ===== *)
theory Rest_Mapper_Correct
  imports Rest_Mapper
begin

text \<open>
  What the REST mapper made from discovery answers for a resource that was discovered: its plural, its
  singular and its kind, whichever of its names is asked for and whatever order the runtime visits the
  maps in.
\<close>

section \<open>Narrowing by priority\<close>

definition gv_matches :: "group_version \<Rightarrow> group_version \<Rightarrow> bool" where
  "gv_matches p gv \<longleftrightarrow>
     (gv_Group p = ''*'' \<or> gv_Group p = gv_Group gv) \<and> (gv_Version p = ''*'' \<or> gv_Version p = gv_Version gv)"

lemma pattern_matches:
  "resourceMatches (WithResource gv ''*'') r \<longleftrightarrow> gv_matches gv (gvr_gv r)"
  "kindMatches (WithKind gv ''*'') k \<longleftrightarrow> gv_matches gv (gvk_gv k)"
  by (simp_all add: resourceMatches_def kindMatches_def gv_matches_def gvr_gv_def gvk_gv_def WithResource_def WithKind_def)

lemma narrow_map: "narrow m (map f ps) xs = narrow (\<lambda>p. m (f p)) ps xs"
  by (induction ps arbitrary: xs) (auto split: list.splits)

text \<open>The patterns before the first that matches are passed over; that one decides, if it has one match.\<close>

lemma narrow_first:
  assumes "\<forall>p \<in> set ps. length (filter (m p) xs) \<le> 1" and "\<exists>p \<in> set ps. filter (m p) xs \<noteq> []"
  shows "\<exists>x \<in> set xs. narrow m (ps @ qs) xs = Inl x"
  using assms
proof (induction ps)
  case (Cons p ps)
  show ?case
  proof (cases "filter (m p) xs")
    case (Cons x ys)
    then have "filter (m p) xs = [x]" using Cons.prems(1) by simp
    moreover from this have "set (filter (m p) xs) = {x}" by simp
    then have "x \<in> set xs" by auto
    ultimately show ?thesis by auto
  qed (use Cons in auto)
qed simp

lemma length_at_most_one:
  assumes "distinct ys" and "\<And>x y. x \<in> set ys \<Longrightarrow> y \<in> set ys \<Longrightarrow> x = y"
  shows "length ys \<le> 1"
proof (rule ccontr)
  assume "\<not> length ys \<le> 1"
  then obtain x y zs where "ys = x # y # zs" by (cases ys; cases "tl ys") auto
  then show False using assms(1) assms(2) [of x y] by simp
qed

lemma two_elements: "distinct xs \<Longrightarrow> length xs \<noteq> 1 \<Longrightarrow> xs \<noteq> [] \<Longrightarrow> \<exists>a \<in> set xs. \<exists>b \<in> set xs. a \<noteq> b"
  by (cases xs; cases "tl xs") auto

text \<open>The versions that are not called \<open>*\<close>.\<close>

definition proper_versions :: "api_group_resources list \<Rightarrow> bool" where
  "proper_versions groups \<longleftrightarrow> list_all (\<lambda>gv. gv_Version gv \<noteq> ''*'') (concat (map priority_versions groups))"

definition group_version_list :: "api_group_resources list \<Rightarrow> group_version list" where
  "group_version_list groups = map fst (concat (map group_versions groups))"

lemma group_versions_known:
  "gv \<in> fst ` set (group_versions g) \<Longrightarrow>
   gv_Group gv = ag_Name (agr_Group g) \<and> go_get (agr_VersionedResources g) (gv_Version gv) \<noteq> None"
  by (auto simp: group_versions_def List.map_filter_def)

lemma versions_have_priority:
  assumes "gv \<in> set (group_version_list groups)" and "gv_Version gv \<noteq> []"
  shows "gv \<in> set (concat (map priority_versions groups))"
proof -
  obtain g where g: "g \<in> set groups" "gv \<in> fst ` set (group_versions g)"
    using assms(1) by (auto simp: group_version_list_def)
  have "gv \<in> set (priority_versions g)"
    using g(2) group_versions_known [OF g(2)] assms(2)
    by (cases "gv_Version gv = gvd_Version (ag_PreferredVersion (agr_Group g))"; cases gv)
      (auto simp: priority_versions_def Let_def)
  then show ?thesis using g(1) by auto
qed

text \<open>
  Among several candidates of one group, of different versions, the priorities always decide; a
  candidate of the core group's \<open>v1\<close> comes before all of other group-versions.
\<close>

lemma priority_one_group:
  assumes "proper_versions groups" and "distinct xs" and "length xs \<noteq> 1" and "xs \<noteq> []"
    and inj: "inj_on (\<lambda>x. gv_Version (gv_of x)) (set xs)"
    and known: "\<forall>x \<in> set xs. gv_of x \<in> set (group_version_list groups)"
  shows "\<exists>x \<in> set xs. narrow (\<lambda>p x. gv_matches p (gv_of x)) (priorities groups) xs = Inl x"
proof -
  let ?ps = "\<lparr>gv_Group = [], gv_Version = ''v1''\<rparr> # concat (map priority_versions groups)"
  let ?m = "\<lambda>p x. gv_matches p (gv_of x)"
  obtain qs where prios: "priorities groups = ?ps @ qs" by (simp add: priorities_def)
  have one: "length (filter (?m p) xs) \<le> 1" if "p \<in> set ?ps" for p
  proof -
    have "gv_Version p \<noteq> ''*''" using that assms(1) by (auto simp: proper_versions_def list_all_iff)
    then have "x = y" if "x \<in> set (filter (?m p) xs)" "y \<in> set (filter (?m p) xs)" for x y
      using that inj by (auto simp: gv_matches_def inj_on_def)
    then show ?thesis using assms(2) by (intro length_at_most_one distinct_filter)
  qed
  obtain a b where ab: "a \<in> set xs" "b \<in> set xs" "a \<noteq> b"
    using two_elements [OF assms(2-4)] by blast
  then have "gv_Version (gv_of a) \<noteq> [] \<or> gv_Version (gv_of b) \<noteq> []" using inj by (auto simp: inj_on_def)
  then obtain x where x: "x \<in> set xs" "gv_Version (gv_of x) \<noteq> []" using ab by blast
  then have "gv_of x \<in> set ?ps" using versions_have_priority known by auto
  moreover have "filter (?m (gv_of x)) xs \<noteq> []" using x(1) by (auto simp: filter_empty_conv gv_matches_def)
  ultimately show ?thesis unfolding prios using narrow_first [of ?ps ?m xs qs] one by blast
qed

lemma priority_core:
  assumes "distinct xs" and "x \<in> set xs" and "gv_of x = \<lparr>gv_Group = [], gv_Version = ''v1''\<rparr>"
    and "\<forall>y \<in> set xs. gv_of y = \<lparr>gv_Group = [], gv_Version = ''v1''\<rparr> \<longrightarrow> y = x"
  shows "narrow (\<lambda>p x. gv_matches p (gv_of x)) (priorities groups) xs = Inl x"
proof -
  have "gv_matches \<lparr>gv_Group = [], gv_Version = ''v1''\<rparr> gv \<longleftrightarrow> gv = \<lparr>gv_Group = [], gv_Version = ''v1''\<rparr>" for gv
    by (cases gv) (auto simp: gv_matches_def)
  then have "filter (\<lambda>y. gv_matches \<lparr>gv_Group = [], gv_Version = ''v1''\<rparr> (gv_of y)) xs = filter (\<lambda>y. y = x) xs"
    using assms(3,4) by (intro filter_cong) auto
  also have "\<dots> = [x]" using assms(1,2) by (induction xs) (auto simp: filter_empty_conv)
  finally show ?thesis by (simp add: priorities_def)
qed

section \<open>The mapper of a group-version\<close>

text \<open>All that the mapper of a group-version knows belongs to it (but for a singular that cannot be guessed).\<close>

definition own_resource :: "group_version \<Rightarrow> group_version_resource \<Rightarrow> bool" where
  "own_resource gv r \<longleftrightarrow> gvr_gv r = gv \<or> r = zero_gvr"

definition own :: "group_version \<Rightarrow> default_mapper \<Rightarrow> bool" where
  "own gv m \<longleftrightarrow>
     go_map_wf (dm_pluralToSingular m) \<and>
     (\<forall>(p, s) \<in> set (dm_pluralToSingular m). gvr_gv p = gv \<and> own_resource gv s) \<and>
     (\<forall>(r, k) \<in> set (dm_resourceToKind m). own_resource gv r \<and> gvk_gv k = gv)"

lemma go_put_in: "x \<in> set (go_put k v m) \<Longrightarrow> x = (k, v) \<or> x \<in> set m"
  unfolding go_put_def by (induction m) (auto split: if_splits)

lemma with_simps [simp]:
  "gvr_gv (WithResource gv r) = gv" "gvk_gv (WithKind gv k) = gv" "gvr_Resource (WithResource gv r) = r"
  "gvk_Kind (WithKind gv k) = k"
  by (simp_all add: gvr_gv_def gvk_gv_def WithResource_def WithKind_def)

lemma own_new: "own gv (NewDefaultRESTMapper gvs)"
  by (simp add: own_def NewDefaultRESTMapper_def)

lemma own_AddSpecific:
  assumes "own gv m" and "gvk_gv kind = gv" and "gvr_gv plural = gv" and "own_resource gv singular"
  shows "own gv (AddSpecific kind plural singular scope m)"
  using assms by (auto simp: own_def AddSpecific_def own_resource_def dest!: go_put_in)

lemma guess_own:
  "gvk_gv k = gv \<Longrightarrow> own_resource gv (snd (UnsafeGuessKindToResource k))"
  "gvk_gv k = gv \<Longrightarrow> gvk_Kind k \<noteq> [] \<Longrightarrow> gvr_gv (fst (UnsafeGuessKindToResource k)) = gv"
  by (simp_all add: UnsafeGuessKindToResource_def own_resource_def Let_def)

lemma own_Add: "own gv m \<Longrightarrow> gvk_gv k = gv \<Longrightarrow> gvk_Kind k \<noteq> [] \<Longrightarrow> own gv (mapper_Add k scope m)"
  using guess_own [of k gv] by (auto simp: mapper_Add_def case_prod_beta intro: own_AddSpecific)

lemma own_add_resource: "own gv m \<Longrightarrow> own gv (add_resource gv m r)"
  unfolding add_resource_def Let_def
  by (auto intro!: own_Add own_AddSpecific guess_own(1) simp: own_resource_def [of gv "WithResource gv x" for x])

lemma own_version_mapper: "own gv (version_mapper gv rs)"
proof -
  have "own gv (foldl (add_resource gv) m rs)" if "own gv m" for m
    using that by (induction rs arbitrary: m) (simp_all add: own_add_resource)
  then show ?thesis by (simp add: version_mapper_def own_Add own_new)
qed

text \<open>The orders in which maps are visited are rearrangements of them.\<close>

definition visits :: "range_orders \<Rightarrow> bool" where
  "visits ro \<longleftrightarrow> (\<forall>xs. mset (ro_plurals ro xs) = mset xs) \<and> (\<forall>xs. mset (ro_kinds ro xs) = mset xs)"

lemma visits_set: "visits ro \<Longrightarrow> set (ro_plurals ro xs) = set xs" "visits ro \<Longrightarrow> set (ro_kinds ro ys) = set ys"
  unfolding visits_def using mset_eq_setD by blast+

text \<open>A request that names no version: a name in lower case, and the beginning of a group.\<close>

definition asks :: "string \<Rightarrow> string \<Rightarrow> group_version_resource" where
  "asks g name = \<lparr>gvr_Group = g, gvr_Version = [], gvr_Resource = name\<rparr>"

definition plain_name :: "string \<Rightarrow> bool" where
  "plain_name name \<longleftrightarrow> name \<noteq> [] \<and> to_lower name = name"

text \<open>What matches such a request, among the plurals and among the kinds a mapper knows.\<close>

definition plurals_for :: "string \<Rightarrow> string \<Rightarrow> (group_version_resource \<times> group_version_resource) list \<Rightarrow> group_version_resource list" where
  "plurals_for g name entries =
     map fst (filter (\<lambda>(p, s). (gvr_Resource p = name \<or> gvr_Resource s = name) \<and> has_prefix (gvr_Group p) g) entries)"

definition kinds_for :: "string \<Rightarrow> string \<Rightarrow> (group_version_resource \<times> group_version_kind) list \<Rightarrow> group_version_kind list" where
  "kinds_for g name entries = map snd (filter (\<lambda>(r, k). gvr_Resource r = name \<and> has_prefix (gvr_Group r) g) entries)"

lemma set_plural_matches: "set (plural_matches q entries) = {p. \<exists>s. (p, s) \<in> set entries \<and> (q p \<or> q s)}"
  by (force simp: plural_matches_def)

lemma has_prefix_Nil [simp]: "has_prefix s []"
  by (simp add: has_prefix_def)

lemma has_prefix_self [simp]: "has_prefix s s"
  by (simp add: has_prefix_def)

lemma asks_coerced: "plain_name name \<Longrightarrow> coerceResourceForMatching (asks g name) = asks g name"
  by (simp add: coerceResourceForMatching_def asks_def plain_name_def)

lemma own_resource_group: "own_resource gv r \<Longrightarrow> gvr_Resource r \<noteq> [] \<Longrightarrow> gvr_Group r = gv_Group gv"
  by (auto simp: own_resource_def gvr_gv_def zero_gvr_def)

lemma own_group:
  "own gv m \<Longrightarrow> (p, s) \<in> set (dm_pluralToSingular m) \<Longrightarrow> gvr_Group p = gv_Group gv"
  "own gv m \<Longrightarrow> (p, s) \<in> set (dm_pluralToSingular m) \<Longrightarrow> gvr_Resource s \<noteq> [] \<Longrightarrow> gvr_Group s = gv_Group gv"
  "own gv m \<Longrightarrow> (r, k) \<in> set (dm_resourceToKind m) \<Longrightarrow> gvr_Resource r \<noteq> [] \<Longrightarrow> gvr_Group r = gv_Group gv"
  using own_resource_group by (fastforce simp: own_def gvr_gv_def)+

lemma default_ResourcesFor_asks:
  assumes "own gv m" and "visits ro" and "plain_name name"
  shows "case default_ResourcesFor ro m (asks g name) of
      Ok rs \<Rightarrow> rs \<noteq> [] \<and> set rs = set (plurals_for g name (dm_pluralToSingular m))
    | Err err \<Rightarrow> IsNoMatchError err \<and> plurals_for g name (dm_pluralToSingular m) = []
    | Abort e \<Rightarrow> False"
proof -
  let ?entries = "ro_plurals ro (dm_pluralToSingular m)"
  let ?P = "set (plurals_for g name (dm_pluralToSingular m))"
  define ret where "ret = (if g \<noteq> [] then
      (let exact = plural_matches (\<lambda>r. gvr_GroupResource r = gvr_GroupResource (asks g name)) ?entries
       in if exact \<noteq> [] then exact
          else plural_matches (\<lambda>r. gvr_Resource r = name) (filter (\<lambda>(p, s). has_prefix (gvr_Group p) g) ?entries))
    else plural_matches (\<lambda>r. gvr_Resource r = name) ?entries)"
  have result: "default_ResourcesFor ro m (asks g name) =
      (if ret = [] then Err (NoResourceMatchError (asks g name))
       else Ok (sort_less (resource_less (dm_defaultGroupVersions m)) ret))"
    using assms(3) by (simp add: default_ResourcesFor_def asks_coerced [OF assms(3)] ret_def)
      (simp add: asks_def plain_name_def Let_def)
  have name: "name \<noteq> []" using assms(3) by (simp add: plain_name_def)
  have P: "?P = {p. \<exists>s. (p, s) \<in> set ?entries \<and> (gvr_Resource p = name \<or> gvr_Resource s = name) \<and> has_prefix (gvr_Group p) g}"
    by (force simp: plurals_for_def visits_set [OF assms(2)])
  have group: "gvr_Group p = gv_Group gv" "gvr_Resource s = name \<Longrightarrow> gvr_Group s = gv_Group gv" if "(p, s) \<in> set ?entries" for p s
    using own_group(1,2) [OF assms(1)] that name by (auto simp: visits_set [OF assms(2)])
  have "set ret = ?P"
  proof (cases "g = []")
    case True
    then show ?thesis unfolding P by (auto simp: ret_def set_plural_matches)
  next
    case False
    let ?exact = "plural_matches (\<lambda>r. gvr_GroupResource r = gvr_GroupResource (asks g name)) ?entries"
    have exact: "set ?exact = (if gv_Group gv = g then ?P else {})"
      unfolding P set_plural_matches
      using group by (auto simp: gvr_GroupResource_def asks_def)
    have rest: "set (plural_matches (\<lambda>r. gvr_Resource r = name) (filter (\<lambda>(p, s). has_prefix (gvr_Group p) g) ?entries)) = ?P"
      unfolding P set_plural_matches by auto
    show ?thesis
    proof (cases "?exact = []")
      case True
      then show ?thesis using False rest by (simp add: ret_def)
    next
      case nonempty: False
      then have "gv_Group gv = g" using exact by (auto split: if_splits)
      then show ?thesis using False nonempty exact by (simp add: ret_def)
    qed
  qed
  note ret = this
  show ?thesis
  proof (cases "ret = []")
    case True
    then have "plurals_for g name (dm_pluralToSingular m) = []" using ret by (simp flip: set_empty)
    then show ?thesis by (simp add: result True NoResourceMatchError_def)
  next
    case False
    let ?sorted = "sort_less (resource_less (dm_defaultGroupVersions m)) ret"
    have "set ?sorted = ?P" using ret by (simp only: set_sort_less)
    moreover have "?sorted \<noteq> []" using False by (simp only: flip: set_empty) (simp only: set_sort_less simp_thms)
    ultimately show ?thesis by (simp only: result False if_False result.case simp_thms)
  qed
qed

lemma default_KindsFor_asks:
  assumes "own gv m" and "visits ro" and "plain_name name"
  shows "case default_KindsFor ro m (asks g name) of
      Ok ks \<Rightarrow> ks \<noteq> [] \<and> set ks = set (kinds_for g name (dm_resourceToKind m))
    | Err err \<Rightarrow> IsNoMatchError err \<and> kinds_for g name (dm_resourceToKind m) = []
    | Abort e \<Rightarrow> False"
proof -
  let ?entries = "ro_kinds ro (dm_resourceToKind m)"
  let ?K = "set (kinds_for g name (dm_resourceToKind m))"
  let ?kinds = "\<lambda>q. map snd (filter (\<lambda>(r, k). q r) ?entries)"
  define ret where "ret = (if g \<noteq> [] then
      (let exact = ?kinds (\<lambda>r. gvr_GroupResource r = gvr_GroupResource (asks g name))
       in if exact \<noteq> [] then exact
          else ?kinds (\<lambda>r. has_prefix (gvr_Group r) g \<and> gvr_Resource r = name))
    else ?kinds (\<lambda>r. gvr_Resource r = name))"
  have result: "default_KindsFor ro m (asks g name) =
      (if ret = [] then Err (NoResourceMatchError (asks g name))
       else Ok (sort_less (kind_less (dm_defaultGroupVersions m)) ret))"
    using assms(3) by (simp add: default_KindsFor_def asks_coerced [OF assms(3)] ret_def)
      (simp add: asks_def plain_name_def Let_def)
  have name: "name \<noteq> []" using assms(3) by (simp add: plain_name_def)
  have K: "?K = {k. \<exists>r. (r, k) \<in> set ?entries \<and> gvr_Resource r = name \<and> has_prefix (gvr_Group r) g}"
    by (force simp: kinds_for_def visits_set [OF assms(2)])
  have group: "gvr_Resource r = name \<Longrightarrow> gvr_Group r = gv_Group gv" if "(r, k) \<in> set ?entries" for r k
    using own_group(3) [OF assms(1)] that name by (auto simp: visits_set [OF assms(2)])
  have kinds: "set (?kinds q) = {k. \<exists>r. (r, k) \<in> set ?entries \<and> q r}" for q by force
  have ret: "set ret = ?K"
  proof (cases "g = []")
    case True
    then have "ret = ?kinds (\<lambda>r. gvr_Resource r = name)" by (simp add: ret_def)
    then show ?thesis unfolding K using True by (simp only: kinds) simp
  next
    case False
    let ?exact = "?kinds (\<lambda>r. gvr_GroupResource r = gvr_GroupResource (asks g name))"
    have exact: "set ?exact = (if gv_Group gv = g then ?K else {})"
      unfolding K kinds using group by (auto simp: gvr_GroupResource_def asks_def)
    have rest: "set (?kinds (\<lambda>r. has_prefix (gvr_Group r) g \<and> gvr_Resource r = name)) = ?K"
      unfolding K kinds by auto
    show ?thesis
    proof (cases "?exact = []")
      case True
      then show ?thesis using False rest by (simp add: ret_def)
    next
      case nonempty: False
      then have "set ?exact \<noteq> {}" by (simp only: set_empty not_False_eq_True)
      then have "gv_Group gv = g" unfolding exact by presburger
      moreover have "ret = ?exact" using False nonempty by (simp add: ret_def)
      ultimately show ?thesis using exact by (simp only: if_True simp_thms)
    qed
  qed
  show ?thesis
  proof (cases "ret = []")
    case True
    then have "kinds_for g name (dm_resourceToKind m) = []" using ret by (simp flip: set_empty)
    then show ?thesis by (simp add: result True NoResourceMatchError_def)
  next
    case False
    let ?sorted = "sort_less (kind_less (dm_defaultGroupVersions m)) ret"
    have "set ?sorted = ?K" using ret by (simp only: set_sort_less)
    moreover have "?sorted \<noteq> []" using False by (simp only: flip: set_empty) (simp only: set_sort_less simp_thms)
    ultimately show ?thesis by (simp only: result False if_False result.case simp_thms)
  qed
qed

section \<open>The union\<close>

lemma add_new_set: "set (add_new found xs) = set found \<union> set xs"
  unfolding add_new_def by (induction xs arbitrary: found) auto

lemma add_new_distinct: "distinct found \<Longrightarrow> distinct (add_new found xs)"
  unfolding add_new_def by (induction xs arbitrary: found) auto

text \<open>
  The union of what some mappers answer to a question, when each answers what \<open>found_in\<close> says, or that
  there is no match.
\<close>

lemma gather_union:
  assumes "\<forall>t \<in> set ts. case ask t of Ok xs \<Rightarrow> xs \<noteq> [] \<and> set xs = set (found_in t)
      | Err err \<Rightarrow> IsNoMatchError err \<and> found_in t = [] | Abort e \<Rightarrow> False"
    and "distinct found"
  shows "\<exists>all. gather (map ask ts) found = Ok all \<and> distinct all \<and>
    set all = set found \<union> set (concat (map found_in ts))"
  using assms
proof (induction ts arbitrary: found)
  case (Cons t ts)
  show ?case
  proof (cases "ask t")
    case (Ok xs)
    then show ?thesis
      using Cons.IH [of "add_new found xs"] Cons.prems
      by (simp add: add_new_set add_new_distinct Un_assoc)
  qed (use Cons in \<open>auto split: result.splits\<close>)
qed simp

lemma gather_match:
  assumes "\<forall>t \<in> set ts. case ask t of Ok xs \<Rightarrow> xs \<noteq> [] \<and> set xs = set (found_in t)
      | Err err \<Rightarrow> IsNoMatchError err \<and> found_in t = [] | Abort e \<Rightarrow> False"
    and "concat (map found_in ts) \<noteq> []"
  shows "\<exists>all. bind_result (gather (map ask ts) []) (some_match r) = Ok all \<and> distinct all \<and> all \<noteq> [] \<and>
    set all = set (concat (map found_in ts))"
proof -
  obtain all where all: "gather (map ask ts) [] = Ok all" "distinct all" "set all = set (concat (map found_in ts))"
    using gather_union [OF assms(1), of "[]"] by auto
  then have "all \<noteq> []" using assms(2) by (metis set_empty)
  then show ?thesis using all by (intro exI [of _ all]) (simp add: some_match_def)
qed

end
