(* ===== verification/Discovered_Names.thy ===== *)
theory Discovered_Names
  imports Rest_Mapper_Correct Helpers
begin

text \<open>
  The answers of the REST mapper made from discovery, for all of the groups discovered: which plural,
  kind and singular a name of a resource has, when what was discovered leaves no doubt about it.
\<close>

section \<open>What is known\<close>

definition known_plurals :: "api_group_resources list \<Rightarrow> (group_version_resource \<times> group_version_resource) list" where
  "known_plurals groups = concat (map dm_pluralToSingular (version_mappers groups))"

definition known_kinds :: "api_group_resources list \<Rightarrow> (group_version_resource \<times> group_version_kind) list" where
  "known_kinds groups = concat (map dm_resourceToKind (version_mappers groups))"

lemma version_mappers_own:
  assumes "m \<in> set (version_mappers groups)"
  shows "\<exists>gv. own gv m \<and> gv \<in> set (group_version_list groups)"
proof -
  obtain gv rs where "(gv, rs) \<in> set (concat (map group_versions groups))" "m = version_mapper gv rs"
    using assms by (auto simp: version_mappers_def)
  then show ?thesis
    using own_version_mapper [of gv rs] by (intro exI [of _ gv]) (force simp: group_version_list_def)
qed

lemma known_versions:
  "(p, s) \<in> set (known_plurals groups) \<Longrightarrow> gvr_gv p \<in> set (group_version_list groups)"
  "(r, k) \<in> set (known_kinds groups) \<Longrightarrow> gvk_gv k \<in> set (group_version_list groups)"
proof -
  assume "(p, s) \<in> set (known_plurals groups)"
  then obtain m where m: "m \<in> set (version_mappers groups)" "(p, s) \<in> set (dm_pluralToSingular m)"
    by (auto simp: known_plurals_def)
  with version_mappers_own [OF m(1)] show "gvr_gv p \<in> set (group_version_list groups)" by (auto simp: own_def)
next
  assume "(r, k) \<in> set (known_kinds groups)"
  then obtain m where m: "m \<in> set (version_mappers groups)" "(r, k) \<in> set (dm_resourceToKind m)"
    by (auto simp: known_kinds_def)
  with version_mappers_own [OF m(1)] show "gvk_gv k \<in> set (group_version_list groups)" by (auto simp: own_def)
qed

lemma found_concat:
  "plurals_for g name (known_plurals groups) = concat (map (\<lambda>m. plurals_for g name (dm_pluralToSingular m)) (version_mappers groups))"
  "kinds_for g name (known_kinds groups) = concat (map (\<lambda>m. kinds_for g name (dm_resourceToKind m)) (version_mappers groups))"
  by (simp_all add: plurals_for_def kinds_for_def known_plurals_def known_kinds_def filter_concat map_concat comp_def)

lemma found_versions:
  "p \<in> set (plurals_for g name (known_plurals groups)) \<Longrightarrow> gvr_gv p \<in> set (group_version_list groups)"
  "k \<in> set (kinds_for g name (known_kinds groups)) \<Longrightarrow> gvk_gv k \<in> set (group_version_list groups)"
  by (auto simp: plurals_for_def kinds_for_def intro: known_versions)

text \<open>What all mappers of group-versions together find.\<close>

lemma all_ResourcesFor:
  assumes "visits ro" and "plain_name name" and "plurals_for g name (known_plurals groups) \<noteq> []"
  shows "\<exists>all. multi_ResourcesFor (map (DefaultRESTMapper ro) (version_mappers groups)) (asks g name) = Ok all \<and>
    distinct all \<and> all \<noteq> [] \<and> set all = set (plurals_for g name (known_plurals groups))"
  unfolding found_concat multi_ResourcesFor_def map_map comp_def DefaultRESTMapper_def rest_mapper.simps
  using version_mappers_own default_ResourcesFor_asks [OF _ assms(1,2)] assms(3) [unfolded found_concat]
  by (intro gather_match) blast+

lemma all_KindsFor:
  assumes "visits ro" and "plain_name name" and "kinds_for g name (known_kinds groups) \<noteq> []"
  shows "\<exists>all. multi_KindsFor (map (DefaultRESTMapper ro) (version_mappers groups)) (asks g name) = Ok all \<and>
    distinct all \<and> all \<noteq> [] \<and> set all = set (kinds_for g name (known_kinds groups))"
  unfolding found_concat multi_KindsFor_def map_map comp_def DefaultRESTMapper_def rest_mapper.simps
  using version_mappers_own default_KindsFor_asks [OF _ assms(1,2)] assms(3) [unfolded found_concat]
  by (intro gather_match) blast+

section \<open>Names without doubt\<close>

text \<open>
  Candidates are decisive for \<open>P\<close> when all of them satisfy it, or the group is the core's, and of the
  candidates in the core's \<open>v1\<close>, which has priority, there are some and all satisfy it.
\<close>

definition core_v1 :: group_version where
  "core_v1 = \<lparr>gv_Group = [], gv_Version = ''v1''\<rparr>"

definition decisive :: "('a \<Rightarrow> group_version) \<Rightarrow> ('a \<Rightarrow> bool) \<Rightarrow> 'a list \<Rightarrow> bool" where
  "decisive gv_of P found \<longleftrightarrow> found \<noteq> [] \<and>
     (list_all P found \<or>
      list_ex (\<lambda>x. gv_of x = core_v1) found \<and> list_all (\<lambda>x. gv_of x = core_v1 \<longrightarrow> P x) found)"

lemma decisive_choice:
  assumes "decisive gv_of P found" and "set all = set found" and "distinct all" and "all \<noteq> []"
    and "proper_versions groups" and "\<forall>x \<in> set found. gv_of x \<in> set (group_version_list groups)"
    and same: "\<And>x y. P x \<Longrightarrow> P y \<Longrightarrow> gv_Version (gv_of x) = gv_Version (gv_of y) \<Longrightarrow> x = y"
  shows "\<exists>x \<in> set found. P x \<and> (if length all = 1 then hd all = x
    else narrow (\<lambda>p x. gv_matches p (gv_of x)) (priorities groups) all = Inl x)"
proof (cases "list_all P found")
  case True
  then have P: "\<forall>x \<in> set all. P x" using assms(2) by (simp add: list_all_iff)
  show ?thesis
  proof (cases "length all = 1")
    case True
    then show ?thesis using P assms(2,4) hd_in_set [of all] by (intro bexI [of _ "hd all"]) simp_all
  next
    case False
    have "inj_on (\<lambda>x. gv_Version (gv_of x)) (set all)" using same P by (intro inj_onI) blast
    then have "\<exists>x \<in> set all. narrow (\<lambda>p x. gv_matches p (gv_of x)) (priorities groups) all = Inl x"
      using priority_one_group [OF assms(5,3) False assms(4)] assms(2,6) by simp
    then show ?thesis using P False assms(2) by auto
  qed
next
  case False
  then have core: "list_ex (\<lambda>x. gv_of x = core_v1) found" "list_all (\<lambda>x. gv_of x = core_v1 \<longrightarrow> P x) found"
    using assms(1) by (simp_all add: decisive_def)
  obtain x where x: "x \<in> set found" "gv_of x = core_v1" using core(1) by (auto simp: list_ex_iff)
  then have P: "P x" using core(2) by (simp add: list_all_iff)
  have "y = x" if "y \<in> set all" "gv_of y = core_v1" for y
  proof -
    have "P y" using core(2) that assms(2) by (simp add: list_all_iff)
    then show ?thesis using same [of y x] that(2) x(2) P by simp
  qed
  then have "narrow (\<lambda>p x. gv_matches p (gv_of x)) (priorities groups) all = Inl x"
    using x assms(2) unfolding core_v1_def by (intro priority_core assms(3)) blast+
  moreover have "hd all = x" if "length all = 1"
  proof -
    from that obtain y where "all = [y]" by (cases all) auto
    then show ?thesis using x(1) assms(2) by (metis list.sel(1) list.set(1) list.simps(15) singletonD)
  qed
  ultimately show ?thesis using x(1) P by (intro bexI [of _ x]) simp_all
qed

definition names_plural :: "api_group_resources list \<Rightarrow> string \<Rightarrow> string \<Rightarrow> string \<Rightarrow> bool" where
  "names_plural groups g name pl \<longleftrightarrow>
     decisive gvr_gv (\<lambda>r. gvr_GroupResource r = \<lparr>gr_Group = g, gr_Resource = pl\<rparr>) (plurals_for g name (known_plurals groups))"

definition names_kind :: "api_group_resources list \<Rightarrow> string \<Rightarrow> string \<Rightarrow> string \<Rightarrow> bool" where
  "names_kind groups g name kd \<longleftrightarrow>
     decisive gvk_gv (\<lambda>k. gvk_Group k = g \<and> gvk_Kind k = kd) (kinds_for g name (known_kinds groups))"

text \<open>The singular is that of the first group-version that has the plural.\<close>

definition names_singular :: "api_group_resources list \<Rightarrow> string \<Rightarrow> string \<Rightarrow> bool" where
  "names_singular groups pl sg \<longleftrightarrow> sg \<noteq> [] \<and>
     (case find (\<lambda>m. plurals_for [] pl (dm_pluralToSingular m) \<noteq> []) (version_mappers groups) of
        None \<Rightarrow> False
      | Some m \<Rightarrow> list_all (\<lambda>(p, s). gvr_Resource p = pl \<or> gvr_Resource s = pl \<longrightarrow> gvr_Resource s = sg)
          (dm_pluralToSingular m))"

lemma asks_WithVersion: "WithVersion \<lparr>gr_Group = g, gr_Resource = name\<rparr> [] = asks g name"
  by (simp add: asks_def WithVersion_def)

lemma narrow_patterns:
  "narrow resourceMatches (map (\<lambda>gv. WithResource gv ''*'') ps) rs = narrow (\<lambda>p x. gv_matches p (gvr_gv x)) ps rs"
  "narrow kindMatches (map (\<lambda>gv. WithKind gv ''*'') ps) ks = narrow (\<lambda>p x. gv_matches p (gvk_gv x)) ps ks"
proof -
  have "(\<lambda>p. resourceMatches (WithResource p ''*'')) = (\<lambda>p x. gv_matches p (gvr_gv x))"
    "(\<lambda>p. kindMatches (WithKind p ''*'')) = (\<lambda>p x. gv_matches p (gvk_gv x))"
    by (simp_all add: fun_eq_iff pattern_matches)
  then show "narrow resourceMatches (map (\<lambda>gv. WithResource gv ''*'') ps) rs = narrow (\<lambda>p x. gv_matches p (gvr_gv x)) ps rs"
    and "narrow kindMatches (map (\<lambda>gv. WithKind gv ''*'') ps) ks = narrow (\<lambda>p x. gv_matches p (gvk_gv x)) ps ks"
    by (simp_all only: narrow_map)
qed

lemma discovered_ResourceFor:
  assumes "visits ro" and "plain_name name" and "proper_versions groups" and "names_plural groups g name pl"
  shows "\<exists>v. rm_ResourceFor (NewDiscoveryRESTMapper ro groups) (asks g name) =
    Ok \<lparr>gvr_Group = g, gvr_Version = v, gvr_Resource = pl\<rparr>"
proof -
  let ?P = "\<lambda>r. gvr_GroupResource r = \<lparr>gr_Group = g, gr_Resource = pl\<rparr>"
  let ?found = "plurals_for g name (known_plurals groups)"
  have dec: "decisive gvr_gv ?P ?found" and "?found \<noteq> []"
    using assms(4) by (simp_all add: names_plural_def decisive_def)
  then obtain all where all: "multi_ResourcesFor (map (DefaultRESTMapper ro) (version_mappers groups)) (asks g name) = Ok all"
    "distinct all" "all \<noteq> []" "set all = set ?found"
    using all_ResourcesFor [OF assms(1,2)] by blast
  have "x = y" if "?P x" "?P y" "gv_Version (gvr_gv x) = gv_Version (gvr_gv y)" for x y
    using that by (simp add: gvr_GroupResource_def gvr_gv_def)
  then obtain r where r: "?P r" "if length all = 1 then hd all = r
      else narrow (\<lambda>p x. gv_matches p (gvr_gv x)) (priorities groups) all = Inl r"
    using decisive_choice [OF dec all(4,2,3) assms(3)] found_versions(1) by blast
  then have "rm_ResourceFor (NewDiscoveryRESTMapper ro groups) (asks g name) = Ok r"
    by (simp add: NewDiscoveryRESTMapper_def PriorityRESTMapper_def MultiRESTMapper_def priority_ResourceFor_def all(1)
        narrow_patterns split: if_splits)
  moreover have "r = \<lparr>gvr_Group = g, gvr_Version = gvr_Version r, gvr_Resource = pl\<rparr>"
    using r(1) by (cases r) (simp add: gvr_GroupResource_def)
  ultimately show ?thesis by metis
qed

lemma discovered_KindFor:
  assumes "visits ro" and "plain_name name" and "proper_versions groups" and "names_kind groups g name kd"
  shows "\<exists>v. rm_KindFor (NewDiscoveryRESTMapper ro groups) (asks g name) =
    Ok \<lparr>gvk_Group = g, gvk_Version = v, gvk_Kind = kd\<rparr>"
proof -
  let ?P = "\<lambda>k. gvk_Group k = g \<and> gvk_Kind k = kd"
  let ?found = "kinds_for g name (known_kinds groups)"
  have dec: "decisive gvk_gv ?P ?found" and "?found \<noteq> []"
    using assms(4) by (simp_all add: names_kind_def decisive_def)
  then obtain all where all: "multi_KindsFor (map (DefaultRESTMapper ro) (version_mappers groups)) (asks g name) = Ok all"
    "distinct all" "all \<noteq> []" "set all = set ?found"
    using all_KindsFor [OF assms(1,2)] by blast
  have "x = y" if "?P x" "?P y" "gv_Version (gvk_gv x) = gv_Version (gvk_gv y)" for x y
    using that by (simp add: gvk_gv_def)
  then obtain k where k: "?P k" "if length all = 1 then hd all = k
      else narrow (\<lambda>p x. gv_matches p (gvk_gv x)) (priorities groups) all = Inl k"
    using decisive_choice [OF dec all(4,2,3) assms(3)] found_versions(2) by blast
  then have "rm_KindFor (NewDiscoveryRESTMapper ro groups) (asks g name) = Ok k"
    by (simp add: NewDiscoveryRESTMapper_def PriorityRESTMapper_def MultiRESTMapper_def priority_KindFor_def all(1)
        narrow_patterns split: if_splits)
  moreover have "k = \<lparr>gvk_Group = g, gvk_Version = gvk_Version k, gvk_Kind = kd\<rparr>"
    using k(1) by (cases k) simp
  ultimately show ?thesis by metis
qed

text \<open>A name of nothing that was discovered.\<close>

lemma undiscovered_ResourceFor:
  assumes "visits ro" and "plain_name name" and "plurals_for g name (known_plurals groups) = []"
  shows "rm_ResourceFor (NewDiscoveryRESTMapper ro groups) (asks g name) = Err (NoResourceMatchError (asks g name))"
proof -
  have "\<forall>m \<in> set (version_mappers groups). case default_ResourcesFor ro m (asks g name) of
      Ok rs \<Rightarrow> rs \<noteq> [] \<and> set rs = set (plurals_for g name (dm_pluralToSingular m))
    | Err err \<Rightarrow> IsNoMatchError err \<and> plurals_for g name (dm_pluralToSingular m) = [] | Abort e \<Rightarrow> False"
    using version_mappers_own default_ResourcesFor_asks [OF _ assms(1,2)] by blast
  from gather_union [OF this, of "[]"]
  have "gather (map (\<lambda>m. default_ResourcesFor ro m (asks g name)) (version_mappers groups)) [] = Ok []"
    using assms(3) by (auto simp: found_concat)
  then show ?thesis
    by (simp add: NewDiscoveryRESTMapper_def PriorityRESTMapper_def MultiRESTMapper_def priority_ResourceFor_def
        multi_ResourcesFor_def DefaultRESTMapper_def comp_def some_match_def)
qed

section \<open>Singulars\<close>

lemma in_plurals_for:
  "r \<in> set (plurals_for g name entries) \<longleftrightarrow>
   (\<exists>s. (r, s) \<in> set entries \<and> (gvr_Resource r = name \<or> gvr_Resource s = name) \<and> has_prefix (gvr_Group r) g)"
  by (force simp: plurals_for_def)

lemma singular_loop_agree:
  assumes "\<forall>r \<in> set rs. \<exists>s. go_get m r = Some s \<and> gvr_Resource s = sg" and "sg \<noteq> []"
    and "singular = zero_gvr \<and> rs \<noteq> [] \<or> gvr_Resource singular = sg"
  shows "singular_loop m t resources rs singular = Ok sg"
  using assms by (induction rs arbitrary: singular) (auto simp: zero_gvr_def)

lemma default_ResourceSingularizer_agree:
  assumes "own gv m" and "visits ro" and "plain_name pl" and "sg \<noteq> []"
    and "\<forall>(p, s) \<in> set (dm_pluralToSingular m). gvr_Resource p = pl \<or> gvr_Resource s = pl \<longrightarrow> gvr_Resource s = sg"
    and "plurals_for [] pl (dm_pluralToSingular m) \<noteq> []"
  shows "default_ResourceSingularizer ro m pl = Ok sg"
proof -
  have unfold: "default_ResourceSingularizer ro m pl = bind_result (default_ResourcesFor ro m (asks [] pl))
      (\<lambda>rs. singular_loop (dm_pluralToSingular m) pl rs rs zero_gvr)"
    by (simp add: default_ResourceSingularizer_def asks_def)
  have singular: "\<exists>s. go_get (dm_pluralToSingular m) r = Some s \<and> gvr_Resource s = sg"
    if r: "r \<in> set (plurals_for [] pl (dm_pluralToSingular m))" for r
  proof -
    obtain s where s: "(r, s) \<in> set (dm_pluralToSingular m)" "gvr_Resource r = pl \<or> gvr_Resource s = pl"
      using r unfolding in_plurals_for by blast
    have "distinct (map fst (dm_pluralToSingular m))"
      using assms(1) by (simp add: own_def go_map_wf_def go_keys_def)
    then have "go_get (dm_pluralToSingular m) r = Some s" using s(1) by simp
    then show ?thesis using s assms(5) by blast
  qed
  show ?thesis
  proof (cases "default_ResourcesFor ro m (asks [] pl)")
    case (Ok rs)
    then have rs: "rs \<noteq> []" "set rs = set (plurals_for [] pl (dm_pluralToSingular m))"
      using default_ResourcesFor_asks [OF assms(1-3), of "[]"] by simp_all
    then have "singular_loop (dm_pluralToSingular m) pl rs rs zero_gvr = Ok sg"
      using singular assms(4) by (intro singular_loop_agree) simp_all
    then show ?thesis by (simp add: unfold Ok)
  qed (use default_ResourcesFor_asks [OF assms(1-3), of "[]"] assms(6) in simp_all)
qed

lemma multi_singularizer_find:
  assumes "\<forall>m \<in> set ms. \<not> found m \<longrightarrow> (\<exists>err. rm_ResourceSingularizer (f m) r = Err err)"
    and "find found ms = Some m" and "rm_ResourceSingularizer (f m) r = Ok sg"
  shows "multi_singularizer (map f ms) r init = Ok sg"
  using assms
proof (induction ms arbitrary: init)
  case (Cons m' ms)
  then show ?case by (cases "found m'") (auto split: result.splits)
qed simp

lemma discovered_ResourceSingularizer:
  assumes "visits ro" and "plain_name pl" and "names_singular groups pl sg"
  shows "rm_ResourceSingularizer (NewDiscoveryRESTMapper ro groups) pl = Ok sg"
proof -
  let ?found = "\<lambda>m. plurals_for [] pl (dm_pluralToSingular m) \<noteq> []"
  have none: "\<exists>err. default_ResourceSingularizer ro m pl = Err err"
    if m: "m \<in> set (version_mappers groups)" "\<not> ?found m" for m
  proof -
    obtain gv where gv: "own gv m" using version_mappers_own [OF m(1)] by blast
    show ?thesis
      using default_ResourcesFor_asks [OF gv assms(1,2), of "[]"] m(2)
      by (auto simp: default_ResourceSingularizer_def asks_def split: result.splits)
  qed
  obtain m where m: "find ?found (version_mappers groups) = Some m" "sg \<noteq> []"
    "\<forall>(p, s) \<in> set (dm_pluralToSingular m). gvr_Resource p = pl \<or> gvr_Resource s = pl \<longrightarrow> gvr_Resource s = sg"
    using assms(3) by (auto simp: names_singular_def list_all_iff split: option.splits)
  then have "m \<in> set (version_mappers groups)" and found: "?found m" by (auto simp: find_Some_iff)
  then obtain gv where gv: "own gv m" using version_mappers_own by blast
  have "default_ResourceSingularizer ro m pl = Ok sg"
    using default_ResourceSingularizer_agree [OF gv assms(1,2) m(2,3)] found by simp
  then have "multi_singularizer (map (DefaultRESTMapper ro) (version_mappers groups)) pl (Ok []) = Ok sg"
    using none by (intro multi_singularizer_find [OF _ m(1)]) (simp_all add: DefaultRESTMapper_def)
  then show ?thesis by (simp add: NewDiscoveryRESTMapper_def PriorityRESTMapper_def MultiRESTMapper_def)
qed

section \<open>What the provider makes of a name\<close>

text \<open>
  A resource that was discovered, under its group and one of its names, becomes its plural, and its
  singular is known; a reference to an object of it has its kind.
\<close>

definition discovered :: "api_group_resources list \<Rightarrow> group_resource \<Rightarrow> string \<Rightarrow> string \<Rightarrow> bool" where
  "discovered groups gr pl sg \<longleftrightarrow> plain_name (gr_Resource gr) \<and> plain_name pl \<and>
     names_plural groups (gr_Group gr) (gr_Resource gr) pl \<and> names_singular groups pl sg"

lemma discovered_Normalized:
  assumes "visits ro" and "proper_versions groups" and "discovered groups gr pl sg"
  shows "Normalized \<lparr>cmi_GroupResource = gr, cmi_Namespaced = ns, cmi_Metric = metric\<rparr> (NewDiscoveryRESTMapper ro groups) =
    (\<lparr>cmi_GroupResource = \<lparr>gr_Group = gr_Group gr, gr_Resource = pl\<rparr>, cmi_Namespaced = ns, cmi_Metric = metric\<rparr>, Ok sg)"
proof -
  have names: "plain_name (gr_Resource gr)" "plain_name pl" "names_plural groups (gr_Group gr) (gr_Resource gr) pl"
    "names_singular groups pl sg"
    using assms(3) by (simp_all add: discovered_def)
  obtain v where "rm_ResourceFor (NewDiscoveryRESTMapper ro groups) (WithVersion gr []) =
      Ok \<lparr>gvr_Group = gr_Group gr, gvr_Version = v, gvr_Resource = pl\<rparr>"
    using discovered_ResourceFor [OF assms(1) names(1) assms(2) names(3)]
    by (cases gr) (auto simp: asks_WithVersion)
  then show ?thesis
    using discovered_ResourceSingularizer [OF assms(1) names(2,4)]
    by (simp add: Normalized_def Let_def gvr_GroupResource_def)
qed

lemma discovered_ReferenceFor:
  assumes "visits ro" and "proper_versions groups" and "plain_name (gr_Resource gr)"
    and "names_kind groups (gr_Group gr) (gr_Resource gr) kd"
  shows "\<exists>v. ReferenceFor (NewDiscoveryRESTMapper ro groups) name \<lparr>cmi_GroupResource = gr, cmi_Namespaced = ns, cmi_Metric = metric\<rparr> =
    Ok (zero_object_reference \<lparr>or_APIVersion := gr_Group gr @ ''/'' @ v, or_Kind := kd, or_Name := nn_Name name,
      or_Namespace := nn_Namespace name\<rparr>)"
proof -
  obtain v where "rm_KindFor (NewDiscoveryRESTMapper ro groups) (WithVersion gr []) =
      Ok \<lparr>gvk_Group = gr_Group gr, gvk_Version = v, gvk_Kind = kd\<rparr>"
    using discovered_KindFor [OF assms(1,3,2,4)] by (cases gr) (auto simp: asks_WithVersion)
  then show ?thesis by (auto simp: ReferenceFor_def)
qed

section \<open>The listing behind the tables\<close>

text \<open>
  The names discovery gives, as plural, singular and kind: for each resource but subresources its own
  names and those of its lists, and for each group-version those of the kind \<open>List\<close>.
\<close>

definition guessed :: "group_version \<Rightarrow> string \<Rightarrow> group_version_resource \<times> group_version_resource \<times> group_version_kind" where
  "guessed gv kind =
     (let (plural, singular) = UnsafeGuessKindToResource (WithKind gv kind) in (plural, singular, WithKind gv kind))"

definition resource_names ::
  "group_version \<Rightarrow> api_resource \<Rightarrow> (group_version_resource \<times> group_version_resource \<times> group_version_kind) list" where
  "resource_names gv r =
     (if CHR ''/'' \<in> set (res_Name r) then []
      else [(WithResource gv (res_Name r),
             if res_SingularName r = [] then snd (UnsafeGuessKindToResource (WithKind gv (res_Kind r)))
             else WithResource gv (res_SingularName r), WithKind gv (res_Kind r)),
            guessed gv (res_Kind r @ ''List'')])"

definition version_names ::
  "group_version \<Rightarrow> api_resource list \<Rightarrow> (group_version_resource \<times> group_version_resource \<times> group_version_kind) list" where
  "version_names gv resources = concat (map (resource_names gv) resources) @ [guessed gv ''List'']"

definition listed_names ::
  "api_group_resources list \<Rightarrow> (group_version_resource \<times> group_version_resource \<times> group_version_kind) list" where
  "listed_names groups = concat (map (\<lambda>(gv, resources). version_names gv resources) (concat (map group_versions groups)))"

text \<open>The tables of a mapper hold just these names, and something for each of them.\<close>

definition tables :: "default_mapper \<Rightarrow> (group_version_resource \<times> group_version_resource \<times> group_version_kind) set \<Rightarrow> bool" where
  "tables m names \<longleftrightarrow> go_map_wf (dm_pluralToSingular m) \<and> go_map_wf (dm_resourceToKind m) \<and>
     (\<forall>p s. go_get (dm_pluralToSingular m) p = Some s \<longrightarrow> (\<exists>k. (p, s, k) \<in> names)) \<and>
     (\<forall>r k. go_get (dm_resourceToKind m) r = Some k \<longrightarrow> (\<exists>p s. (p, s, k) \<in> names \<and> (r = p \<or> r = s))) \<and>
     (\<forall>p s k. (p, s, k) \<in> names \<longrightarrow> go_get (dm_pluralToSingular m) p \<noteq> None \<and>
        go_get (dm_resourceToKind m) p \<noteq> None \<and> go_get (dm_resourceToKind m) s \<noteq> None)"

lemma tables_new: "tables (NewDefaultRESTMapper gvs) {}"
  by (simp add: tables_def NewDefaultRESTMapper_def)

lemma tables_AddSpecific:
  assumes "tables m names"
  shows "tables (AddSpecific k p s scope m) (insert (p, s, k) names)"
proof -
  let ?m = "AddSpecific k p s scope m"
  have wf: "go_map_wf (dm_pluralToSingular m)" "go_map_wf (dm_resourceToKind m)"
    and singulars: "\<And>x y. go_get (dm_pluralToSingular m) x = Some y \<Longrightarrow> \<exists>k. (x, y, k) \<in> names"
    and kinds: "\<And>r k. go_get (dm_resourceToKind m) r = Some k \<Longrightarrow> \<exists>p s. (p, s, k) \<in> names \<and> (r = p \<or> r = s)"
    and there: "\<And>p s k. (p, s, k) \<in> names \<Longrightarrow> go_get (dm_pluralToSingular m) p \<noteq> None \<and>
        go_get (dm_resourceToKind m) p \<noteq> None \<and> go_get (dm_resourceToKind m) s \<noteq> None"
    using assms unfolding tables_def by blast+
  have "go_map_wf (dm_pluralToSingular ?m)" "go_map_wf (dm_resourceToKind ?m)"
    using wf by (simp_all add: AddSpecific_def)
  moreover have "\<exists>k'. (x, y, k') \<in> insert (p, s, k) names" if "go_get (dm_pluralToSingular ?m) x = Some y" for x y
    using that singulars [of x y] by (auto simp: AddSpecific_def split: if_splits)
  moreover have "\<exists>p' s'. (p', s', k') \<in> insert (p, s, k) names \<and> (r = p' \<or> r = s')"
    if "go_get (dm_resourceToKind ?m) r = Some k'" for r k'
  proof (cases "r = p \<or> r = s")
    case True
    then have "k' = k" using that by (auto simp: AddSpecific_def split: if_splits)
    then show ?thesis using True by blast
  next
    case False
    then have "go_get (dm_resourceToKind m) r = Some k'" using that by (simp add: AddSpecific_def)
    then show ?thesis using kinds [of r k'] by blast
  qed
  moreover have "go_get (dm_pluralToSingular ?m) p' \<noteq> None \<and> go_get (dm_resourceToKind ?m) p' \<noteq> None \<and>
      go_get (dm_resourceToKind ?m) s' \<noteq> None" if "(p', s', k') \<in> insert (p, s, k) names" for p' s' k'
    using that there [of p' s' k'] by (auto simp: AddSpecific_def)
  ultimately show ?thesis unfolding tables_def by blast
qed

text \<open>The second of two kinds added for the same names is the one kept.\<close>

lemma tables_AddSpecific_again:
  assumes "tables m names"
  shows "tables (AddSpecific k p s scope (AddSpecific k' p s scope' m)) (insert (p, s, k) names)"
proof -
  have "go_get (dm_resourceToKind (AddSpecific k p s scope (AddSpecific k' p s scope' m))) =
      go_get (dm_resourceToKind (AddSpecific k p s scope m))"
    "go_get (dm_pluralToSingular (AddSpecific k p s scope (AddSpecific k' p s scope' m))) =
      go_get (dm_pluralToSingular (AddSpecific k p s scope m))"
    by (auto simp: AddSpecific_def fun_eq_iff)
  moreover have "go_map_wf (dm_resourceToKind (AddSpecific k p s scope (AddSpecific k' p s scope' m)))"
    "go_map_wf (dm_pluralToSingular (AddSpecific k p s scope (AddSpecific k' p s scope' m)))"
    using assms by (simp_all add: tables_def AddSpecific_def)
  ultimately show ?thesis using tables_AddSpecific [OF assms, of k p s scope] unfolding tables_def by presburger
qed

lemma tables_Add: "tables m names \<Longrightarrow> tables (mapper_Add (WithKind gv kind) scope m) (insert (guessed gv kind) names)"
  by (auto simp: mapper_Add_def guessed_def split: prod.splits intro: tables_AddSpecific)

lemma tables_resource:
  assumes "tables m names"
  shows "tables (mapper_Add (WithKind gv list) scope (AddSpecific k p s scope (AddSpecific k' p s scope m)))
    (names \<union> {(p, s, k), guessed gv list})"
proof -
  have "names \<union> {(p, s, k), guessed gv list} = insert (guessed gv list) (insert (p, s, k) names)" by auto
  then show ?thesis
    using tables_Add [OF tables_AddSpecific_again [OF assms], of gv list scope k p s scope k' scope] by (simp only:)
qed

lemma tables_add_resource:
  "tables m names \<Longrightarrow> tables (add_resource gv m r) (names \<union> set (resource_names gv r))"
  unfolding add_resource_def resource_names_def Let_def length_0_conv
  by (cases "CHR ''/'' \<in> set (res_Name r)")
    (simp_all only: if_True if_False not_True_eq_False list.set Un_empty_right tables_resource)

lemma tables_version_mapper: "tables (version_mapper gv rs) (set (version_names gv rs))"
proof -
  have "tables (foldl (add_resource gv) m rs) (names \<union> set (concat (map (resource_names gv) rs)))"
    if "tables m names" for m names
    using that
  proof (induction rs arbitrary: m names)
    case (Cons r rs)
    then show ?case using Cons.IH [OF tables_add_resource [OF Cons.prems]] by (simp add: Un_assoc)
  qed simp
  from tables_Add [OF this [OF tables_new]] show ?thesis
    by (simp add: version_mapper_def version_names_def)
qed

lemma known_listed:
  "(p, s) \<in> set (known_plurals groups) \<Longrightarrow> \<exists>k. (p, s, k) \<in> set (listed_names groups)"
  "(r, k) \<in> set (known_kinds groups) \<Longrightarrow> \<exists>p s. (p, s, k) \<in> set (listed_names groups) \<and> (r = p \<or> r = s)"
proof -
  assume "(p, s) \<in> set (known_plurals groups)"
  then obtain gv rs where gv: "(gv, rs) \<in> set (concat (map group_versions groups))"
    and ps: "(p, s) \<in> set (dm_pluralToSingular (version_mapper gv rs))"
    by (auto simp: known_plurals_def version_mappers_def)
  have "distinct (map fst (dm_pluralToSingular (version_mapper gv rs)))"
    using tables_version_mapper [of gv rs] by (simp add: tables_def go_map_wf_def go_keys_def)
  then have "go_get (dm_pluralToSingular (version_mapper gv rs)) p = Some s" using ps by simp
  then obtain k where "(p, s, k) \<in> set (version_names gv rs)"
    using tables_version_mapper [of gv rs] unfolding tables_def by blast
  then show "\<exists>k. (p, s, k) \<in> set (listed_names groups)" using gv by (force simp: listed_names_def)
next
  assume "(r, k) \<in> set (known_kinds groups)"
  then obtain gv rs where gv: "(gv, rs) \<in> set (concat (map group_versions groups))"
    and rk: "(r, k) \<in> set (dm_resourceToKind (version_mapper gv rs))"
    by (auto simp: known_kinds_def version_mappers_def)
  have "distinct (map fst (dm_resourceToKind (version_mapper gv rs)))"
    using tables_version_mapper [of gv rs] by (simp add: tables_def go_map_wf_def go_keys_def)
  then have "go_get (dm_resourceToKind (version_mapper gv rs)) r = Some k" using rk by simp
  then obtain p s where "(p, s, k) \<in> set (version_names gv rs)" "r = p \<or> r = s"
    using tables_version_mapper [of gv rs] unfolding tables_def by blast
  then show "\<exists>p s. (p, s, k) \<in> set (listed_names groups) \<and> (r = p \<or> r = s)"
    using gv by (force simp: listed_names_def)
qed

lemma listed_known:
  assumes "(p, s, k) \<in> set (listed_names groups)"
  shows "\<exists>s'. (p, s') \<in> set (known_plurals groups)" and "\<exists>k'. (p, k') \<in> set (known_kinds groups)"
    and "\<exists>k'. (s, k') \<in> set (known_kinds groups)"
proof -
  obtain gv rs where gv: "(gv, rs) \<in> set (concat (map group_versions groups))"
    and names: "(p, s, k) \<in> set (version_names gv rs)"
    using assms by (auto simp: listed_names_def)
  let ?m = "version_mapper gv rs"
  have there: "go_get (dm_pluralToSingular ?m) p \<noteq> None" "go_get (dm_resourceToKind ?m) p \<noteq> None"
    "go_get (dm_resourceToKind ?m) s \<noteq> None"
    using tables_version_mapper [of gv rs] names unfolding tables_def by blast+
  have m: "?m \<in> set (version_mappers groups)" using gv by (force simp: version_mappers_def)
  show "\<exists>s'. (p, s') \<in> set (known_plurals groups)"
    using there(1) m by (auto simp: known_plurals_def dest!: map_of_SomeD)
  show "\<exists>k'. (p, k') \<in> set (known_kinds groups)" and "\<exists>k'. (s, k') \<in> set (known_kinds groups)"
    using there(2,3) m by (auto simp: known_kinds_def dest!: map_of_SomeD)
qed

lemma known_kind_group:
  assumes "(r, k) \<in> set (known_kinds groups)" and "gvr_Resource r \<noteq> []"
  shows "gvr_Group r = gvk_Group k"
proof -
  obtain m where m: "m \<in> set (version_mappers groups)" "(r, k) \<in> set (dm_resourceToKind m)"
    using assms(1) by (auto simp: known_kinds_def)
  obtain gv where gv: "own gv m" using version_mappers_own [OF m(1)] by blast
  have "gvk_gv k = gv" using gv m(2) by (auto simp: own_def)
  then show ?thesis using own_group(3) [OF gv m(2) assms(2)] by (auto simp: gvk_gv_def)
qed

text \<open>
  The two names belong to one resource and kind of one group, in whatever versions, and to nothing else
  that is listed.
\<close>

definition sole_resource :: "api_group_resources list \<Rightarrow> string \<Rightarrow> string \<Rightarrow> string \<Rightarrow> string \<Rightarrow> bool" where
  "sole_resource groups g pl sg kd \<longleftrightarrow> plain_name pl \<and> plain_name sg \<and>
     list_ex (\<lambda>(p, s, k). gvr_Resource p = pl) (listed_names groups) \<and>
     list_all (\<lambda>(p, s, k). gvr_Resource p \<in> set [pl, sg] \<or> gvr_Resource s \<in> set [pl, sg] \<longrightarrow>
         gvr_GroupResource p = \<lparr>gr_Group = g, gr_Resource = pl\<rparr> \<and> gvr_Resource s = sg \<and>
         gvk_Group k = g \<and> gvk_Kind k = kd) (listed_names groups)"

lemma sole_discovered:
  assumes "sole_resource groups g pl sg kd" and "name = pl \<or> name = sg"
  shows "discovered groups \<lparr>gr_Group = g, gr_Resource = name\<rparr> pl sg" and "names_kind groups g name kd"
proof -
  have plain: "plain_name pl" "plain_name sg" "plain_name name"
    using assms by (auto simp: sole_resource_def)
  have only: "gvr_GroupResource p = \<lparr>gr_Group = g, gr_Resource = pl\<rparr> \<and> gvr_Resource s = sg \<and> gvk_Group k = g \<and> gvk_Kind k = kd"
    if "(p, s, k) \<in> set (listed_names groups)"
      "gvr_Resource p = pl \<or> gvr_Resource p = sg \<or> gvr_Resource s = pl \<or> gvr_Resource s = sg" for p s k
    using assms(1) that by (auto simp: sole_resource_def list_all_iff)
  obtain p s k where psk: "(p, s, k) \<in> set (listed_names groups)" "gvr_Resource p = pl"
    using assms(1) by (auto simp: sole_resource_def list_ex_iff)
  then have p: "gvr_Group p = g" "gvr_Resource s = sg" using only [of p s k] by (auto simp: gvr_GroupResource_def)
  obtain s' where s': "(p, s') \<in> set (known_plurals groups)" using listed_known(1) [OF psk(1)] by blast
  obtain k1 where k1: "(p, k1) \<in> set (known_kinds groups)" using listed_known(2) [OF psk(1)] by blast
  obtain k2 where k2: "(s, k2) \<in> set (known_kinds groups)" using listed_known(3) [OF psk(1)] by blast
  have s'_name: "gvr_Resource s' = sg" using known_listed(1) [OF s'] only psk(2) by blast
  have kinds: "gvk_Group k = g \<and> gvk_Kind k = kd"
    if "(r, k) \<in> set (known_kinds groups)" "gvr_Resource r = pl \<or> gvr_Resource r = sg" for r k
    using known_listed(2) [OF that(1)] only that(2) by blast
  have "names_plural groups g name pl"
  proof -
    have "p \<in> set (plurals_for g name (known_plurals groups))"
      using s' s'_name psk(2) p(1) assms(2) unfolding in_plurals_for by auto
    moreover have "gvr_GroupResource r = \<lparr>gr_Group = g, gr_Resource = pl\<rparr>"
      if "r \<in> set (plurals_for g name (known_plurals groups))" for r
      using that known_listed(1) only assms(2) unfolding in_plurals_for by blast
    ultimately show ?thesis by (auto simp: names_plural_def decisive_def list_all_iff)
  qed
  moreover have "names_singular groups pl sg"
  proof -
    let ?found = "\<lambda>m. plurals_for [] pl (dm_pluralToSingular m) \<noteq> []"
    have "p \<in> set (plurals_for [] pl (known_plurals groups))"
      using s' psk(2) unfolding in_plurals_for by auto
    then obtain m' where m': "m' \<in> set (version_mappers groups)" "p \<in> set (plurals_for [] pl (dm_pluralToSingular m'))"
      by (auto simp: found_concat)
    then have "plurals_for [] pl (dm_pluralToSingular m') \<noteq> []" by (intro notI) simp
    then have "\<exists>m \<in> set (version_mappers groups). ?found m" using m'(1) by blast
    then obtain m where m: "find ?found (version_mappers groups) = Some m"
      by (cases "find ?found (version_mappers groups)") (auto simp: find_None_iff)
    then have "m \<in> set (version_mappers groups)" by (auto simp: find_Some_iff)
    then have "(x, y) \<in> set (known_plurals groups)" if "(x, y) \<in> set (dm_pluralToSingular m)" for x y
      using that by (auto simp: known_plurals_def)
    then have "gvr_Resource y = sg" if "(x, y) \<in> set (dm_pluralToSingular m)" "gvr_Resource x = pl \<or> gvr_Resource y = pl" for x y
      using known_listed(1) [of x y groups] that only by blast
    then show ?thesis using m plain(2) by (auto simp: names_singular_def list_all_iff plain_name_def)
  qed
  ultimately show "discovered groups \<lparr>gr_Group = g, gr_Resource = name\<rparr> pl sg"
    using plain by (simp add: discovered_def)
  have "k1 \<in> set (kinds_for g pl (known_kinds groups))"
    using k1 psk(2) p(1) by (force simp: kinds_for_def)
  moreover have "gvr_Group s = g"
    using known_kind_group [OF k2] kinds [OF k2] p(2) plain(2) by (auto simp: plain_name_def)
  then have "k2 \<in> set (kinds_for g sg (known_kinds groups))"
    using k2 p(2) by (force simp: kinds_for_def)
  ultimately have "kinds_for g name (known_kinds groups) \<noteq> []" using assms(2) by auto
  moreover have "\<forall>k \<in> set (kinds_for g name (known_kinds groups)). gvk_Group k = g \<and> gvk_Kind k = kd"
    using kinds assms(2) by (auto simp: kinds_for_def)
  ultimately show "names_kind groups g name kd" by (simp add: names_kind_def decisive_def list_all_iff)
qed

section \<open>From a listing to the provider\<close>

text \<open>
  C13: A discovered resource goes by any of its names. With the REST mapper made from discovered groups, in
  whatever order the runtime visits its maps: when discovery lists a resource of a group and no other
  shares its plural or singular, both names normalise to the plural in that group, with its singular,
  and references to its objects have its kind.
\<close>

theorem listed_resource_normalised:
  assumes "visits ro" and "proper_versions groups" and "sole_resource groups g pl sg kd" and "name = pl \<or> name = sg"
  shows "Normalized \<lparr>cmi_GroupResource = \<lparr>gr_Group = g, gr_Resource = name\<rparr>, cmi_Namespaced = ns, cmi_Metric = metric\<rparr>
        (NewDiscoveryRESTMapper ro groups) =
      (\<lparr>cmi_GroupResource = \<lparr>gr_Group = g, gr_Resource = pl\<rparr>, cmi_Namespaced = ns, cmi_Metric = metric\<rparr>, Ok sg) \<and>
    (\<exists>v. ReferenceFor (NewDiscoveryRESTMapper ro groups) obj
        \<lparr>cmi_GroupResource = \<lparr>gr_Group = g, gr_Resource = name\<rparr>, cmi_Namespaced = ns, cmi_Metric = metric\<rparr> =
      Ok (zero_object_reference \<lparr>or_APIVersion := g @ ''/'' @ v, or_Kind := kd, or_Name := nn_Name obj,
        or_Namespace := nn_Namespace obj\<rparr>))"
proof -
  note names = sole_discovered [OF assms(3,4)]
  have "plain_name name" using names(1) by (simp add: discovered_def)
  then show ?thesis
    using discovered_Normalized [OF assms(1,2) names(1), of ns metric]
      discovered_ReferenceFor [OF assms(1,2), of "\<lparr>gr_Group = g, gr_Resource = name\<rparr>" kd obj ns metric] names(2)
    by simp
qed

text \<open>
  The discovery of the unit test of the mapper, with the pods of the metrics server beside those of the
  core group, and maps visited backwards.
\<close>

definition namespaced_resource :: "string \<Rightarrow> string \<Rightarrow> api_resource" where
  "namespaced_resource name kind =
     \<lparr>res_Name = name, res_SingularName = [], res_Namespaced = True, res_Kind = kind, res_Verbs = []\<rparr>"

definition unit_test_discovery :: fake_discovery where
  "unit_test_discovery = \<lparr>fd_Actions = [], fd_Resources =
     [\<lparr>arl_GroupVersion = ''v1'', arl_APIResources =
         [namespaced_resource ''pods'' ''Pod'', namespaced_resource ''services'' ''Service'']\<rparr>,
      \<lparr>arl_GroupVersion = ''wardle/v1alpha1'', arl_APIResources = [namespaced_resource ''flunders'' ''Flunder'']\<rparr>,
      \<lparr>arl_GroupVersion = ''metrics.k8s.io/v1beta1'', arl_APIResources = [namespaced_resource ''pods'' ''PodMetrics'']\<rparr>]\<rparr>"

definition one_version :: "string \<Rightarrow> group_version_for_discovery \<Rightarrow> api_resource list \<Rightarrow> api_group_resources" where
  "one_version name v rs =
     \<lparr>agr_Group = \<lparr>ag_Name = name, ag_Versions = [v], ag_PreferredVersion = v\<rparr>,
      agr_VersionedResources = [(gvd_Version v, rs)]\<rparr>"

definition unit_test_groups :: "api_group_resources list" where
  "unit_test_groups =
     [one_version [] \<lparr>gvd_GroupVersion = ''v1'', gvd_Version = ''v1''\<rparr>
        [namespaced_resource ''pods'' ''Pod'', namespaced_resource ''services'' ''Service''],
      one_version ''wardle'' \<lparr>gvd_GroupVersion = ''wardle/v1alpha1'', gvd_Version = ''v1alpha1''\<rparr>
        [namespaced_resource ''flunders'' ''Flunder''],
      one_version ''metrics.k8s.io'' \<lparr>gvd_GroupVersion = ''metrics.k8s.io/v1beta1'', gvd_Version = ''v1beta1''\<rparr>
        [namespaced_resource ''pods'' ''PodMetrics'']]"

definition backwards :: range_orders where
  "backwards = \<lparr>ro_plurals = rev, ro_kinds = rev\<rparr>"

lemma visits_backwards: "visits backwards"
  by (simp add: visits_def backwards_def)

lemma unit_test_resources: "fake_resources (\<lambda>gs. gs) unit_test_discovery = Ok unit_test_groups"
  by code_simp

lemma unit_test_versions: "proper_versions unit_test_groups"
  by code_simp

theorem listed_resource_normalised_witness:
  "fst (Normalized \<lparr>cmi_GroupResource = \<lparr>gr_Group = ''wardle'', gr_Resource = ''flunder''\<rparr>, cmi_Namespaced = True,
      cmi_Metric = ''m''\<rparr> (NewDiscoveryRESTMapper backwards unit_test_groups)) =
    \<lparr>cmi_GroupResource = \<lparr>gr_Group = ''wardle'', gr_Resource = ''flunders''\<rparr>, cmi_Namespaced = True, cmi_Metric = ''m''\<rparr>"
proof -
  have "sole_resource unit_test_groups ''wardle'' ''flunders'' ''flunder'' ''Flunder''" by code_simp
  from listed_resource_normalised [OF visits_backwards unit_test_versions this, of "''flunder''"]
  show ?thesis by simp
qed

text \<open>
  A name of nothing that discovery lists keeps its group-resource: the mapper answers that there is no match.
\<close>

lemma unlisted_unmatched:
  assumes "visits ro" and "plain_name name"
    and "list_all (\<lambda>(p, s, k). gvr_Resource p \<noteq> name \<and> gvr_Resource s \<noteq> name) (listed_names groups)"
  shows "Normalized \<lparr>cmi_GroupResource = \<lparr>gr_Group = g, gr_Resource = name\<rparr>, cmi_Namespaced = ns, cmi_Metric = metric\<rparr>
      (NewDiscoveryRESTMapper ro groups) =
    (\<lparr>cmi_GroupResource = \<lparr>gr_Group = g, gr_Resource = name\<rparr>, cmi_Namespaced = ns, cmi_Metric = metric\<rparr>,
     Err (NoResourceMatchError (asks g name)))"
proof -
  have "plurals_for g name (known_plurals groups) = []"
  proof (rule ccontr)
    assume "plurals_for g name (known_plurals groups) \<noteq> []"
    then obtain p where "p \<in> set (plurals_for g name (known_plurals groups))" by (cases "plurals_for g name (known_plurals groups)") auto
    then obtain s where "(p, s) \<in> set (known_plurals groups)" "gvr_Resource p = name \<or> gvr_Resource s = name"
      unfolding in_plurals_for by blast
    then show False using known_listed(1) [of p s groups] assms(3) by (auto simp: list_all_iff)
  qed
  from undiscovered_ResourceFor [OF assms(1,2) this] show ?thesis
    by (simp add: Normalized_def asks_WithVersion)
qed

end
