(* ===== verification/Adapter_Discovery.thy ===== *)
theory Adapter_Discovery
  imports End_To_End Discovered_Names
begin

text \<open>
  The sample adapter with the REST mapper it makes from discovery: the mapper \<open>main\<close> gives its provider is
  that of the groups discovered, so what is posted under one name of a resource is served under every
  name.
\<close>

section \<open>With the REST mapper of discovery\<close>

text \<open>
  A value can be posted and read under any name of its resource: with a mapper made from the groups
  that discovery has, when both paths name, in one group, the same discovered resource.
\<close>

lemma posted_under_any_name:
  assumes "webService = Ok ws" and "serves_apis r"
    and "list_all plain_element [ns, written, name, metric]" and "list_all segment [g, v, res]"
    and "res \<notin> set (''metrics'' # namespaceSubresources)" and "name \<noteq> ''*''"
    and "selects_no_field opts" and "\<not> lo_Watch opts"
    and mapper: "tp_mapper p = NewDiscoveryRESTMapper ro groups"
    and "visits ro" and "proper_versions groups"
    and "discovered groups (ParseGroupResource written) pl sg" and "discovered groups (ParseGroupResource res) pl sg"
    and "gr_Group (ParseGroupResource written) = gr_Group (ParseGroupResource res)"
    and "names_kind groups (gr_Group (ParseGroupResource res)) (gr_Resource (ParseGroupResource res)) kd"
    and "handle_write rx ws headers ''POST'' (write_path [''namespaces'', ns, written, name, metric]) (Ok q) p = (p', out)"
  shows "if accepts_any (snd headers)
    then out = Handled Accepted \<and>
      (\<exists>gv. serve_custom scope (as_custom_provider env order p') r
          (api_request g v [''namespaces'', ns, res, name, metric] opts) =
        Ok (Some \<lparr>mvl_Items = [\<lparr>mv_DescribedObject = zero_object_reference
            \<lparr>or_APIVersion := gr_Group (ParseGroupResource res) @ ''/'' @ gv, or_Kind := kd, or_Name := name, or_Namespace := ns\<rparr>,
          mv_Metric = \<lparr>mi_Name = metric, mi_Selector = None\<rparr>, mv_Timestamp = env_now env 0,
          mv_WindowSeconds = None, mv_Value = q\<rparr>]\<rparr>))
    else out = NotRouted 406 \<and> p' = p"
proof -
  have plain: "plain_name (gr_Resource (ParseGroupResource res))" using assms(13) by (simp add: discovered_def)
  obtain gv where ref: "ReferenceFor (tp_mapper p) \<lparr>nn_Namespace = ns, nn_Name = name\<rparr>
      \<lparr>cmi_GroupResource = ParseGroupResource res, cmi_Namespaced = True, cmi_Metric = metric\<rparr> =
    Ok (zero_object_reference \<lparr>or_APIVersion := gr_Group (ParseGroupResource res) @ ''/'' @ gv, or_Kind := kd,
      or_Name := name, or_Namespace := ns\<rparr>)"
    using discovered_ReferenceFor [OF assms(10,11) plain assms(15), of "\<lparr>nn_Namespace = ns, nn_Name = name\<rparr>"]
    by (auto simp: mapper)
  have "if accepts_any (snd headers)
    then out = Handled Accepted \<and> testing_GetMetricByName env p' \<lparr>nn_Namespace = ns, nn_Name = name\<rparr>
        \<lparr>cmi_GroupResource = ParseGroupResource res, cmi_Namespaced = True, cmi_Metric = metric\<rparr> =
      Ok (Some (posted_value env (zero_object_reference \<lparr>or_APIVersion := gr_Group (ParseGroupResource res) @ ''/'' @ gv,
        or_Kind := kd, or_Name := name, or_Namespace := ns\<rparr>) metric q))
    else out = NotRouted 406 \<and> p' = p"
    using discovered_Normalized [OF assms(10,11,12)] discovered_Normalized [OF assms(10,11,13)]
    by (intro posted_read [OF assms(1,3) _ _ _ ref assms(16), where w = "Ok sg" and s = sg]) (simp_all add: mapper assms(14))
  moreover have "list_all segment [g, v, ns, res, name, metric]"
    using assms(3,4) plain_element_segment by simp
  ultimately show ?thesis using assms(2,5-8) by (auto simp: object_path_served posted_value_def)
qed

section \<open>The mapper of the sample adapter\<close>

lemma getters_keep_mapper:
  "ab_restMapper (fst (DynamicClient env b)) = ab_restMapper b"
  "ab_restMapper (fst (DiscoveryClient env b)) = ab_restMapper b"
  "ab_restMapper (fst (Flags env b)) = ab_restMapper b"
proof -
  have c: "ab_restMapper (fst (ClientConfig env b)) = ab_restMapper b" for b
    unfolding ClientConfig_def by (rule memo_other) simp_all
  show "ab_restMapper (fst (DynamicClient env b)) = ab_restMapper b"
    unfolding DynamicClient_def by (rule memo_other) (simp_all add: c)
  show "ab_restMapper (fst (DiscoveryClient env b)) = ab_restMapper b"
    unfolding DiscoveryClient_def by (rule memo_other) (simp_all add: c)
  have i: "ab_restMapper (fst (InstallFlags env b)) = ab_restMapper b" for b
    by (auto simp: go_defs Let_def split: option.splits prod.splits)
  have "fst (Flags env b) = fst (InstallFlags env (initFlagSet env b))"
    by (auto simp: Flags_def split: prod.splits result.splits)
  then show "ab_restMapper (fst (Flags env b)) = ab_restMapper b"
    by (simp add: i) (simp add: initFlagSet_def)
qed

lemma RESTMapper_made:
  assumes "RESTMapper env b = (b', Ok m)" and "ab_restMapper b = None"
  shows "\<exists>dc. ab_discoveryClient b' = Some dc \<and> NewRESTMapper (env_GetAPIGroupResources env)
    (env_NewDiscoveryRESTMapper env) dc (ab_DiscoveryInterval b) = Ok m"
proof -
  obtain b1 r where d: "DiscoveryClient env b = (b1, r)" by fastforce
  obtain dc where r: "r = Ok dc"
    using assms by (cases r) (auto simp: RESTMapper_def go_defs d)
  let ?new = "NewRESTMapper (env_GetAPIGroupResources env) (env_NewDiscoveryRESTMapper env) dc (ab_DiscoveryInterval b)"
  have b': "b' = b1\<lparr>ab_restMapper := Some m\<rparr>" and new: "?new = Ok m"
    using assms by (cases ?new; auto simp: RESTMapper_def go_defs d r)+
  have "ab_discoveryClient b1 = Some dc" using d [unfolded r] by (rule discoveryClient.fills)
  then show ?thesis using new by (auto simp: b')
qed

text \<open>The provider that \<open>main\<close> builds answers with the mapper of the groups discovery has then.\<close>

lemma main_mapper:
  assumes "main_from env parse renv order cmd = Ok (b, services)"
    and "\<And>x y. parse x = Ok y \<Longrightarrow> ab_restMapper y = ab_restMapper x" and "ab_restMapper cmd = None"
  shows "\<exists>mapper dc groups. ab_restMapper b = Some mapper \<and> ab_discoveryClient b = Some dc \<and>
    env_GetAPIGroupResources env dc = Ok groups \<and> as_rest_mapper mapper = env_NewDiscoveryRESTMapper env groups"
proof -
  obtain cmd1 r where f: "Flags env cmd = (cmd1, r)" by fastforce
  obtain fs cmd2 where r: "r = Ok fs" and parse: "parse cmd1 = Ok cmd2"
    using assms(1) by (auto simp: main_from_def f)
  obtain cmd3 r3 where make: "makeProviderOrDie env cmd2 = (cmd3, r3)" by fastforce
  obtain p ws where r3: "r3 = Ok (p, Ok ws)"
    and b: "b = WithExternalMetrics (as_external_provider renv p)
      (WithCustomMetrics (as_custom_provider renv order p) cmd3)"
    using assms(1) by (auto simp: main_from_def f r parse make Let_def)
  obtain b1 client b2 mapper where dyn: "DynamicClient env cmd2 = (b1, Ok client)"
    and map: "RESTMapper env b1 = (b2, Ok mapper)" and cmd3: "cmd3 = b2"
    using make r3 by (auto simp: makeProviderOrDie_def go_defs split: prod.splits result.splits)
  have "ab_restMapper cmd1 = None" using getters_keep_mapper(3) [of env cmd] assms(3) by (simp add: f)
  then have "ab_restMapper cmd2 = None" using assms(2) [OF parse] by simp
  then have none: "ab_restMapper b1 = None" using getters_keep_mapper(1) [of env cmd2] by (simp add: dyn)
  obtain dc where dc: "ab_discoveryClient b2 = Some dc" "NewRESTMapper (env_GetAPIGroupResources env)
      (env_NewDiscoveryRESTMapper env) dc (ab_DiscoveryInterval b1) = Ok mapper"
    using RESTMapper_made [OF map none] by blast
  have "ab_restMapper b2 = Some mapper" using map by (rule restMapper.fills)
  moreover obtain groups where "env_GetAPIGroupResources env dc = Ok groups"
    "as_rest_mapper mapper = env_NewDiscoveryRESTMapper env groups"
    using NewRESTMapper_ready [of "env_GetAPIGroupResources env" dc] dc(2)
    by (cases "env_GetAPIGroupResources env dc") (auto simp: NewRESTMapper_def RegenerateMappings_def)
  ultimately show ?thesis using dc(1) by (simp add: b cmd3 WithExternalMetrics_def WithCustomMetrics_def)
qed

end
