(* ===== verification/Spec2Isabelle.thy ===== *)
theory Spec2Isabelle
  imports Panic_Freedom Testing_Concurrent Fake_Discovery Wait_Until Adapter_Discovery
begin

text \<open>
  A verification library of the custom metrics API server (\<open>pkg/\<close>) and of its sample adapter
  (\<open>test-adapter/\<close>).

  \<^bold>\<open>The program.\<close> An adapter serves the Kubernetes APIs \<open>custom.metrics.k8s.io\<close> and
  \<open>external.metrics.k8s.io\<close> from a provider. \<open>AdapterBase\<close> (\<open>pkg/cmd/builder.go\<close>) makes clients, REST
  mapper, configuration and server on the first use of each; the server (\<open>pkg/apiserver\<close>) turns the
  providers it is given into API groups, whose routes and discovery the installer
  (\<open>pkg/apiserver/installer\<close>) adds to a go-restful container. A request is read into a request info by
  its path, handed as a list to a storage (\<open>pkg/registry\<close>), and becomes one question to the provider
  (\<open>pkg/provider\<close>). The sample provider (\<open>test-adapter/provider\<close>) keeps in a map, under a lock, the
  values that are posted to its own write service, and answers from it with the help of the REST mapper
  (\<open>pkg/dynamicmapper\<close>) and the dynamic client (\<open>pkg/provider/helpers\<close>).

  \<^bold>\<open>Conventions.\<close> A call ends in \<open>Ok\<close>, \<open>Err\<close> (a non-nil error) or \<open>Abort\<close> (a panic, or the end of the
  process); a method that changes its receiver returns it beside that. A nil pointer or interface is
  \<open>None\<close> and is looked at by \<open>deref\<close>. A Go map is an association list (\<open>go_map\<close>), and the order in which
  the runtime visits it is a parameter that permutes it. Strings are byte lists. No loop of the program
  needs fuel: all recursions are structural but for the loop of \<open>wait.Until\<close>, a partial function whose
  value is \<open>None\<close> when it does not return. A provider of a server is the record of what it answers in its
  present state. Quantities and ports are never computed with, and times only by the timer of
  \<open>Wait_Until\<close>, as integers (the 64 bits of the clock last for centuries), so no machine integer wraps
  anywhere in the model. Interfaces are records of their methods.

  \<^bold>\<open>Theories.\<close>
  \<^item> \<open>Go_Prelude\<close>: errors, results, maps, and the parts of \<open>strings\<close> and \<open>path\<close> the code uses.
  \<^item> \<open>Schema\<close>: group-versions and resources with their textual forms, selectors, and
    \<open>pkg/provider/errors.go\<close>.
  \<^item> \<open>Provider_Api\<close>: \<open>pkg/provider/interfaces.go\<close> and \<open>resource_lister.go\<close>, and the API objects; the
    locales \<open>custom_provider\<close> and \<open>external_provider\<close> say what the server relies on.
  \<^item> \<open>Helpers\<close>: \<open>pkg/provider/helpers/helpers.go\<close>.
  \<^item> \<open>Restful\<close>, \<open>Container_Dispatch\<close>: the services, routes and the curly router of go-restful (vendored);
    the choice of a route of a service, and of the service of a request.
  \<^item> \<open>Request_Info\<close>: \<open>NewRequestInfo\<close>, self links, and \<open>ListResource\<close> (vendored). \<open>Request_Safety\<close>: no index
    of it is out of bounds, and every request is one question to a provider.
  \<^item> \<open>Metrics_Rest\<close>: both \<open>reststorage.go\<close>; which question each path of the APIs asks a provider, and
    what the answers of any provider guarantee.
  \<^item> \<open>Testing_Provider\<close>, \<open>Testing_Correct\<close>: \<open>test-adapter/provider/provider.go\<close> and what its methods do;
    the interpretations of the provider locales. \<open>Write_Service\<close>: a request to its write service, through
    \<open>http.ServeMux\<close> (of Go's library), container and router.
  \<^item> \<open>Rw_Mutex\<close>, \<open>Testing_Concurrent\<close>: a reader/writer lock as a step relation with its invariant and the
    locale \<open>guarded_state\<close>, interpreted for the provider's values (and in \<open>Dynamic_Mapper\<close> for the
    delegate): concurrent requests are linear. \<open>Rw_Liveness\<close>: whoever asks for the lock gets it.
  \<^item> \<open>Dynamic_Mapper\<close>, \<open>Fake_Discovery\<close>: \<open>pkg/dynamicmapper\<close>. \<open>Wait_Until\<close>: the loop its refreshes run in
    (vendored \<open>util/wait\<close>), with timer and stop channel.
  \<^item> \<open>Rest_Mapper\<close>, \<open>Rest_Mapper_Correct\<close>, \<open>Discovered_Names\<close>: the REST mapper made from discovery (vendored
    \<open>restmapper/discovery.go\<close> and \<open>api/meta\<close>), what each of its parts finds, and what the names of a listed
    resource become.
  \<^item> \<open>Installer\<close>, \<open>Installer_Correct\<close>: \<open>installer.go\<close>, \<open>cmhandlers.go\<close>, \<open>emhandlers.go\<close>; the locale
    \<open>api_handlers\<close> is what both handlers share, and \<open>routed_handlers\<close> extends it by the table of the routes
    each registers.
  \<^item> \<open>Api_Server\<close>, \<open>Api_Server_Correct\<close>: \<open>apiserver.go\<close>, \<open>cmapis.go\<close>, \<open>emapis.go\<close>. \<open>Runtime_Scheme\<close>,
    \<open>Scheme_Init\<close>: the scheme (vendored \<open>runtime/scheme.go\<close>) with its invariant, and the registrations
    of \<open>init\<close> in \<open>apiserver.go\<close>. \<open>Server_Dispatch\<close>: requests in the container of a new server.
    \<open>Request_Serving\<close>, \<open>Server_Answers\<close>: a request from the request info filter over the director, the
    router and the list handler (vendored \<open>handlers/rest.go\<close>, \<open>server/handler.go\<close>) to what is written.
  \<^item> \<open>Server_Options\<close>, \<open>Adapter_Base\<close>, \<open>Adapter_Base_Correct\<close>: \<open>start.go\<close>, \<open>builder.go\<close>, \<open>main.go\<close>;
    the locale \<open>memoised\<close> is what all getters share.
  \<^item> \<open>End_To_End\<close>, \<open>Adapter_Discovery\<close>: the lemmas that join these. \<open>Panic_Freedom\<close>: no request panics; this theory states what
    the whole promises.

  \<^bold>\<open>What is shown.\<close> A posted value, unless the router refuses it for its \<open>Accept\<close> header, is the value served, under any
  name that discovery gives its resource, and nothing else is changed by it; every value
  served answers the question asked; each documented path asks the provider exactly one question, which a field
  selector can confirm or refuse but not redirect, and what discovery publishes can be read; the installed services are there for exactly the providers
  given, and a server made of any two providers answers every request below its versions as the table of
  the documented routes says: the error of the filter for a special verb alone, 404, 405, the discovery of the version, or the list
  the provider gives, with its self link; the scheme \<open>init\<close> fills is consistent and knows every kind the two APIs need;
  lookups see whole snapshots of discovery, refreshing never loses one, always ends its round, and ends
  when its channel is closed; no index into a path is out of bounds, and no request
  panics; getters are idempotent and a server
  is made once. Where the code does something else than its comments say, the theorem states what it does: metrics posted for a namespace
  or for a resource the REST mapper does not know are accepted and cannot be read, references to core objects have a leading slash in their \<open>APIVersion\<close>,
  times never become query parameters, the feature flags have no effect, the external route documents
  another parameter than it has, a path of three segments below \<open>namespaces\<close> is misread, and overlapping refreshes can go back.

  \<^bold>\<open>Not modelled.\<close> Listening, TLS, logging and parsing the command line; the conversion and
  defaulting functions of the scheme; the real discovery and dynamic clients and the constructors of client-go and of
  the generic server, which are parameters (as are, in \<open>Dynamic_Mapper\<close> and \<open>Adapter_Base\<close>, the two functions that make the REST
  mapper, which \<open>Rest_Mapper\<close> defines); the negotiation and
  the encoding of responses, and the filters of the handler chain other than the request info; in
  go-restful, filters and the writing of responses.
\<close>

section \<open>From a posted value to the API\<close>

text \<open>
  C1: A value posted is the value served. A request to the write service's port that posts, to the path of
  an object of a namespace (of elements that the mux does not clean away), a body that is read as a
  quantity, under a resource that the REST mapper can be asked about without a panic, is refused with 406, and the provider unchanged, if its
  \<open>Accept\<close> header names types but not \<open>*/*\<close>. Any other is accepted, and then a read of that
  object and metric through the custom metrics API, under any name of the resource that the REST mapper normalises to the same
  one and for which it knows the kind, returns a list of exactly one value: the value posted, for that metric, with a
  reference to that object. The read is of a path of segments whose resource is not \<open>metrics\<close>, \<open>status\<close> or \<open>finalize\<close> and whose
  object is not named \<open>*\<close>, with a query that has no field selector and does not watch.
\<close>

theorem posted_value_is_served:
  assumes "webService = Ok ws" and "serves_apis r"
    and "list_all plain_element [ns, written, name, metric]" and "list_all segment [g, v, res]"
    and "res \<notin> set (''metrics'' # namespaceSubresources)" and "name \<noteq> ''*''"
    and "selects_no_field opts" and "\<not> lo_Watch opts"
    and "Normalized \<lparr>cmi_GroupResource = ParseGroupResource written, cmi_Namespaced = True, cmi_Metric = metric\<rparr>
           (tp_mapper p) = (winfo, w)" and "\<not> aborts w"
    and "Normalized \<lparr>cmi_GroupResource = ParseGroupResource res, cmi_Namespaced = True, cmi_Metric = metric\<rparr>
           (tp_mapper p) = (winfo, Ok s)"
    and "ReferenceFor (tp_mapper p) \<lparr>nn_Namespace = ns, nn_Name = name\<rparr>
           \<lparr>cmi_GroupResource = ParseGroupResource res, cmi_Namespaced = True, cmi_Metric = metric\<rparr> = Ok ref"
    and "handle_write rx ws headers ''POST'' (write_path [''namespaces'', ns, written, name, metric]) (Ok q) p = (p', out)"
  shows "if accepts_any (snd headers)
    then out = Handled Accepted \<and>
      serve_custom scope (as_custom_provider env order p') r
          (api_request g v [''namespaces'', ns, res, name, metric] opts) =
        Ok (Some \<lparr>mvl_Items = [\<lparr>mv_DescribedObject = ref,
          mv_Metric = \<lparr>mi_Name = metric, mi_Selector = None\<rparr>, mv_Timestamp = env_now env 0,
          mv_WindowSeconds = None, mv_Value = q\<rparr>]\<rparr>)
    else out = NotRouted 406 \<and> p' = p"
proof -
  have "list_all segment [g, v, ns, res, name, metric]"
    using assms(3,4) plain_element_segment by simp
  then show ?thesis
    using posted_read [OF assms(1,3,9-13), of env] assms(2,5-8)
    by (auto simp: object_path_served posted_value_def)
qed

abbreviation pod_reference :: object_reference where
  "pod_reference \<equiv> zero_object_reference
     \<lparr>or_Kind := ''Pod'', or_Namespace := ''ns'', or_Name := ''web'', or_APIVersion := ''/v1''\<rparr>"

lemma pod_identities:
  "Normalized \<lparr>cmi_GroupResource = ParseGroupResource ''pod'', cmi_Namespaced = True, cmi_Metric = ''m''\<rparr>
      (tp_mapper example_testing) = (example_info ''pods'' True ''m'', Ok ''pod'')"
  "Normalized \<lparr>cmi_GroupResource = ParseGroupResource ''pods'', cmi_Namespaced = True, cmi_Metric = ''m''\<rparr>
      (tp_mapper example_testing) = (example_info ''pods'' True ''m'', Ok ''pod'')"
  "ReferenceFor (tp_mapper example_testing) \<lparr>nn_Namespace = ''ns'', nn_Name = ''web''\<rparr>
      \<lparr>cmi_GroupResource = ParseGroupResource ''pods'', cmi_Namespaced = True, cmi_Metric = ''m''\<rparr> = Ok pod_reference"
proof -
  have gr: "ParseGroupResource ''pod'' = \<lparr>gr_Group = [], gr_Resource = ''pod''\<rparr>"
    "ParseGroupResource ''pods'' = \<lparr>gr_Group = [], gr_Resource = ''pods''\<rparr>" by simp_all
  show "Normalized \<lparr>cmi_GroupResource = ParseGroupResource ''pod'', cmi_Namespaced = True, cmi_Metric = ''m''\<rparr>
      (tp_mapper example_testing) = (example_info ''pods'' True ''m'', Ok ''pod'')"
    and "Normalized \<lparr>cmi_GroupResource = ParseGroupResource ''pods'', cmi_Namespaced = True, cmi_Metric = ''m''\<rparr>
      (tp_mapper example_testing) = (example_info ''pods'' True ''m'', Ok ''pod'')"
    using example_Normalized [of "''m''"] unfolding gr by (simp_all add: example_info_def)
  show "ReferenceFor (tp_mapper example_testing) \<lparr>nn_Namespace = ''ns'', nn_Name = ''web''\<rparr>
      \<lparr>cmi_GroupResource = ParseGroupResource ''pods'', cmi_Namespaced = True, cmi_Metric = ''m''\<rparr> = Ok pod_reference"
    using example_ReferenceFor [of "\<lparr>nn_Namespace = ''ns'', nn_Name = ''web''\<rparr>" "''m''"]
    unfolding gr by (simp add: example_info_def)
qed

lemma accepts_anything: "accepts_any ''*/*''" "accepts_any []"
  by (simp_all add: accepts_any_def media_type_def trim_byte_def trim_left_byte_def trim_right_byte_def)

theorem posted_value_is_served_witness:
  "\<exists>ws. webService = Ok ws \<and>
     (\<forall>p' out. handle_write (\<lambda>_ _. False) ws (''application/json'', ''*/*'') ''POST''
         (write_path [''namespaces'', ''ns'', ''pod'', ''web'', ''m'']) (Ok q300) example_testing = (p', out) \<longrightarrow> out = Handled Accepted \<and>
       serve_custom example_scope (as_custom_provider example_env id p') example_factory
         (api_request ''custom.metrics.k8s.io'' ''v1beta1'' [''namespaces'', ''ns'', ''pods'', ''web'', ''m''] label_options) =
       Ok (Some \<lparr>mvl_Items = [\<lparr>mv_DescribedObject = pod_reference,
         mv_Metric = \<lparr>mi_Name = ''m'', mi_Selector = None\<rparr>, mv_Timestamp = 1000, mv_WindowSeconds = None,
         mv_Value = q300\<rparr>]\<rparr>))"
proof -
  obtain ws where ws: "webService = Ok ws" using webService_routes by blast
  note norm = pod_identities(1,2) and ref = pod_identities(3)
  show ?thesis
    using posted_value_is_served [OF ws example_factory_serves _ _ _ _ example_queries(4,5) norm(1) _ norm(2) ref, of
        "''custom.metrics.k8s.io''" "''v1beta1''" "\<lambda>_ _. False" "(''application/json'', ''*/*'')" q300 _ _ example_scope
        example_env id]
    by (intro exI [of _ ws]) (simp add: ws segment_def plain_element_def namespaceSubresources_def example_env_def accepts_anything)
qed

text \<open>
  C7: A posted value comes out of the server. When a body that is read as a quantity is posted to the path of an
  object of a namespace (of elements that the mux does not clean away), under a resource that the REST mapper can be asked
  about without a panic, the write is refused with 406, the provider unchanged, if its \<open>Accept\<close> header names types but
  not \<open>*/*\<close>. Otherwise it is accepted, and of the server constructed over the provider as the write leaves it, on a
  generic server with different normal roots, none below the two groups, a \<open>GET\<close> of the documented path of that object and
  metric below \<open>/apis/custom.metrics.k8s.io/v1beta1\<close>, without a \<open>Content-Type\<close> and accepting anything, under any name of the resource
  (but \<open>metrics\<close>, \<open>status\<close>, \<open>finalize\<close>) normalised to the same one, of a known kind, for an object not named \<open>*\<close>, with a query that
  has no field selector and does not watch, passes filter, director, router and list handler, and what is written is a list of exactly the
  value posted, with the path of the request, escaped, as its self link.
\<close>

theorem posted_value_over_http:
  assumes "generic_new host = Ok base" and "normal_container base" and "without_metrics base"
    and "apiserver_init (NewScheme n) = Ok sc" and "serves_apis r"
    and "New generic_new (api_scheme flds docs mediaTypes sc) host (Some (as_custom_provider env order p')) em = Ok srv"
    and "webService = Ok ws" and "list_all plain_element [ns, written, name, metric]" and "segment res"
    and "res \<notin> set (''metrics'' # namespaceSubresources)" and "name \<noteq> ''*''"
    and "selects_no_field opts" and "\<not> lo_Watch opts"
    and "Normalized \<lparr>cmi_GroupResource = ParseGroupResource written, cmi_Namespaced = True, cmi_Metric = metric\<rparr>
           (tp_mapper p) = (winfo, w)" and "\<not> aborts w"
    and "Normalized \<lparr>cmi_GroupResource = ParseGroupResource res, cmi_Namespaced = True, cmi_Metric = metric\<rparr>
           (tp_mapper p) = (winfo, Ok s)"
    and "ReferenceFor (tp_mapper p) \<lparr>nn_Namespace = ns, nn_Name = name\<rparr>
           \<lparr>cmi_GroupResource = ParseGroupResource res, cmi_Namespaced = True, cmi_Metric = metric\<rparr> = Ok ref"
    and "accepts_any accept"
    and "handle_write wrx ws headers ''POST'' (write_path [''namespaces'', ns, written, name, metric]) (Ok q) p = (p', out)"
  shows "if accepts_any (snd headers)
    then out = Handled Accepted \<and>
      serve_http r rx (GenericAPIServer srv) ([], accept)
          (api_request custom_GroupName ''v1beta1'' [''namespaces'', ns, res, name, metric] opts) =
        Ok (ListAnswer (MetricValueListObject \<lparr>mvl_Items = [\<lparr>mv_DescribedObject = ref,
              mv_Metric = \<lparr>mi_Name = metric, mi_Selector = None\<rparr>, mv_Timestamp = env_now env 0,
              mv_WindowSeconds = None, mv_Value = q\<rparr>]\<rparr>)
            (Some (EscapedPath (''/apis/custom.metrics.k8s.io/v1beta1/namespaces/'' @ ns @ ''/'' @ res @ ''/'' @ name @
              ''/'' @ metric))))
    else out = NotRouted 406 \<and> p' = p"
proof (cases "accepts_any (snd headers)")
  case True
  let ?segs = "[''namespaces'', ns, res, name, metric]"
  let ?req = "api_request custom_GroupName ''v1beta1'' ?segs opts"
  have segs: "list_all segment [custom_GroupName, ''v1beta1'', ns, res, name, metric]"
    using assms(8,9) plain_element_segment api_versions by simp
  have read: "out = Handled Accepted \<and> testing_GetMetricByName env p' \<lparr>nn_Namespace = ns, nn_Name = name\<rparr>
      \<lparr>cmi_GroupResource = ParseGroupResource res, cmi_Namespaced = True, cmi_Metric = metric\<rparr> =
    Ok (Some (posted_value env ref metric q))"
    using posted_read [OF assms(7,8,14-17,19), of env] True by simp
  have below: "below_version custom_GroupName ''v1beta1'' ?segs ?req"
    using segs by (intro below_versionI) (simp_all add: version_path_def api_request_def segment_def)
  have listed: "serve_custom (metrics_list_scope (custom_gv ''v1beta1'')) (as_custom_provider env order p') r ?req =
      Ok (Some \<lparr>mvl_Items = [posted_value env ref metric q]\<rparr>)"
    using assms(5,10-13) read segs by (simp add: object_path_served)
  show ?thesis
    using True read New_answers(1) [OF assms(1-3,5,4,6) refl below assms(18), of rx] listed
    by (simp add: api_answer_def written_list_def metric_list_object_def api_request_def GenerateListLink_def
        posted_value_def custom_GroupName_def only_special_verb_def)
qed (use posted_read [OF assms(7,8,14-17,19), of env] in simp)

lemma pod_link:
  "EscapedPath (''/apis/custom.metrics.k8s.io/v1beta1/namespaces/'' @ ''ns'' @ ''/'' @ ''pods'' @ ''/'' @ ''web'' @ ''/'' @ ''m'') =
    ''/apis/custom.metrics.k8s.io/v1beta1/namespaces/ns/pods/web/m''"
  by (simp add: EscapedPath_def path_unreserved_def unreserved_def Let_def)

theorem posted_value_over_http_witness:
  "\<exists>ws p' sc srv. webService = Ok ws \<and> apiserver_init (NewScheme ''scheme'') = Ok sc \<and>
     handle_write (\<lambda>_ _. False) ws ([], ''application/json, */*'') ''POST'' (write_path [''namespaces'', ''ns'', ''pod'', ''web'', ''m'']) (Ok q300)
       example_testing = (p', Handled Accepted) \<and>
     New (\<lambda>_. Ok example_base) (api_scheme (\<lambda>_. []) (\<lambda>_. None) [] sc) ''adapter''
       (Some (as_custom_provider example_env id p')) None = Ok srv \<and>
     serve_http example_factory (\<lambda>_ _. False) (GenericAPIServer srv) ([], ''application/json, */*'')
       (api_request custom_GroupName ''v1beta1'' [''namespaces'', ''ns'', ''pods'', ''web'', ''m''] label_options) =
     Ok (ListAnswer (MetricValueListObject \<lparr>mvl_Items = [\<lparr>mv_DescribedObject = pod_reference,
         mv_Metric = \<lparr>mi_Name = ''m'', mi_Selector = None\<rparr>, mv_Timestamp = 1000, mv_WindowSeconds = None,
         mv_Value = q300\<rparr>]\<rparr>) (Some ''/apis/custom.metrics.k8s.io/v1beta1/namespaces/ns/pods/web/m''))"
proof -
  obtain ws where ws: "webService = Ok ws" using webService_routes by blast
  obtain sc where sc: "apiserver_init (NewScheme ''scheme'') = Ok sc" using apiserver_init_Ok by blast
  obtain p' out where wrote: "handle_write (\<lambda>_ _. False) ws ([], ''application/json, */*'') ''POST''
      (write_path [''namespaces'', ''ns'', ''pod'', ''web'', ''m'']) (Ok q300) example_testing = (p', out)"
    by (cases "handle_write (\<lambda>_ _. False) ws ([], ''application/json, */*'') ''POST''
      (write_path [''namespaces'', ''ns'', ''pod'', ''web'', ''m'']) (Ok q300) example_testing")
  obtain srv where srv: "New (\<lambda>_. Ok example_base) (api_scheme (\<lambda>_. []) (\<lambda>_. None) [] sc) ''adapter''
       (Some (as_custom_provider example_env id p')) None = Ok srv"
    using New_installs [where generic_new = "\<lambda>_. Ok example_base", OF refl example_base_without_metrics
        init_scheme_Ok [OF sc, of "\<lambda>_. []" "\<lambda>_. None" "[]"]] by blast
  have env: "env_now example_env 0 = 1000" by (simp add: example_env_def)
  have "out = Handled Accepted \<and>
     serve_http example_factory (\<lambda>_ _. False) (GenericAPIServer srv) ([], ''application/json, */*'')
       (api_request custom_GroupName ''v1beta1'' [''namespaces'', ''ns'', ''pods'', ''web'', ''m''] label_options) =
     Ok (ListAnswer (MetricValueListObject \<lparr>mvl_Items = [\<lparr>mv_DescribedObject = pod_reference,
         mv_Metric = \<lparr>mi_Name = ''m'', mi_Selector = None\<rparr>, mv_Timestamp = 1000, mv_WindowSeconds = None,
         mv_Value = q300\<rparr>]\<rparr>) (Some ''/apis/custom.metrics.k8s.io/v1beta1/namespaces/ns/pods/web/m''))"
    using posted_value_over_http [OF refl example_base_normal example_base_without_metrics sc example_factory_serves
        srv ws _ _ _ _ example_queries(4,5) pod_identities(1) _ pod_identities(2,3) accepts_json_or_any wrote, of "\<lambda>_ _. False"]
    unfolding env pod_link by (simp add: segment_def plain_element_def namespaceSubresources_def accepts_json_or_any)
  then show ?thesis using ws sc wrote srv by blast
qed

section \<open>Metrics of a namespace\<close>



section \<open>What a served value describes\<close>



section \<open>The adapter as a whole\<close>

text \<open>
  C8: The sample adapter serves what it lets others write. When \<open>main\<close> runs to the end, it has built one
  provider from the dynamic client and the REST mapper that the base keeps (with the scheme filled by
  \<open>init\<close>): the service on the default container is the write service of that provider, below \<open>/write-metrics\<close>; both metrics APIs of the
  server are given that provider; and the server is the generic one with, for each API, the service of
  its served version and the service of its group, custom metrics first, both groups in discovery.
\<close>

theorem sample_adapter_serves:
  assumes "main_from env parse renv order cmd = Ok (b, services)"
    and "\<And>x y. parse x = Ok y \<Longrightarrow> ab_server y = ab_server x" and "ab_server cmd = None"
    and "\<And>completed name s. env_GenericNew env completed name = Ok s \<Longrightarrow> without_metrics s"
    and "apiserver_init (NewScheme n) = Ok sc" and "env_Scheme env = api_scheme flds docs mediaTypes sc"
  shows "\<exists>client mapper p ws completed name base b' s.
    ab_dynamicClient b = Some client \<and> ab_restMapper b = Some mapper \<and>
    NewFakeProvider client (as_rest_mapper mapper) = (p, Ok ws) \<and>
    services = [ws] \<and> ws_rootPath ws = ''/write-metrics'' \<and>
    ab_cmProvider b = Some (as_custom_provider renv order p) \<and>
    ab_emProvider b = Some (as_external_provider renv p) \<and>
    base_Server env b = (b', Ok s) \<and> env_GenericNew env completed name = Ok base \<and>
    server_roots (GenericAPIServer s) =
      server_roots base @ api_roots custom_GroupName ''v1beta1'' @ api_roots external_GroupName ''v1beta1'' \<and>
    gs_apiGroupNames (GenericAPIServer s) = gs_apiGroupNames base @ [custom_GroupName, external_GroupName]"
proof -
  from main_from_Ok [OF assms(1-3)] obtain client mapper p ws b' s
    where made: "ab_dynamicClient b = Some client" "ab_restMapper b = Some mapper"
      "NewFakeProvider client (as_rest_mapper mapper) = (p, Ok ws)"
    and add: "container_Add [] ws = Ok services"
    and provs: "ab_cmProvider b = Some (as_custom_provider renv order p)"
      "ab_emProvider b = Some (as_external_provider renv p)"
    and server: "ab_server b = None" "base_Server env b = (b', Ok s)" by blast
  have "webService = Ok ws" using made(3) by (simp add: NewFakeProvider_def)
  then have root: "ws_rootPath ws = ''/write-metrics''" by (rule webService_root)
  then have services: "services = [ws]" using add by (simp add: container_Add_def)
  obtain completed name where new: "New (env_GenericNew env completed) (env_Scheme env) name
      (ab_cmProvider b) (ab_emProvider b) = Ok s"
    using base_Server_New [OF server] by blast
  then obtain base where base: "env_GenericNew env completed name = Ok base" by (auto simp: New_def)
  then have "server_roots (GenericAPIServer s) =
      server_roots base @ api_roots custom_GroupName ''v1beta1'' @ api_roots external_GroupName ''v1beta1'' \<and>
    gs_apiGroupNames (GenericAPIServer s) = gs_apiGroupNames base @ [custom_GroupName, external_GroupName]"
    using New_installs [where generic_new = "env_GenericNew env completed", OF base assms(4) [OF base]
        init_scheme_Ok [OF assms(5), of flds docs mediaTypes, folded assms(6)],
        of "ab_cmProvider b" "ab_emProvider b"] new
    by (simp add: provs)
  with made provs server(2) base root services show ?thesis by blast
qed

text \<open>
  An environment with the scheme of \<open>init\<close> and the discovery of the mapper's unit test, in which the
  sample adapter runs to its end, and its base before.
\<close>

definition init_env ::
  "scheme \<Rightarrow> (string, fake_discovery, api_group_resources list, unit, int, string, unit, unit) adapter_env" where
  "init_env sc =
     \<lparr>env_CommandLine = [''v''], env_options = example_options_env,
      env_LoadConfig = (\<lambda>f. Ok f), env_InClusterConfig = Ok ''in-cluster'',
      env_NewDiscoveryClientForConfig = (\<lambda>_. Ok unit_test_discovery),
      env_GetAPIGroupResources = (\<lambda>d. GetAPIGroupResources (whole (ServerGroups (\<lambda>gs. gs) d))
        (\<lambda>gv. whole (snd (ServerResourcesForGroupVersion gv d)))),
      env_NewDiscoveryRESTMapper = NewDiscoveryRESTMapper backwards,
      env_NewDynamicForConfig = (\<lambda>_. Ok (\<lambda>_ _ _. Ok None)),
      env_NewKubeForConfig = (\<lambda>_. Ok ()), env_NewSharedInformerFactory = (\<lambda>_ n. n),
      env_Complete = (\<lambda>_ _. ()), env_GenericNew = (\<lambda>_ _. Ok example_base),
      env_Scheme = api_scheme (\<lambda>_. []) (\<lambda>_. None) [] sc, env_PrepareRun_Run = (\<lambda>_. Ok ())\<rparr>"

definition new_base :: "(string, fake_discovery, int, string, unit) adapter_base" where
  "new_base =
     \<lparr>ab_Options = None, ab_Name = [], ab_RemoteKubeConfigFile = [], ab_DiscoveryInterval = 600,
      ab_FlagSet = None, ab_flagOnce = False, ab_clientConfig = None, ab_discoveryClient = None,
      ab_restMapper = None, ab_dynamicClient = None, ab_informers = None, ab_config = None,
      ab_server = None, ab_cmProvider = None, ab_emProvider = None\<rparr>"

lemma unit_test_fetched:
  "GetAPIGroupResources (whole (ServerGroups (\<lambda>gs. gs) unit_test_discovery))
     (\<lambda>gv. whole (snd (ServerResourcesForGroupVersion gv unit_test_discovery))) = Ok unit_test_groups"
  using unit_test_resources by (simp add: fake_resources_def)

lemma init_main:
  assumes "apiserver_init (NewScheme n) = Ok sc"
  shows "\<exists>b services. main_from (init_env sc) (\<lambda>x. Ok x) example_env id new_base = Ok (b, services) \<and>
    ab_discoveryClient b = Some unit_test_discovery"
proof -
  let ?scheme = "api_scheme (\<lambda>_. []) (\<lambda>_. None) [] sc"
  obtain ws where ws: "webService = Ok ws" using webService_routes by blast
  have add: "container_Add [] ws = Ok [ws]"
    using webService_root [OF ws] by (simp add: container_Add_def)
  have "\<forall>n cm em. \<exists>s. New (\<lambda>_. Ok example_base) ?scheme n (Some cm) (Some em) = Ok s"
    using New_installs [where generic_new = "\<lambda>_. Ok example_base", OF refl example_base_without_metrics
        init_scheme_Ok [OF assms, of "\<lambda>_. []" "\<lambda>_. None" "[]"]] by blast
  then obtain made where made:
    "\<And>n cm em. New (\<lambda>_. Ok example_base) ?scheme n (Some cm) (Some em) = Ok (made n cm em)" by metis
  note getters = ClientConfig_def DiscoveryClient_def RESTMapper_def DynamicClient_def base_Config_def
    base_Server_def go_defs Complete_def
  show ?thesis
    by (simp add: main_from_def Flags_def makeProviderOrDie_def Run_def getters
        NewRESTMapper_def RegenerateMappings_def NewFakeProvider_def WithCustomMetrics_def WithExternalMetrics_def
        Let_def init_env_def new_base_def unit_test_fetched ws add made)
qed

theorem sample_adapter_serves_witness:
  "\<exists>sc b services b' s. apiserver_init (NewScheme ''scheme'') = Ok sc \<and>
    main_from (init_env sc) (\<lambda>x. Ok x) example_env id new_base = Ok (b, services) \<and>
    map ws_rootPath services = [''/write-metrics''] \<and> base_Server (init_env sc) b = (b', Ok s) \<and>
    gs_apiGroupNames (GenericAPIServer s) = [''custom.metrics.k8s.io'', ''external.metrics.k8s.io'']"
proof -
  obtain sc where sc: "apiserver_init (NewScheme ''scheme'') = Ok sc" using apiserver_init_Ok by blast
  have parse: "\<And>x y. Ok x = Ok y \<Longrightarrow> ab_server y = ab_server x" and none: "ab_server new_base = None"
    by (simp_all add: new_base_def)
  have base: "without_metrics s" if "env_GenericNew (init_env sc) completed name = Ok s" for completed name s
    using that example_base_without_metrics by (simp add: init_env_def)
  have scheme: "env_Scheme (init_env sc) = api_scheme (\<lambda>_. []) (\<lambda>_. None) [] sc"
    by (simp add: init_env_def)
  obtain b services where main: "main_from (init_env sc) (\<lambda>x. Ok x) example_env id new_base = Ok (b, services)"
    using init_main [OF sc] by blast
  from sample_adapter_serves [OF main parse none base sc scheme] main sc show ?thesis
    by (fastforce simp: init_env_def example_base_def custom_GroupName_def
        external_GroupName_def)
qed

text \<open>
  C3: The sample adapter serves a posted value under any name of its resource. When \<open>main\<close> runs to the end
  and has its REST mapper made from the groups that discovery has, and both the resource of a write
  path and that of a read path are names, in one group, of a resource discovered there, of one kind, then a quantity
  posted to the service on the default container under the one, on a path of elements that the mux does not clean away, is
  refused with 406 if the \<open>Accept\<close> header names types but not \<open>*/*\<close>, and otherwise is accepted, and
  is the one value that the provider given to the server serves under the other, for the object named, with the
  kind that discovery gives it. The read is of a path of segments whose resource is not \<open>metrics\<close>, \<open>status\<close> or \<open>finalize\<close> and
  whose object is not named \<open>*\<close>, with a query that has no field selector and does not watch.
\<close>

theorem adapter_serves_any_name:
  assumes "main_from env parse renv order cmd = Ok (b, services)"
    and "\<And>x y. parse x = Ok y \<Longrightarrow> ab_server y = ab_server x \<and> ab_restMapper y = ab_restMapper x"
    and "ab_server cmd = None" and "ab_restMapper cmd = None"
    and "env_GetAPIGroupResources env = (\<lambda>d. GetAPIGroupResources (server_groups d) (resources_for d))"
    and "env_NewDiscoveryRESTMapper env = NewDiscoveryRESTMapper ro" and "visits ro"
    and "ab_discoveryClient b = Some dc"
    and "GetAPIGroupResources (server_groups dc) (resources_for dc) = Ok groups" and "proper_versions groups"
    and "discovered groups (ParseGroupResource written) pl sg" and "discovered groups (ParseGroupResource res) pl sg"
    and "gr_Group (ParseGroupResource written) = gr_Group (ParseGroupResource res)"
    and "names_kind groups (gr_Group (ParseGroupResource res)) (gr_Resource (ParseGroupResource res)) kd"
    and "serves_apis r" and "list_all plain_element [ns, written, name, metric]" and "list_all segment [g, v, res]"
    and "res \<notin> set (''metrics'' # namespaceSubresources)" and "name \<noteq> ''*''"
    and "selects_no_field opts" and "\<not> lo_Watch opts"
  shows "\<exists>ws p. services = [ws] \<and> ab_cmProvider b = Some (as_custom_provider renv order p) \<and>
    (\<forall>p' out. handle_write rx ws headers ''POST'' (write_path [''namespaces'', ns, written, name, metric]) (Ok q) p = (p', out) \<longrightarrow>
      (if accepts_any (snd headers)
       then out = Handled Accepted \<and>
         (\<exists>gv. serve_custom scope (as_custom_provider renv order p') r
             (api_request g v [''namespaces'', ns, res, name, metric] opts) =
           Ok (Some \<lparr>mvl_Items = [\<lparr>mv_DescribedObject = zero_object_reference
               \<lparr>or_APIVersion := gr_Group (ParseGroupResource res) @ ''/'' @ gv, or_Kind := kd, or_Name := name, or_Namespace := ns\<rparr>,
             mv_Metric = \<lparr>mi_Name = metric, mi_Selector = None\<rparr>, mv_Timestamp = env_now renv 0,
             mv_WindowSeconds = None, mv_Value = q\<rparr>]\<rparr>))
       else out = NotRouted 406 \<and> p' = p))"
proof -
  from main_from_Ok [OF assms(1) _ assms(3)] assms(2) obtain client mapper p ws
    where mapper: "ab_restMapper b = Some mapper" and made: "NewFakeProvider client (as_rest_mapper mapper) = (p, Ok ws)"
    and add: "container_Add [] ws = Ok services"
    and prov: "ab_cmProvider b = Some (as_custom_provider renv order p)" by blast
  have ws: "webService = Ok ws" and p: "tp_mapper p = as_rest_mapper mapper"
    using made by (auto simp: NewFakeProvider_def)
  have services: "services = [ws]" using add webService_root [OF ws] by (simp add: container_Add_def)
  have "as_rest_mapper mapper = NewDiscoveryRESTMapper ro groups"
    using main_mapper [OF assms(1) _ assms(4)] assms(2,5,6,8,9) mapper by auto
  then have "tp_mapper p = NewDiscoveryRESTMapper ro groups" by (simp add: p)
  from posted_under_any_name [OF ws assms(15-21) this assms(7,10-14)] prov services show ?thesis by blast
qed

theorem adapter_serves_any_name_witness:
  "\<exists>sc b services ws p. main_from (init_env sc) (\<lambda>x. Ok x) example_env id new_base = Ok (b, services) \<and>
     services = [ws] \<and> ab_cmProvider b = Some (as_custom_provider example_env id p) \<and>
     (\<forall>p' out. handle_write (\<lambda>_ _. False) ws ([], []) ''POST'' (write_path [''namespaces'', ''ns'', ''pod'', ''web'', ''m''])
         (Ok q300) p = (p', out) \<longrightarrow> out = Handled Accepted \<and>
       (\<exists>l. serve_custom example_scope (as_custom_provider example_env id p') example_factory
         (api_request ''custom.metrics.k8s.io'' ''v1beta1'' [''namespaces'', ''ns'', ''pods'', ''web'', ''m''] no_options) =
         Ok (Some l) \<and> map mv_Value (mvl_Items l) = [q300] \<and>
         map (or_Kind \<circ> mv_DescribedObject) (mvl_Items l) = [''Pod'']))"
proof -
  obtain sc where sc: "apiserver_init (NewScheme ''scheme'') = Ok sc" using apiserver_init_Ok by blast
  obtain b services where main: "main_from (init_env sc) (\<lambda>x. Ok x) example_env id new_base = Ok (b, services)"
    and dc: "ab_discoveryClient b = Some unit_test_discovery"
    using init_main [OF sc] by blast
  have parse: "\<And>x y. Ok x = Ok y \<Longrightarrow> ab_server y = ab_server x \<and> ab_restMapper y = ab_restMapper x"
    and none: "ab_server new_base = None" "ab_restMapper new_base = None"
    and getters: "env_GetAPIGroupResources (init_env sc) = (\<lambda>d. GetAPIGroupResources (whole (ServerGroups (\<lambda>gs. gs) d))
        (\<lambda>gv. whole (snd (ServerResourcesForGroupVersion gv d))))"
      "env_NewDiscoveryRESTMapper (init_env sc) = NewDiscoveryRESTMapper backwards"
    by (simp_all add: new_base_def init_env_def)
  have gr: "ParseGroupResource ''pod'' = \<lparr>gr_Group = [], gr_Resource = ''pod''\<rparr>"
    "ParseGroupResource ''pods'' = \<lparr>gr_Group = [], gr_Resource = ''pods''\<rparr>" by simp_all
  have "discovered unit_test_groups \<lparr>gr_Group = [], gr_Resource = ''pod''\<rparr> ''pods'' ''pod''"
    "discovered unit_test_groups \<lparr>gr_Group = [], gr_Resource = ''pods''\<rparr> ''pods'' ''pod''"
    "names_kind unit_test_groups [] ''pods'' ''Pod''" by code_simp+
  then have names: "discovered unit_test_groups (ParseGroupResource ''pod'') ''pods'' ''pod''"
    "discovered unit_test_groups (ParseGroupResource ''pods'') ''pods'' ''pod''"
    "gr_Group (ParseGroupResource ''pod'') = gr_Group (ParseGroupResource ''pods'')"
    "names_kind unit_test_groups (gr_Group (ParseGroupResource ''pods'')) (gr_Resource (ParseGroupResource ''pods'')) ''Pod''"
    by (simp_all only: gr group_resource.simps)
  have request: "list_all plain_element [''ns'', ''pod'', ''web'', ''m'']"
    "list_all segment [''custom.metrics.k8s.io'', ''v1beta1'', ''pods'']"
    "''pods'' \<notin> set (''metrics'' # namespaceSubresources)" "''web'' \<noteq> ''*''"
    by (simp_all add: segment_def plain_element_def namespaceSubresources_def)
  show ?thesis
    using adapter_serves_any_name [OF main parse none getters visits_backwards dc unit_test_fetched unit_test_versions
        names example_factory_serves request example_queries(1,2), of "\<lambda>_ _. False" "([], [])" q300 example_scope] main accepts_anything(2)
    by (intro exI [of _ sc] exI [of _ b] exI [of _ services]) fastforce
qed

end
